(* ===== verification/Prelude.thy ===== *)
theory Prelude
  imports Complex_Main "HOL-Library.Sublist"
begin

text \<open>
  Shared vocabulary of the development: the JavaScript string and number operations
  that \<open>src/script.js\<close> calls (\<open>toLowerCase\<close>, \<open>trim\<close>, \<open>includes\<close>,
  \<open>Math.round\<close>, number-to-string conversion in template literals), the collection
  \<open>js_simps\<close> that carries their evaluation, and generic list lemmas the component
  theories share.

  A JavaScript string is a sequence of UTF-16 code units.  The model takes the code
  units of the Latin-1 range U+0000..U+00FF, one Isabelle \<open>char\<close> each (\<open>of_char\<close>
  is the code unit).  On that range \<open>toLowerCase\<close> maps A..Z and U+00C0..U+00DE
  except U+00D7 up by 32 and fixes every other unit, and \<open>trim\<close> removes the units
  9..13, 32 and 160 (ECMA-262 WhiteSpace and LineTerminator restricted to the range),
  so both are exact there.
\<close>

named_theorems js_simps "evaluation rules of the JavaScript built-ins"

type_synonym js_string = string

section \<open>Strings\<close>

definition js_lower_char :: "char \<Rightarrow> char" where
  "js_lower_char c =
     (let n = of_char c :: nat in
      if (65 \<le> n \<and> n \<le> 90) \<or> (192 \<le> n \<and> n \<le> 222 \<and> n \<noteq> 215)
      then char_of (n + 32) else c)"

definition js_lower :: "js_string \<Rightarrow> js_string" where
  "js_lower s = map js_lower_char s"

definition is_js_space :: "char \<Rightarrow> bool" where
  "is_js_space c = (of_char c \<in> {9, 10, 11, 12, 13, 32, 160 :: nat})"

definition js_trim :: "js_string \<Rightarrow> js_string" where
  "js_trim s = rev (dropWhile is_js_space (rev (dropWhile is_js_space s)))"

text \<open>
  \<open>String.prototype.includes\<close> (ECMA-262 StringIndexOf): the search string occurs
  at some position of the receiver; the scan tries the positions from the left.
\<close>

fun js_includes :: "js_string \<Rightarrow> js_string \<Rightarrow> bool" where
  "js_includes q [] = (q = [])"
| "js_includes q (c # s) = (prefix q (c # s) \<or> js_includes q s)"

section \<open>Numbers\<close>

text \<open>
  The values \<open>Math.round\<close> produces in the program: an integer, \<open>NaN\<close> or
  \<open>Infinity\<close>.  Finite arithmetic is exact rational arithmetic (see the header of
  the root theory for where this differs from IEEE doubles).
\<close>

datatype js_num = JInt int | JNaN | JInf

definition js_round :: "rat \<Rightarrow> int" where
  "js_round q = \<lfloor>q + 1 / 2\<rfloor>"

fun nat_digits :: "nat \<Rightarrow> js_string" where
  "nat_digits n =
     (if n < 10 then [char_of (48 + n)]
      else nat_digits (n div 10) @ [char_of (48 + n mod 10)])"

declare nat_digits.simps [simp del]

definition js_int_str :: "int \<Rightarrow> js_string" where
  "js_int_str i = (if i < 0 then CHR ''-'' # nat_digits (nat (- i)) else nat_digits (nat i))"

fun js_num_str :: "js_num \<Rightarrow> js_string" where
  "js_num_str (JInt i) = js_int_str i"
| "js_num_str JNaN = ''NaN''"
| "js_num_str JInf = ''Infinity''"

text \<open>\<open>String(null)\<close> and \<open>"#" + null\<close>: a missing attribute reads as \<open>"null"\<close>.\<close>

fun js_str_opt :: "js_string option \<Rightarrow> js_string" where
  "js_str_opt None = ''null''"
| "js_str_opt (Some s) = s"

section \<open>Lists\<close>

text \<open>Removing the \<open>k\<close>-th element, as a settled promise leaves the queue of pending ones.\<close>

definition del_nth :: "nat \<Rightarrow> 'a list \<Rightarrow> 'a list" where
  "del_nth k xs = take k xs @ drop (Suc k) xs"

section \<open>Lemmas on the string built-ins\<close>

lemma js_lower_Nil [simp, js_simps]: "js_lower [] = []"
  and js_lower_Cons [simp, js_simps]: "js_lower (c # s) = js_lower_char c # js_lower s"
  by (simp_all add: js_lower_def)

lemma length_js_lower [simp]: "length (js_lower s) = length s"
  by (simp add: js_lower_def)

lemma js_lower_append [simp]: "js_lower (s @ t) = js_lower s @ js_lower t"
  by (simp add: js_lower_def)

lemma js_lower_empty_iff [simp]: "(js_lower s = []) = (s = [])"
  by (simp add: js_lower_def)

lemma js_lower_char_idem [simp]: "js_lower_char (js_lower_char c) = js_lower_char c"
proof -
  have "of_char c < (256::nat)" by (rule nat_of_char_less_256)
  then show ?thesis
    by (auto simp: js_lower_char_def Let_def)
qed

lemma js_lower_idem [simp]: "js_lower (js_lower s) = js_lower s"
  by (induction s) simp_all

lemma js_includes_sublist [simp]: "js_includes q s = sublist q s"
proof (induction s)
  case Nil
  then show ?case by simp
next
  case (Cons c s)
  then show ?case by (auto simp: sublist_Cons_right)
qed

lemma js_trim_no_lead: "js_trim s = c # r \<Longrightarrow> \<not> is_js_space c"
  by (metis js_trim_def last_appendR list.distinct(1) last_snoc rev_eq_Cons_iff rev.simps(1)
      last_rev hd_dropWhile takeWhile_dropWhile_id dropWhile_idem rev_swap)

lemma js_trim_no_trail: "js_trim s = r @ [c] \<Longrightarrow> \<not> is_js_space c"
  by (metis Nil_is_append_conv hd_dropWhile js_trim_def last_rev last_snoc
      list.distinct(1) rev.simps(1))

lemma js_trim_sublist: "sublist (js_trim s) s"
proof -
  let ?u = "dropWhile is_js_space s"
  have "suffix (dropWhile is_js_space (rev ?u)) (rev ?u)" by (rule suffix_dropWhile)
  then have "prefix (js_trim s) ?u" by (simp add: js_trim_def suffix_to_prefix)
  moreover have "suffix ?u s" by (rule suffix_dropWhile)
  ultimately show ?thesis
    by (meson prefix_imp_sublist suffix_imp_sublist sublist_order.order_trans)
qed

lemma js_trim_idem [simp]: "js_trim (js_trim s) = js_trim s"
proof -
  let ?t = "js_trim s"
  have lead: "dropWhile is_js_space ?t = ?t"
    by (cases ?t) (auto dest: js_trim_no_lead)
  have "dropWhile is_js_space (rev ?t) = rev ?t"
  proof (cases "rev ?t")
    case Nil
    then show ?thesis by simp
  next
    case (Cons c r)
    then have "?t = rev r @ [c]" by (metis rev_eq_Cons_iff)
    then have "\<not> is_js_space c" by (rule js_trim_no_trail)
    with Cons show ?thesis by simp
  qed
  with lead show ?thesis by (simp add: js_trim_def [of ?t])
qed

section \<open>Lemmas on numbers\<close>

lemma js_round_ratio:
  assumes "0 < t"
  shows "js_round (of_int s / of_int t * 100) = (200 * s + t) div (2 * t)"
proof -
  have t: "(0::rat) < of_int t" using assms by simp
  have "of_int s / of_int t * 100 + 1 / 2 = (of_int (200 * s + t) :: rat) / of_int (2 * t)"
    using t by (simp add: field_simps)
  then have "js_round (of_int s / of_int t * 100) = \<lfloor>(of_int (200 * s + t) :: rat) / of_int (2 * t)\<rfloor>"
    by (simp only: js_round_def)
  also have "\<dots> = (200 * s + t) div (2 * t)" by (rule floor_divide_of_int_eq)
  finally show ?thesis .
qed

lemma nat_digits_digits: "set (nat_digits n) \<subseteq> char_of ` {48..<58 :: nat}"
proof (induction n rule: nat_digits.induct)
  case (1 n)
  show ?case
  proof (cases "n < 10")
    case True
    then show ?thesis by (subst nat_digits.simps) auto
  next
    case False
    with "1.IH" show ?thesis
      by (subst nat_digits.simps) (auto intro!: imageI)
  qed
qed

section \<open>Lemmas on lists\<close>

lemma length_del_nth [simp]: "k < length xs \<Longrightarrow> length (del_nth k xs) = length xs - 1"
  by (simp add: del_nth_def)

lemma set_del_nth: "set (del_nth k xs) \<subseteq> set xs"
  by (auto simp: del_nth_def dest: in_set_takeD in_set_dropD)

lemma del_nth_0 [simp]: "del_nth 0 xs = tl xs"
  by (simp add: del_nth_def drop_Suc)

lemma list_all_del_nth [intro]: "list_all P xs \<Longrightarrow> list_all P (del_nth k xs)"
  using set_del_nth by (fastforce simp: list_all_iff)

lemma find_append:
  "find P (xs @ ys) = (case find P xs of None \<Rightarrow> find P ys | Some x \<Rightarrow> Some x)"
  by (induction xs) simp_all

lemma find_first:
  "map_option fst (find P xs) = (case map fst (filter P xs) of [] \<Rightarrow> None | x # _ \<Rightarrow> Some x)"
  by (induction xs) simp_all

lemma list_all2_filter:
  assumes "list_all2 R xs ys" "\<And>x y. R x y \<Longrightarrow> P x = Q y"
  shows "list_all2 R (filter P xs) (filter Q ys)"
  using assms(1) by (induction rule: list_all2_induct) (auto simp: assms(2))

lemma list_all2_map_eq:
  assumes "list_all2 R xs ys" "\<And>x y. R x y \<Longrightarrow> f x = g y"
  shows "map f xs = map g ys"
  using assms(1) by (induction rule: list_all2_induct) (auto simp: assms(2))

end
