(* ===== verification/Dom.thy ===== *)
theory Dom
  imports Prelude
begin

text \<open>
  The part of the browser the script talks to: the exceptions a DOM call can throw,
  the outcome of an event listener (a listener that throws keeps the effects it made
  before the throw, the event loop goes on), the observable effects a handler has
  beyond the DOM state (scrolling, focus, console output, default prevention), the
  document's static content (element ids, sections, other selectors), and the two
  lookups \<open>document.querySelector\<close> and \<open>document.getElementById\<close>.
\<close>

section \<open>Errors, outcomes and effects\<close>

text \<open>
  \<open>SyntaxError\<close> and \<open>TypeError\<close> are thrown by the DOM calls of the listeners.
  \<open>NotAllowedError\<close> is the reason a clipboard write is rejected (no permission, no
  focus); it reaches the page as an unhandled promise rejection.
\<close>

datatype dom_error = SyntaxError | TypeError | NotAllowedError

datatype 'a outcome = Done 'a | Thrown dom_error 'a

primrec outcome_val :: "'a outcome \<Rightarrow> 'a" where
  "outcome_val (Done x) = x"
| "outcome_val (Thrown e x) = x"

primrec outcome_err :: "'a outcome \<Rightarrow> dom_error option" where
  "outcome_err (Done x) = None"
| "outcome_err (Thrown e x) = Some e"

primrec outcome_map :: "('a \<Rightarrow> 'b) \<Rightarrow> 'a outcome \<Rightarrow> 'b outcome" where
  "outcome_map f (Done x) = Done (f x)"
| "outcome_map f (Thrown e x) = Thrown e (f x)"

text \<open>The element a lookup found: by its id, or as the first match of another selector.\<close>

datatype elem_ref = ElemId js_string | ElemSel js_string

datatype effect =
    PreventDefault
  | ScrollIntoView elem_ref
  | ConsoleLog js_string
  | Focus js_string

section \<open>The document\<close>

text \<open>
  A \<open><section>\<close> element: its \<open>id\<close> attribute (\<open>getAttribute('id')\<close>, \<open>None\<close>
  for null) and its \<open>offsetTop\<close>.
\<close>

record page_section =
  sec_id :: "js_string option"
  sec_top :: int

text \<open>
  The static document: the id attributes of its elements in document order, its
  sections in document order, and, for every selector that is not a single id selector,
  what \<open>querySelector\<close> does with it (a syntax error, or whether an element matches).
\<close>

record document =
  doc_ids :: "js_string list"
  doc_sections :: "page_section list"
  doc_select :: "js_string \<Rightarrow> dom_error + bool"

section \<open>Selectors\<close>

text \<open>
  CSS Syntax 3: an identifier starts with a name-start code point (letter, \<open>_\<close>,
  non-ASCII), with \<open>-\<close> followed by a name-start or \<open>-\<close>, or with an escape;
  it continues with name code points (name-start, digit, \<open>-\<close>).  An id selector
  is \<open>#\<close> followed by an identifier.
\<close>

definition css_name_start :: "char \<Rightarrow> bool" where
  "css_name_start c =
     (let n = of_char c :: nat in
      (65 \<le> n \<and> n \<le> 90) \<or> (97 \<le> n \<and> n \<le> 122) \<or> n = 95 \<or> 128 \<le> n)"

definition css_name_char :: "char \<Rightarrow> bool" where
  "css_name_char c =
     (css_name_start c \<or> (48 \<le> (of_char c :: nat) \<and> (of_char c :: nat) \<le> 57) \<or> c = CHR ''-'')"

definition css_escape_start :: "char \<Rightarrow> js_string \<Rightarrow> bool" where
  "css_escape_start c r = (c = CHR 0x5C \<and> r \<noteq> [] \<and> hd r \<noteq> CHR 0x0A)"

fun css_ident_start :: "js_string \<Rightarrow> bool" where
  "css_ident_start [] = False"
| "css_ident_start (c # r) =
     (if c = CHR ''-'' then
        (case r of [] \<Rightarrow> False | d # r' \<Rightarrow> css_name_start d \<or> d = CHR ''-'' \<or> css_escape_start d r')
      else css_name_start c \<or> css_escape_start c r)"

definition css_ident :: "js_string \<Rightarrow> bool" where
  "css_ident s = (css_ident_start s \<and> list_all css_name_char s)"

datatype selector = SelId js_string | SelOther js_string | SelInvalid

fun parse_selector :: "js_string \<Rightarrow> selector" where
  "parse_selector [] = SelInvalid"
| "parse_selector (c # r) =
     (if c = CHR ''#'' then
        (if css_ident r then SelId r
         else if css_ident_start r then SelOther (c # r)
         else SelInvalid)
      else SelOther (c # r))"

definition query_selector :: "document \<Rightarrow> js_string \<Rightarrow> dom_error + elem_ref option" where
  "query_selector d s =
     (case parse_selector s of
        SelInvalid \<Rightarrow> Inl SyntaxError
      | SelId i \<Rightarrow> Inr (if i \<in> set (doc_ids d) then Some (ElemId i) else None)
      | SelOther t \<Rightarrow>
          (case doc_select d t of
             Inl e \<Rightarrow> Inl e
           | Inr b \<Rightarrow> Inr (if b then Some (ElemSel t) else None)))"

definition get_element_by_id :: "document \<Rightarrow> js_string \<Rightarrow> elem_ref option" where
  "get_element_by_id d i = (if i \<in> set (doc_ids d) then Some (ElemId i) else None)"

section \<open>Lemmas\<close>

lemma css_ident_start_hash [simp]: "\<not> css_ident_start (CHR ''#'' # r)"
  by (simp add: css_name_start_def css_escape_start_def)

lemma css_ident_start_digit:
  "48 \<le> (of_char c :: nat) \<Longrightarrow> (of_char c :: nat) \<le> 57 \<Longrightarrow> \<not> css_ident_start (c # r)"
  by (auto simp: css_name_start_def css_escape_start_def Let_def)

lemma query_selector_id:
  "css_ident i \<Longrightarrow>
   query_selector d (CHR ''#'' # i) = Inr (get_element_by_id d i)"
  by (simp add: query_selector_def get_element_by_id_def)

lemma query_selector_hash_only [simp]: "query_selector d ''#'' = Inl SyntaxError"
  by (simp add: query_selector_def css_ident_def)

lemma query_selector_empty [simp]: "query_selector d [] = Inl SyntaxError"
  by (simp add: query_selector_def)

lemmas selector_simps [js_simps] =
  css_name_start_def css_name_char_def css_escape_start_def css_ident_def
  query_selector_def get_element_by_id_def

end
