(* ===== verification/Navigation.thy ===== *)
theory Navigation
  imports Dom
begin

text \<open>
  The navigation highlighter of \<open>initializeNavigation\<close> (src/script.js, lines 12-53):
  the links \<open>document.querySelectorAll('nav a')\<close> captured once at start-up, each
  with its \<open>href\<close> attribute and whether it carries the class \<open>active\<close>; the click
  listener of every link; the window's scroll listener.  The click listener calls
  \<open>querySelector\<close> on the raw \<open>href\<close>, which throws a \<open>SyntaxError\<close> for an
  href that is not a selector (\<open>"#"\<close>, \<open>""\<close>, \<open>"#1"\<close>); the throw happens before
  any class is touched.
\<close>

record nav_link =
  href :: "js_string option"
  active :: bool

section \<open>Click\<close>

text \<open>Lines 22-25: remove \<open>active\<close> from every link, add it to the clicked one.\<close>

definition nav_activate :: "nat \<Rightarrow> nav_link list \<Rightarrow> nav_link list" where
  "nav_activate i ls =
     (let cleared = map (\<lambda>l. l\<lparr>active := False\<rparr>) ls
      in cleared[i := (cleared ! i)\<lparr>active := True\<rparr>])"

definition nav_click ::
  "document \<Rightarrow> nav_link list \<Rightarrow> nat \<Rightarrow> (nav_link list \<times> effect list) outcome" where
  "nav_click d ls i =
     (let target_id = href (ls ! i) in
      case query_selector d (js_str_opt target_id) of
        Inl e \<Rightarrow> Thrown e (ls, [PreventDefault])
      | Inr target \<Rightarrow>
          Done (nav_activate i ls,
                PreventDefault # (case target of None \<Rightarrow> [] | Some r \<Rightarrow> [ScrollIntoView r])))"

section \<open>Scroll\<close>

text \<open>
  The forward scan of lines 36-44: \<open>current\<close> starts as \<open>''\<close> and every section
  whose \<open>offsetTop - 200\<close> is at most \<open>scrollY\<close> overwrites it with its id
  attribute (null when the section has none).  \<open>scrollY\<close> is a double and
  \<open>offsetTop\<close> an integer, so the comparison is that of \<open>\<lfloor>scrollY\<rfloor>\<close>: the model
  takes the integer part.
\<close>

definition scroll_step :: "int \<Rightarrow> page_section \<Rightarrow> js_string option \<Rightarrow> js_string option" where
  "scroll_step y s cur = (if y \<ge> sec_top s - 200 then sec_id s else cur)"

definition scroll_current :: "int \<Rightarrow> page_section list \<Rightarrow> js_string option" where
  "scroll_current y secs = fold (scroll_step y) secs (Some '''')"

text \<open>Lines 46-51: remove \<open>active\<close>, then add it back if \<open>href === '#' + current\<close>.\<close>

definition nav_mark :: "js_string option \<Rightarrow> nav_link \<Rightarrow> nav_link" where
  "nav_mark cur l =
     (let l' = l\<lparr>active := False\<rparr> in
      if href l = Some (CHR ''#'' # js_str_opt cur) then l'\<lparr>active := True\<rparr> else l')"

definition nav_scroll :: "int \<Rightarrow> page_section list \<Rightarrow> nav_link list \<Rightarrow> nav_link list" where
  "nav_scroll y secs ls = map (nav_mark (scroll_current y secs)) ls"

section \<open>Which links are active\<close>

definition active_links :: "nav_link list \<Rightarrow> nat set" where
  "active_links ls = {j. j < length ls \<and> active (ls ! j)}"

definition hrefs_distinct :: "nav_link list \<Rightarrow> bool" where
  "hrefs_distinct ls = distinct (map href ls)"

section \<open>Lemmas\<close>

named_theorems nav_simps "characteristic equations of the navigation handlers"

lemma length_nav_scroll [simp, nav_simps]: "length (nav_scroll y secs ls) = length ls"
  by (simp add: nav_scroll_def)

lemma href_nav_mark [simp, nav_simps]: "href (nav_mark cur l) = href l"
  by (simp add: nav_mark_def Let_def)

lemma active_nav_mark [simp, nav_simps]:
  "active (nav_mark cur l) = (href l = Some (CHR ''#'' # js_str_opt cur))"
  by (simp add: nav_mark_def Let_def)

lemma map_href_nav_scroll [simp, nav_simps]: "map href (nav_scroll y secs ls) = map href ls"
  by (simp add: nav_scroll_def comp_def nav_mark_def Let_def)

lemma nav_scroll_nth [nav_simps]:
  "j < length ls \<Longrightarrow> nav_scroll y secs ls ! j = nav_mark (scroll_current y secs) (ls ! j)"
  by (simp add: nav_scroll_def)

lemma nav_mark_href_only:
  "href l = href l' \<Longrightarrow> nav_mark cur l = nav_mark cur l'"
  unfolding nav_mark_def Let_def by (cases l; cases l') simp

lemma nav_scroll_ignores_active:
  assumes h: "map href ls = map href ls'"
  shows "nav_scroll y secs ls = nav_scroll y secs ls'"
proof (rule nth_equalityI)
  from h have len: "length ls = length ls'" by (rule map_eq_imp_length_eq)
  then show "length (nav_scroll y secs ls) = length (nav_scroll y secs ls')"
    by (simp add: nav_scroll_def)
  fix j assume "j < length (nav_scroll y secs ls)"
  then have j: "j < length ls" by (simp add: nav_scroll_def)
  from h have "map href ls ! j = map href ls' ! j" by (rule arg_cong)
  with j len have "href (ls ! j) = href (ls' ! j)" by simp
  then have "nav_mark (scroll_current y secs) (ls ! j) = nav_mark (scroll_current y secs) (ls' ! j)"
    by (rule nav_mark_href_only)
  with j len show "nav_scroll y secs ls ! j = nav_scroll y secs ls' ! j"
    by (simp add: nav_scroll_def)
qed

lemma fold_scroll_step_last:
  "fold (scroll_step y) secs cur =
     (case filter (\<lambda>s. y \<ge> sec_top s - 200) secs of
        [] \<Rightarrow> cur
      | ss \<Rightarrow> sec_id (last ss))"
proof (induction secs arbitrary: cur)
  case Nil
  then show ?case by simp
next
  case (Cons s secs)
  show ?case
  proof (cases "y \<ge> sec_top s - 200")
    case True
    then show ?thesis using Cons.IH[of "sec_id s"]
      by (simp add: scroll_step_def split: list.split)
  next
    case False
    then show ?thesis using Cons.IH[of cur] by (simp add: scroll_step_def)
  qed
qed

lemma finite_active_links [simp]: "finite (active_links ls)"
  by (simp add: active_links_def)

lemma active_links_le_1:
  "(\<And>j k. j \<in> active_links ls \<Longrightarrow> k \<in> active_links ls \<Longrightarrow> j = k) \<Longrightarrow>
   card (active_links ls) \<le> 1"
  using card_le_Suc0_iff_eq[OF finite_active_links] by auto

lemma active_links_eq:
  "active_links ls = set (filter (\<lambda>j. active (ls ! j)) [0..<length ls])"
  by (auto simp: active_links_def)

lemma active_nav_activate [nav_simps]:
  "j < length ls \<Longrightarrow> active (nav_activate i ls ! j) = (j = i)"
  by (cases "j = i") (simp_all add: nav_activate_def Let_def)

lemma map_href_nav_activate [simp, nav_simps]:
  "map href (nav_activate i ls) = map href ls"
proof (rule nth_equalityI)
  fix j assume "j < length (map href (nav_activate i ls))"
  then show "map href (nav_activate i ls) ! j = map href ls ! j"
    by (cases "j = i") (simp_all add: nav_activate_def Let_def)
qed (simp add: nav_activate_def Let_def)

lemma length_nav_activate [simp, nav_simps]: "length (nav_activate i ls) = length ls"
  by (simp add: nav_activate_def Let_def)

lemma active_links_nav_activate:
  "i < length ls \<Longrightarrow> active_links (nav_activate i ls) = {i}"
  by (auto simp: active_links_def active_nav_activate)

lemma nav_click_links_cases:
  "fst (outcome_val (nav_click d ls i)) = ls \<or> fst (outcome_val (nav_click d ls i)) = nav_activate i ls"
  by (auto simp: nav_click_def split: sum.split)

lemma nav_scroll_unique_active:
  assumes "hrefs_distinct ls"
    and "j \<in> active_links (nav_scroll y secs ls)" and "k \<in> active_links (nav_scroll y secs ls)"
  shows "j = k"
proof -
  let ?h = "Some (CHR ''#'' # js_str_opt (scroll_current y secs))"
  from assms(2,3) have "j < length ls" "k < length ls" "href (ls ! j) = ?h" "href (ls ! k) = ?h"
    by (auto simp: active_links_def nav_scroll_nth)
  with assms(1) show "j = k" by (simp add: hrefs_distinct_def nth_eq_iff_index_eq[symmetric])
qed

section \<open>Properties\<close>

text \<open>
  C3: after a scroll event the active links are exactly those whose \<open>href\<close> is
  \<open>'#'\<close> followed by the current section's id (the string \<open>null\<close> when that
  section has no id).
\<close>

theorem nav_scroll_active:
  "active_links (nav_scroll y secs ls) =
     {j. j < length ls \<and> href (ls ! j) = Some (CHR ''#'' # js_str_opt (scroll_current y secs))}"
  by (auto simp: active_links_def nav_scroll_nth)

text \<open>
  C4: the scan picks the last section in document order whose top is at most
  \<open>scrollY + 200\<close>; when there is none, \<open>current\<close> stays the empty string.
\<close>

theorem scroll_current_last:
  "scroll_current y secs =
     (case filter (\<lambda>s. sec_top s \<le> y + 200) secs of [] \<Rightarrow> Some '''' | ss \<Rightarrow> sec_id (last ss))"
proof -
  have "filter (\<lambda>s. y \<ge> sec_top s - 200) secs = filter (\<lambda>s. sec_top s \<le> y + 200) secs"
    by (rule filter_cong) auto
  then show ?thesis by (simp add: scroll_current_def fold_scroll_step_last)
qed

text \<open>
  C5: when no two navigation links share an \<open>href\<close>, at most one link is active
  after a scroll event.
\<close>

theorem nav_scroll_at_most_one:
  assumes "hrefs_distinct ls"
  shows "card (active_links (nav_scroll y secs ls)) \<le> 1"
  using nav_scroll_unique_active [OF assms] by (rule active_links_le_1)

theorem nav_scroll_at_most_one_witness:
  "hrefs_distinct [\<lparr>href = Some ''#about'', active = True\<rparr>, \<lparr>href = Some ''#skills'', active = False\<rparr>]
   \<and> card (active_links (nav_scroll 700 [\<lparr>sec_id = Some ''about'', sec_top = 0\<rparr>,
                                          \<lparr>sec_id = Some ''skills'', sec_top = 800\<rparr>]
        [\<lparr>href = Some ''#about'', active = True\<rparr>, \<lparr>href = Some ''#skills'', active = False\<rparr>])) \<le> 1"
proof -
  have h: "hrefs_distinct [\<lparr>href = Some ''#about'', active = True\<rparr>, \<lparr>href = Some ''#skills'', active = False\<rparr>]"
    by (simp add: hrefs_distinct_def)
  show ?thesis using h nav_scroll_at_most_one [OF h] by blast
qed

text \<open>
  C6: a click on link \<open>i\<close> either succeeds, leaving exactly link \<open>i\<close> active and
  every \<open>href\<close> unchanged, or throws, leaving every link as it was with only the
  default action prevented.
\<close>

theorem nav_click_outcome:
  assumes "i < length ls"
  shows "case nav_click d ls i of
           Done (ls', eff) \<Rightarrow> active_links ls' = {i} \<and> map href ls' = map href ls
         | Thrown e (ls', eff) \<Rightarrow> ls' = ls \<and> eff = [PreventDefault]"
proof (cases "query_selector d (js_str_opt (href (ls ! i)))")
  case (Inl e)
  then show ?thesis by (simp add: nav_click_def)
next
  case (Inr t)
  have "active_links (nav_activate i ls) = {i}"
    using assms by (auto simp: active_links_def active_nav_activate)
  then show ?thesis using Inr by (simp add: nav_click_def)
qed

theorem nav_click_outcome_witness:
  "0 < length [\<lparr>href = Some ''#about'', active = False\<rparr>, \<lparr>href = Some ''#skills'', active = True\<rparr>]
   \<and> (case nav_click \<lparr>doc_ids = [''about''], doc_sections = [], doc_select = \<lambda>_. Inr False\<rparr>
           [\<lparr>href = Some ''#about'', active = False\<rparr>, \<lparr>href = Some ''#skills'', active = True\<rparr>] 0 of
        Done (ls', eff) \<Rightarrow> active_links ls' = {0}
           \<and> map href ls' = map href [\<lparr>href = Some ''#about'', active = False\<rparr>, \<lparr>href = Some ''#skills'', active = True\<rparr>]
      | Thrown e (ls', eff) \<Rightarrow>
           ls' = [\<lparr>href = Some ''#about'', active = False\<rparr>, \<lparr>href = Some ''#skills'', active = True\<rparr>]
           \<and> eff = [PreventDefault])"
  using nav_click_outcome [of 0 "[\<lparr>href = Some ''#about'', active = False\<rparr>, \<lparr>href = Some ''#skills'', active = True\<rparr>]"
      "\<lparr>doc_ids = [''about''], doc_sections = [], doc_select = \<lambda>_. Inr False\<rparr>"]
  by simp

text \<open>
  C11: a link whose href is \<open>"#"\<close> (a common placeholder) makes the click listener
  throw a \<open>SyntaxError\<close> from \<open>querySelector\<close>; no link changes its class, although
  the specification says the highlight updates whenever the target does not exist.
\<close>

theorem nav_click_hash_throws:
  assumes "href (ls ! i) = Some ''#''"
  shows "nav_click d ls i = Thrown SyntaxError (ls, [PreventDefault])"
  using assms by (simp add: nav_click_def)

theorem nav_click_hash_throws_witness:
  "href ([\<lparr>href = Some ''#'', active = False\<rparr>] ! 0) = Some ''#''
   \<and> nav_click \<lparr>doc_ids = [], doc_sections = [], doc_select = \<lambda>_. Inr False\<rparr>
       [\<lparr>href = Some ''#'', active = False\<rparr>] 0
     = Thrown SyntaxError ([\<lparr>href = Some ''#'', active = False\<rparr>], [PreventDefault])"
  using nav_click_hash_throws [of "[\<lparr>href = Some ''#'', active = False\<rparr>]" 0
      "\<lparr>doc_ids = [], doc_sections = [], doc_select = \<lambda>_. Inr False\<rparr>"]
  by simp

text \<open>
  A click on a link whose href is a valid id selector naming no element still
  moves the highlight to the clicked link and scrolls nowhere.
\<close>

theorem nav_click_missing_target:
  assumes "href (ls ! i) = Some (CHR ''#'' # s)" and "css_ident s" and "s \<notin> set (doc_ids d)"
  shows "nav_click d ls i = Done (nav_activate i ls, [PreventDefault])"
  using assms by (simp add: nav_click_def query_selector_id get_element_by_id_def)

theorem nav_click_missing_target_witness:
  "href ([\<lparr>href = Some ''#blog'', active = False\<rparr>] ! 0) = Some (CHR ''#'' # ''blog'')
   \<and> css_ident ''blog'' \<and> ''blog'' \<notin> set (doc_ids \<lparr>doc_ids = [''about''], doc_sections = [], doc_select = \<lambda>_. Inr False\<rparr>)
   \<and> nav_click \<lparr>doc_ids = [''about''], doc_sections = [], doc_select = \<lambda>_. Inr False\<rparr>
       [\<lparr>href = Some ''#blog'', active = False\<rparr>] 0
     = Done (nav_activate 0 [\<lparr>href = Some ''#blog'', active = False\<rparr>], [PreventDefault])"
proof -
  have i: "css_ident ''blog''" by (simp add: css_ident_def css_name_start_def css_name_char_def)
  show ?thesis
    using i nav_click_missing_target [of "[\<lparr>href = Some ''#blog'', active = False\<rparr>]" 0 "''blog''"
        "\<lparr>doc_ids = [''about''], doc_sections = [], doc_select = \<lambda>_. Inr False\<rparr>"]
    by simp
qed

text \<open>
  C13: when no section is within 200 units of the scroll position, the scan leaves
  \<open>current\<close> empty and exactly the links with href \<open>"#"\<close> become active; the
  specification says no link is active then.
\<close>

theorem nav_scroll_no_section_hash:
  assumes "\<forall>s \<in> set secs. y + 200 < sec_top s"
  shows "active_links (nav_scroll y secs ls) = {j. j < length ls \<and> href (ls ! j) = Some ''#''}"
proof -
  from assms have "filter (\<lambda>s. y \<ge> sec_top s - 200) secs = []"
    by (auto simp: filter_empty_conv)
  then have "scroll_current y secs = Some ''''"
    by (simp add: scroll_current_def fold_scroll_step_last)
  then show ?thesis by (auto simp: active_links_def nav_scroll_nth)
qed

theorem nav_scroll_no_section_hash_witness:
  "active_links (nav_scroll 0 [\<lparr>sec_id = Some ''about'', sec_top = 400\<rparr>]
      [\<lparr>href = Some ''#'', active = False\<rparr>, \<lparr>href = Some ''#about'', active = False\<rparr>]) = {0}"
proof -
  have h: "\<forall>s \<in> set [\<lparr>sec_id = Some ''about'', sec_top = 400\<rparr>]. (0::int) + 200 < sec_top s" by simp
  have "{j. j < length [\<lparr>href = Some ''#'', active = False\<rparr>, \<lparr>href = Some ''#about'', active = False\<rparr>]
           \<and> href ([\<lparr>href = Some ''#'', active = False\<rparr>, \<lparr>href = Some ''#about'', active = False\<rparr>] ! j)
             = Some ''#''} = {0::nat}"
    by (auto simp: less_Suc_eq)
  with nav_scroll_no_section_hash [OF h] show ?thesis by simp
qed


text \<open>
  The example of the specification: with sections about, skills, projects and
  contact at tops 0, 600, 1200, 1800 and the page scrolled to 1000, \<open>projects\<close> is
  current and only the link \<open>#projects\<close> is active.
\<close>

theorem nav_scroll_example_projects:
  "active_links (nav_scroll 1000
      [\<lparr>sec_id = Some ''about'', sec_top = 0\<rparr>, \<lparr>sec_id = Some ''skills'', sec_top = 600\<rparr>,
       \<lparr>sec_id = Some ''projects'', sec_top = 1200\<rparr>, \<lparr>sec_id = Some ''contact'', sec_top = 1800\<rparr>]
      [\<lparr>href = Some ''#about'', active = True\<rparr>, \<lparr>href = Some ''#skills'', active = False\<rparr>,
       \<lparr>href = Some ''#projects'', active = False\<rparr>, \<lparr>href = Some ''#contact'', active = False\<rparr>])
   = {2}"
  by (simp add: active_links_eq nav_scroll_def scroll_current_def scroll_step_def upt_rec)

text \<open>
  The scroll handler is idempotent: running it twice at the same position gives
  the same links as running it once.
\<close>

theorem nav_scroll_idem: "nav_scroll y secs (nav_scroll y secs ls) = nav_scroll y secs ls"
  by (rule nav_scroll_ignores_active) simp

end
