(* ===== verification/Skills.thy ===== *)
theory Skills
  imports Dom
begin

text \<open>
  Skill selection of \<open>initializeSkills\<close> and \<open>updateSkillMetrics\<close>
  (src/script.js, lines 56-80) and the two exported operations built on them,
  \<open>window.getSelectedSkills\<close> and \<open>window.clearSelectedSkills\<close> (lines 221-230).
  A badge is an element of class \<open>skill-badge\<close>: its \<open>textContent\<close> and whether it
  carries the class \<open>selected\<close>.  The metrics are computed from the badges at call
  time; the percentage is \<open>Math.round((selected / total) * 100)\<close>, which is \<open>NaN\<close>
  for \<open>0 / 0\<close>.
\<close>

record badge =
  badge_text :: js_string
  selected :: bool

record metrics =
  m_selected :: nat
  m_total :: nat
  m_percentage :: js_num

section \<open>Metrics\<close>

text \<open>
  \<open>Math.round((s / t) * 100)\<close>: for \<open>t = 0\<close> the quotient is \<open>NaN\<close> (\<open>s = 0\<close>) or
  \<open>Infinity\<close>, and both survive \<open>* 100\<close> and \<open>Math.round\<close>.
\<close>

definition skill_percentage :: "nat \<Rightarrow> nat \<Rightarrow> js_num" where
  "skill_percentage s t =
     (if t = 0 then (if s = 0 then JNaN else JInf)
      else JInt (js_round (of_nat s / of_nat t * 100)))"

definition skill_metrics :: "badge list \<Rightarrow> metrics" where
  "skill_metrics bs =
     (let sel = length (filter selected bs); tot = length bs
      in \<lparr>m_selected = sel, m_total = tot, m_percentage = skill_percentage sel tot\<rparr>)"

text \<open>The template literal of line 77.\<close>

definition metrics_log :: "metrics \<Rightarrow> js_string" where
  "metrics_log m =
     ''Skills Analyzed: '' @ js_int_str (int (m_selected m)) @ ''/'' @ js_int_str (int (m_total m))
     @ '' ('' @ js_num_str (m_percentage m) @ ''%)''"

definition update_skill_metrics :: "badge list \<Rightarrow> metrics \<times> effect list" where
  "update_skill_metrics bs = (let m = skill_metrics bs in (m, [ConsoleLog (metrics_log m)]))"

section \<open>Operations\<close>

definition toggle_selected :: "badge \<Rightarrow> badge" where
  "toggle_selected b = b\<lparr>selected := \<not> selected b\<rparr>"

text \<open>The click listener of lines 60-63: toggle, then recompute (the result is dropped).\<close>

definition badge_click :: "nat \<Rightarrow> badge list \<Rightarrow> badge list \<times> effect list" where
  "badge_click i bs =
     (let bs' = bs[i := toggle_selected (bs ! i)] in (bs', snd (update_skill_metrics bs')))"

definition get_selected_skills :: "badge list \<Rightarrow> metrics \<times> effect list" where
  "get_selected_skills bs = update_skill_metrics bs"

text \<open>Lines 225-230: every badge matching \<open>.skill-badge.selected\<close> loses the class.\<close>

definition clear_selected_skills :: "badge list \<Rightarrow> badge list \<times> effect list" where
  "clear_selected_skills bs =
     (let bs' = map (\<lambda>b. if selected b then b\<lparr>selected := False\<rparr> else b) bs
      in (bs', snd (update_skill_metrics bs')))"

section \<open>Lemmas\<close>

named_theorems skills_simps "characteristic equations of the skill operations"

lemma skill_metrics_fields [simp, skills_simps]:
  "m_selected (skill_metrics bs) = length (filter selected bs)"
  "m_total (skill_metrics bs) = length bs"
  "m_percentage (skill_metrics bs) = skill_percentage (length (filter selected bs)) (length bs)"
  by (simp_all add: skill_metrics_def Let_def)

lemma fst_update_skill_metrics [simp, skills_simps]:
  "fst (update_skill_metrics bs) = skill_metrics bs"
  by (simp add: update_skill_metrics_def Let_def)

lemma snd_update_skill_metrics [simp, skills_simps]:
  "snd (update_skill_metrics bs) = [ConsoleLog (metrics_log (skill_metrics bs))]"
  by (simp add: update_skill_metrics_def Let_def)

lemma length_badge_click [simp]: "length (fst (badge_click i bs)) = length bs"
  by (simp add: badge_click_def Let_def)

lemma length_clear_selected [simp]: "length (fst (clear_selected_skills bs)) = length bs"
  by (simp add: clear_selected_skills_def Let_def)

lemma skill_percentage_pos:
  "0 < t \<Longrightarrow> skill_percentage s t = JInt (int ((200 * s + t) div (2 * t)))"
proof -
  assume t: "0 < t"
  have "js_round (of_nat s / of_nat t * 100) = js_round (of_int (int s) / of_int (int t) * 100)"
    by (simp only: of_int_of_nat_eq)
  also have "\<dots> = (200 * int s + int t) div (2 * int t)"
    by (rule js_round_ratio) (use t in simp)
  also have "\<dots> = int ((200 * s + t) div (2 * t))"
    by (simp add: zdiv_int)
  finally show ?thesis using t unfolding skill_percentage_def by simp
qed

lemma ratio_percent_le_100:
  assumes "s \<le> t" "0 < t"
  shows "(200 * s + t) div (2 * t) \<le> (100::nat)"
proof -
  have q: "0 < 2 * t" using assms by simp
  have "200 * s + t < 101 * (2 * t)" using assms by linarith
  with div_less_iff_less_mult[OF q] have "(200 * s + t) div (2 * t) < 101" by simp
  then show ?thesis by simp
qed

lemma selected_toggle_nth:
  "i < length bs \<Longrightarrow>
   length (filter selected (bs[i := toggle_selected (bs ! i)])) =
     (if selected (bs ! i) then length (filter selected bs) - 1 else Suc (length (filter selected bs)))"
proof (induction bs arbitrary: i)
  case Nil
  then show ?case by simp
next
  case (Cons b bs)
  show ?case
  proof (cases i)
    case 0
    then show ?thesis by (simp add: toggle_selected_def)
  next
    case (Suc k)
    with Cons.prems have k: "k < length bs" by simp
    have "selected (bs ! k) \<Longrightarrow> filter selected bs \<noteq> []"
      using k by (auto simp: filter_empty_conv dest: nth_mem)
    with Cons.IH[OF k] Suc show ?thesis
      by (cases "selected b") (simp_all add: toggle_selected_def)
  qed
qed

lemma badge_text_badge_click [simp]:
  "map badge_text (fst (badge_click i bs)) = map badge_text bs"
proof (rule nth_equalityI)
  fix j assume "j < length (map badge_text (fst (badge_click i bs)))"
  then show "map badge_text (fst (badge_click i bs)) ! j = map badge_text bs ! j"
    by (cases "j = i") (simp_all add: badge_click_def Let_def toggle_selected_def)
qed simp

lemma badge_text_clear_selected [simp]:
  "map badge_text (fst (clear_selected_skills bs)) = map badge_text bs"
  by (simp add: clear_selected_skills_def Let_def comp_def)

section \<open>Properties\<close>



text \<open>
  C18: the metrics are well-formed: \<open>selected\<close> never exceeds \<open>total\<close>, a number
  percentage lies in 0..100, \<open>NaN\<close> occurs exactly for an empty badge list and
  \<open>Infinity\<close> never.
\<close>

theorem skill_metrics_bounds:
  "m_selected (skill_metrics bs) \<le> m_total (skill_metrics bs)
   \<and> (case m_percentage (skill_metrics bs) of
        JInt p \<Rightarrow> 0 \<le> p \<and> p \<le> 100
      | JNaN \<Rightarrow> bs = []
      | JInf \<Rightarrow> False)"
proof (cases "bs = []")
  case True
  then show ?thesis by (simp add: skill_percentage_def)
next
  case False
  then have t: "0 < length bs" by simp
  have le: "length (filter selected bs) \<le> length bs" by (rule length_filter_le)
  from ratio_percent_le_100 [OF le t] t le show ?thesis
    by (simp add: skill_percentage_pos)
qed

text \<open>
  \<open>clearSelectedSkills()\<close> followed by \<open>getSelectedSkills()\<close> reports zero
  selected skills out of an unchanged total.
\<close>

theorem clear_then_get_zero:
  "m_selected (fst (get_selected_skills (fst (clear_selected_skills bs)))) = 0
   \<and> m_total (fst (get_selected_skills (fst (clear_selected_skills bs)))) = length bs"
  by (simp add: get_selected_skills_def clear_selected_skills_def Let_def filter_empty_conv)

text \<open>
  C20: with no badges the percentage is \<open>NaN\<close> and the console shows
  \<open>Skills Analyzed: 0/0 (NaN%)\<close>; the specification requires 0 for an empty list.
\<close>

theorem empty_badges_nan:
  "get_selected_skills [] =
     (\<lparr>m_selected = 0, m_total = 0, m_percentage = JNaN\<rparr>,
      [ConsoleLog ''Skills Analyzed: 0/0 (NaN%)''])"
  by code_simp

text \<open>
  C21: a click on badge \<open>i\<close> toggles it, so the selected count goes down by one if it
  was selected and up by one otherwise, and the console reports the new metrics.
\<close>

theorem badge_click_count:
  assumes "i < length bs"
  shows "m_selected (skill_metrics (fst (badge_click i bs))) =
           (if selected (bs ! i) then m_selected (skill_metrics bs) - 1
            else m_selected (skill_metrics bs) + 1)
         \<and> snd (badge_click i bs) = [ConsoleLog (metrics_log (skill_metrics (fst (badge_click i bs))))]"
  using selected_toggle_nth [OF assms] by (simp add: badge_click_def Let_def)

theorem badge_click_count_witness:
  "0 < length [\<lparr>badge_text = ''Go'', selected = False\<rparr>]
   \<and> m_selected (skill_metrics (fst (badge_click 0 [\<lparr>badge_text = ''Go'', selected = False\<rparr>]))) = 1"
  using badge_click_count [of 0 "[\<lparr>badge_text = ''Go'', selected = False\<rparr>]"] by simp

text \<open>
  Clicking the same badge twice restores the badge list.
\<close>

theorem badge_click_twice:
  "fst (badge_click i (fst (badge_click i bs))) = bs"
  by (cases "i < length bs") (simp_all add: badge_click_def Let_def toggle_selected_def list_update_beyond)

end
