(* ===== verification/Search.thy ===== *)
theory Search
  imports Skills
begin

text \<open>
  The skill search of \<open>initializeSearch\<close> (src/script.js, lines 83-132).  When the
  document has an element with id \<open>skills\<close>, the function inserts an input
  \<open>#skillSearch\<close> and a result container \<open>#searchResults\<close>; otherwise it returns
  and there is no search.  The widget's state is the input's value and the labels of
  the rendered result rows, in order.  On every \<open>input\<close> event the handler lower-cases
  the value; an empty query clears the rows, any other query re-reads the badges
  (\<open>document.querySelectorAll('.skill-badge')\<close> at event time), trims their text and
  renders one row per label whose lower-cased form contains the query.  A click on a
  row writes its label into the input and clears the rows, without an input event.
\<close>

record search_ui =
  search_value :: js_string
  search_results :: "js_string list"

section \<open>Set-up\<close>

definition search_widget_ids :: "js_string list" where
  "search_widget_ids = [''skillSearch'', ''searchResults'']"

text \<open>
  Lines 84-103: the container is looked up with \<open>querySelector('#skills')\<close>, which
  cannot throw; the widget's ids join the document (inside the container, after its
  content: the model appends them, which differs only for an id the page already uses).
\<close>

definition init_search :: "document \<Rightarrow> document \<times> search_ui option" where
  "init_search d =
     (case query_selector d ''#skills'' of
        Inr (Some c) \<Rightarrow>
          (d\<lparr>doc_ids := doc_ids d @ search_widget_ids\<rparr>,
           Some \<lparr>search_value = [], search_results = []\<rparr>)
      | _ \<Rightarrow> (d, None))"

section \<open>The input handler\<close>

definition skill_labels :: "badge list \<Rightarrow> js_string list" where
  "skill_labels bs = map (\<lambda>b. js_trim (badge_text b)) bs"

definition search_filter :: "js_string \<Rightarrow> js_string list \<Rightarrow> js_string list" where
  "search_filter query all_skills = filter (\<lambda>skill. js_includes query (js_lower skill)) all_skills"

text \<open>
  The \<open>input\<close> event: the user's edit has set the value to \<open>v\<close>, then lines
  106-130 run.
\<close>

definition search_input :: "badge list \<Rightarrow> js_string \<Rightarrow> search_ui \<Rightarrow> search_ui" where
  "search_input bs v ui =
     (let ui' = ui\<lparr>search_value := v\<rparr>; query = js_lower v in
      if length query = 0 then ui'\<lparr>search_results := []\<rparr>
      else ui'\<lparr>search_results := search_filter query (skill_labels bs)\<rparr>)"

text \<open>Lines 125-128: the listener of a row captures the row's label.\<close>

definition result_click :: "nat \<Rightarrow> search_ui \<Rightarrow> search_ui" where
  "result_click i ui = ui\<lparr>search_value := search_results ui ! i, search_results := []\<rparr>"

text \<open>Line 124: the markup of a row, the label interpolated into \<open>innerHTML\<close> as it is.\<close>

definition result_row_html :: "js_string \<Rightarrow> js_string" where
  "result_row_html skill = ''>> Found: <strong>'' @ skill @ ''</strong>''"

section \<open>Lemmas\<close>

named_theorems search_simps "characteristic equations of the search handlers"

lemma search_value_input [simp, search_simps]: "search_value (search_input bs v ui) = v"
  by (simp add: search_input_def Let_def)

lemma search_results_input [search_simps]:
  "search_results (search_input bs v ui) =
     (if v = [] then [] else search_filter (js_lower v) (skill_labels bs))"
  by (simp add: search_input_def Let_def)

lemma skill_labels_texts:
  "map badge_text bs = map badge_text bs' \<Longrightarrow> skill_labels bs = skill_labels bs'"
proof -
  assume h: "map badge_text bs = map badge_text bs'"
  have "skill_labels bs = map js_trim (map badge_text bs)" by (simp add: skill_labels_def)
  also have "\<dots> = map js_trim (map badge_text bs')" using h by simp
  also have "\<dots> = skill_labels bs'" by (simp add: skill_labels_def)
  finally show ?thesis .
qed

lemma search_input_labels:
  "skill_labels bs = skill_labels bs' \<Longrightarrow> search_input bs v ui = search_input bs' v ui"
  unfolding search_input_def by (simp only:)

lemma search_filter_sublist:
  "search_filter q xs = filter (\<lambda>s. sublist q (js_lower s)) xs"
  by (simp add: search_filter_def)

lemma search_input_input [simp]:
  "search_input bs v (search_input bs' v' ui) = search_input bs v ui"
  by (simp add: search_input_def Let_def)

lemma result_click_fields [simp, search_simps]:
  "search_value (result_click i ui) = search_results ui ! i"
  "search_results (result_click i ui) = []"
  by (simp_all add: result_click_def)

section \<open>Properties\<close>

text \<open>
  C1: after an input event with value \<open>v\<close>, the rendered rows are exactly the trimmed
  badge labels whose lower-cased form contains the lower-cased \<open>v\<close>, in badge order,
  and none when \<open>v\<close> is empty; the input keeps \<open>v\<close>.
\<close>

theorem search_input_spec:
  "search_results (search_input bs v ui) =
     filter (\<lambda>s. v \<noteq> [] \<and> sublist (js_lower v) (js_lower s)) (skill_labels bs)
   \<and> search_value (search_input bs v ui) = v"
  by (simp add: search_results_input search_filter_sublist)

text \<open>
  C2: clicking the \<open>i\<close>-th rendered row writes exactly that row's label into the input
  and empties the result list.
\<close>

theorem result_click_selects:
  assumes "i < length (search_results ui)"
  shows "search_value (result_click i ui) = search_results ui ! i
         \<and> search_results (result_click i ui) = []"
  by simp

theorem result_click_selects_witness:
  "search_value (result_click 1 \<lparr>search_value = ''o'', search_results = [''Go'', ''Python'']\<rparr>) = ''Python''
   \<and> search_results (result_click 1 \<lparr>search_value = ''o'', search_results = [''Go'', ''Python'']\<rparr>) = []"
  using result_click_selects [of 1 "\<lparr>search_value = ''o'', search_results = [''Go'', ''Python'']\<rparr>"]
  by simp

text \<open>
  The example of the specification: skills Rust, Go, Python and query \<open>o\<close> render
  Go and Python, in that order.
\<close>

theorem search_example_rust_go_python:
  "search_results
     (search_input [\<lparr>badge_text = ''Rust'', selected = False\<rparr>,
                    \<lparr>badge_text = ''Go'', selected = False\<rparr>,
                    \<lparr>badge_text = ''Python'', selected = True\<rparr>] ''o'' ui)
   = [''Go'', ''Python'']"
  unfolding search_results_input by code_simp

text \<open>
  The search is case-insensitive in the query: two values with the same lower-cased
  form render the same rows.
\<close>

theorem search_case_insensitive:
  assumes "js_lower v = js_lower w"
  shows "search_results (search_input bs v ui) = search_results (search_input bs w ui)"
proof -
  from assms have "(v = []) = (w = [])" by (metis js_lower_empty_iff)
  with assms show ?thesis by (simp add: search_results_input)
qed

text \<open>
  C9: the rendered rows are a subsequence of the trimmed badge labels (order kept, no
  row invented or repeated) and every row is a trimmed label.
\<close>

theorem search_results_subseq:
  "subseq (search_results (search_input bs v ui)) (skill_labels bs)
   \<and> map js_trim (search_results (search_input bs v ui)) = search_results (search_input bs v ui)"
proof
  show "subseq (search_results (search_input bs v ui)) (skill_labels bs)"
    by (simp add: search_results_input search_filter_def)
  have "js_trim s = s" if "s \<in> set (search_results (search_input bs v ui))" for s
    using that by (auto simp: search_results_input search_filter_def skill_labels_def split: if_splits)
  then show "map js_trim (search_results (search_input bs v ui)) = search_results (search_input bs v ui)"
    by (rule map_idI)
qed

text \<open>
  Re-running the input handler on the same value leaves the same state (the handler
  is idempotent, as the specification's error-handling section says).
\<close>

theorem search_input_idem:
  "search_input bs v (search_input bs v ui) = search_input bs v ui"
  by simp

end
