(* ===== verification/Clock.thy ===== *)
theory Clock
  imports Dom
begin

text \<open>
  The status bar of \<open>initializeSystemStatus\<close> (src/script.js, lines 159-182).  Start-up
  appends a bar with a span \<open>#systemTime\<close> showing \<open>00:00:00\<close>.  \<open>updateTime\<close> writes
  \<open>new Date().toLocaleTimeString('en-US', {hour12: false})\<close> into the element that
  \<open>getElementById('systemTime')\<close> returns.  It runs once at start-up and then every
  1000 ms.

  Time is in ms of local time, taken from a local midnight.  The format is the en-US
  pattern \<open>HH:mm:ss\<close>, with every field two digits.  With \<open>hour12: false\<close> the hour
  cycle depends on the engine.  The current ECMA-402 rules give \<open>h23\<close>, hours 00-23.
  Engines that follow the earlier rules pick \<open>h24\<close> for en-US, and midnight shows as
  hour 24.  Both cycles are modelled.

  \<open>getElementById\<close> returns the first element with the id in document order.  A page
  that already has an element \<open>#systemTime\<close> therefore gets its clock text there,
  and the bar's own span keeps \<open>00:00:00\<close>.
\<close>

datatype hour_cycle = H23 | H24

text \<open>Lines 160-165: the ids the status bar brings into the document.\<close>

definition status_ids :: "js_string list" where
  "status_ids = [''systemTime'']"

section \<open>Formatting\<close>

definition two_digits :: "nat \<Rightarrow> js_string" where
  "two_digits n = [char_of (48 + n div 10), char_of (48 + n mod 10)]"

primrec hour_shown :: "hour_cycle \<Rightarrow> nat \<Rightarrow> nat" where
  "hour_shown H23 h = h"
| "hour_shown H24 h = (if h = 0 then 24 else h)"

definition day_secs :: "nat \<Rightarrow> nat" where
  "day_secs ms = ms div 1000 mod 86400"

text \<open>Lines 171-173 for a second \<open>n\<close> of the day.\<close>

definition clock_string :: "hour_cycle \<Rightarrow> nat \<Rightarrow> js_string" where
  "clock_string hc n =
     two_digits (hour_shown hc (n div 3600)) @ '':'' @ two_digits (n div 60 mod 60) @ '':''
     @ two_digits (n mod 60)"

definition time_string :: "hour_cycle \<Rightarrow> nat \<Rightarrow> js_string" where
  "time_string hc ms = clock_string hc (day_secs ms)"

section \<open>Reading the clock text back\<close>

definition parse_digit :: "char \<Rightarrow> nat option" where
  "parse_digit c = (let n = of_char c :: nat in if 48 \<le> n \<and> n < 58 then Some (n - 48) else None)"

definition parse_two :: "char \<Rightarrow> char \<Rightarrow> nat option" where
  "parse_two a b =
     (case (parse_digit a, parse_digit b) of (Some x, Some y) \<Rightarrow> Some (10 * x + y) | _ \<Rightarrow> None)"

text \<open>The second of the day an \<open>h23\<close> clock text shows.\<close>

fun parse_clock :: "js_string \<Rightarrow> nat option" where
  "parse_clock [h1, h2, c1, m1, m2, c2, s1, s2] =
     (if c1 = CHR '':'' \<and> c2 = CHR '':'' then
        (case (parse_two h1 h2, parse_two m1 m2, parse_two s1 s2) of
           (Some h, Some m, Some s) \<Rightarrow>
             if h < 24 \<and> m < 60 \<and> s < 60 then Some (3600 * h + 60 * m + s) else None
         | _ \<Rightarrow> None)
      else None)"
| "parse_clock _ = None"

text \<open>
  The shape of a 24-hour clock text \<open>HH:MM:SS\<close> (specification, section 4.3): eight
  characters, digits but for the two colons.
\<close>

definition is_digit :: "char \<Rightarrow> bool" where
  "is_digit c = (48 \<le> (of_char c :: nat) \<and> (of_char c :: nat) < 58)"

fun clock_text_ok :: "js_string \<Rightarrow> bool" where
  "clock_text_ok [h1, h2, c1, m1, m2, c2, s1, s2] =
     (list_all is_digit [h1, h2, m1, m2, s1, s2] \<and> c1 = CHR '':'' \<and> c2 = CHR '':'')"
| "clock_text_ok _ = False"

section \<open>The status bar\<close>

text \<open>
  The element texts: that of an earlier \<open>#systemTime\<close> of the page if there is one,
  and that of the bar's span.  \<open>clk_doc\<close> is the document after the bar is appended.
\<close>

record clock_state =
  clk_doc :: document
  clk_pre :: "js_string option"
  clk_status :: js_string

text \<open>
  \<open>updateTime\<close> (lines 169-178): the text goes into the first \<open>#systemTime\<close>.  That
  is the page's own one if it exists and the bar's otherwise.  The \<open>if\<close> of line 175
  skips the write when there is none.
\<close>

definition update_time :: "hour_cycle \<Rightarrow> nat \<Rightarrow> clock_state \<Rightarrow> clock_state" where
  "update_time hc ms st =
     (case get_element_by_id (clk_doc st) ''systemTime'' of
        None \<Rightarrow> st
      | Some _ \<Rightarrow>
          (case clk_pre st of
             Some _ \<Rightarrow> st\<lparr>clk_pre := Some (time_string hc ms)\<rparr>
           | None \<Rightarrow> st\<lparr>clk_status := time_string hc ms\<rparr>))"

text \<open>
  Lines 160-180 at time \<open>ms\<close>: append the bar, then run \<open>updateTime\<close> once.  \<open>pre\<close>
  is the text of the page's own \<open>#systemTime\<close>, which is used only when it exists.
\<close>

definition init_system_status ::
  "hour_cycle \<Rightarrow> document \<Rightarrow> js_string \<Rightarrow> nat \<Rightarrow> clock_state" where
  "init_system_status hc d pre ms =
     update_time hc ms
       \<lparr>clk_doc = d\<lparr>doc_ids := doc_ids d @ status_ids\<rparr>,
        clk_pre = (if ''systemTime'' \<in> set (doc_ids d) then Some pre else None),
        clk_status = ''00:00:00''\<rparr>"

text \<open>Line 181: the interval runs \<open>updateTime\<close> at \<open>ms + 1000\<close>, \<open>ms + 2000\<close>, ...\<close>

primrec clock_ticks :: "hour_cycle \<Rightarrow> nat \<Rightarrow> nat \<Rightarrow> clock_state \<Rightarrow> clock_state" where
  "clock_ticks hc ms 0 st = st"
| "clock_ticks hc ms (Suc k) st = update_time hc (ms + 1000 * Suc k) (clock_ticks hc ms k st)"

section \<open>Lemmas\<close>

lemma parse_digit_char [simp]: "d < 10 \<Longrightarrow> parse_digit (char_of (48 + d)) = Some d"
  by (simp add: parse_digit_def)

lemma parse_digit_SomeD: "parse_digit c = Some d \<Longrightarrow> d < 10 \<and> char_of (48 + d) = c"
proof -
  assume h: "parse_digit c = Some d"
  then have n: "48 \<le> (of_char c :: nat)" "(of_char c :: nat) < 58" "d = of_char c - 48"
    by (simp_all add: parse_digit_def Let_def split: if_splits)
  then have "48 + d = of_char c" by simp
  then have "char_of (48 + d) = c" by (simp add: char_of_char)
  with n show ?thesis by simp
qed

lemma parse_two_digits [simp]: "n < 100 \<Longrightarrow> parse_two (char_of (48 + n div 10)) (char_of (48 + n mod 10)) = Some n"
  by (simp add: parse_two_def)

lemma parse_two_SomeD:
  assumes "parse_two a b = Some n"
  shows "n < 100 \<and> two_digits n = [a, b]"
proof -
  from assms obtain x y where x: "parse_digit a = Some x" and y: "parse_digit b = Some y"
    and n: "n = 10 * x + y"
    by (auto simp: parse_two_def split: option.splits)
  from parse_digit_SomeD [OF x] parse_digit_SomeD [OF y] n show ?thesis
    by (simp add: two_digits_def)
qed

lemma length_two_digits [simp]: "length (two_digits n) = 2"
  by (simp add: two_digits_def)

lemma length_clock_string [simp]: "length (clock_string hc n) = 8"
  by (simp add: clock_string_def two_digits_def)

lemma secs_split: "3600 * (n div 3600) + 60 * (n div 60 mod 60) + n mod 60 = (n::nat)"
proof -
  have "n div 60 div 60 = n div 3600" by (simp add: div_mult2_eq [symmetric])
  moreover have "60 * (n div 60 div 60) + n div 60 mod 60 = n div 60" by simp
  ultimately have "3600 * (n div 3600) + 60 * (n div 60 mod 60) = 60 * (n div 60)" by linarith
  moreover have "60 * (n div 60) + n mod 60 = n" by simp
  ultimately show ?thesis by linarith
qed

lemma day_secs_less [simp]: "day_secs ms < 86400"
  by (simp add: day_secs_def)

lemma clock_string_H23:
  "clock_string H23 n =
     [char_of (48 + n div 3600 div 10), char_of (48 + n div 3600 mod 10), CHR '':'',
      char_of (48 + n div 60 mod 60 div 10), char_of (48 + n div 60 mod 60 mod 10), CHR '':'',
      char_of (48 + n mod 60 div 10), char_of (48 + n mod 60 mod 10)]"
  by (simp add: clock_string_def two_digits_def)

lemma hms_div_mod:
  assumes "m < 60" "s < 60"
  shows "(3600 * h + 60 * m + s) div 3600 = h"
    and "(3600 * h + 60 * m + s) div 60 mod 60 = m"
    and "(3600 * h + 60 * m + s) mod 60 = (s::nat)"
proof -
  have a: "3600 * h + 60 * m + s = (60 * m + s) + h * 3600" by simp
  have "60 * m + s < 3600" using assms by linarith
  then show "(3600 * h + 60 * m + s) div 3600 = h" unfolding a by simp
  have b: "3600 * h + 60 * m + s = s + (60 * h + m) * 60" by simp
  have "(3600 * h + 60 * m + s) div 60 = 60 * h + m" unfolding b using assms by simp
  then show "(3600 * h + 60 * m + s) div 60 mod 60 = m" using assms by simp
  show "(3600 * h + 60 * m + s) mod 60 = s" unfolding b mod_mult_self1 using assms by simp
qed

lemma clock_ticks_fields:
  "clk_status (clock_ticks hc ms k (init_system_status hc d pre ms)) =
     (if ''systemTime'' \<in> set (doc_ids d) then ''00:00:00'' else time_string hc (ms + 1000 * k))
   \<and> clk_pre (clock_ticks hc ms k (init_system_status hc d pre ms)) =
     (if ''systemTime'' \<in> set (doc_ids d) then Some (time_string hc (ms + 1000 * k)) else None)
   \<and> clk_doc (clock_ticks hc ms k (init_system_status hc d pre ms)) =
     d\<lparr>doc_ids := doc_ids d @ status_ids\<rparr>"
proof (induction k)
  case 0
  then show ?case by (simp add: init_system_status_def update_time_def get_element_by_id_def status_ids_def)
next
  case (Suc k)
  then show ?case by (simp add: update_time_def get_element_by_id_def status_ids_def)
qed

lemma is_digit_char [simp]: "d < 10 \<Longrightarrow> is_digit (char_of (48 + d :: nat))"
  by (simp add: is_digit_def)

lemma clock_text_ok_clock_string:
  assumes "n < 86400"
  shows "clock_text_ok (clock_string hc n)"
proof -
  have "n div 3600 < 24" using assms by linarith
  then have "hour_shown hc (n div 3600) \<le> 24" by (cases hc) simp_all
  then have "hour_shown hc (n div 3600) div 10 < 10" by linarith
  then show ?thesis by (simp add: clock_string_def two_digits_def)
qed

section \<open>Properties\<close>

text \<open>
  C36: the clock text of an \<open>h23\<close> engine reads back as the second of the day it was
  made from: the format loses nothing.
\<close>

theorem clock_print_parse: "parse_clock (time_string H23 ms) = Some (day_secs ms)"
proof -
  let ?n = "day_secs ms"
  have h: "?n div 3600 < 24" using day_secs_less [of ms] by linarith
  have m: "?n div 60 mod 60 < 60" and s: "?n mod 60 < 60" by simp_all
  from h m s show ?thesis
    by (simp add: time_string_def clock_string_H23 secs_split)
qed

text \<open>
  C37: every text that reads as a clock text is the \<open>h23\<close> clock text of the second
  it reads as, and that second lies in the day.
\<close>

theorem clock_parse_print:
  assumes "parse_clock str = Some n"
  shows "clock_string H23 n = str \<and> n < 86400"
proof -
  obtain h1 h2 c1 m1 m2 c2 s1 s2 where str: "str = [h1, h2, c1, m1, m2, c2, s1, s2]"
    using assms by (cases str rule: parse_clock.cases) auto
  from assms str have c: "c1 = CHR '':''" "c2 = CHR '':''" by (auto split: if_splits)
  from assms str c obtain h m s where ph: "parse_two h1 h2 = Some h" and pm: "parse_two m1 m2 = Some m"
    and ps: "parse_two s1 s2 = Some s" and lt: "h < 24" "m < 60" "s < 60"
    and n: "n = 3600 * h + 60 * m + s"
    by (auto split: option.splits if_splits)
  from lt n have q: "n div 3600 = h" "n div 60 mod 60 = m" "n mod 60 = s" "n < 86400"
    using hms_div_mod [of m s h] by simp_all
  show ?thesis
    using parse_two_SomeD [OF ph] parse_two_SomeD [OF pm] parse_two_SomeD [OF ps] q c str
    by (simp add: clock_string_def)
qed

theorem clock_parse_print_witness:
  "clock_string H23 32703 = ''09:05:03''"
proof -
  have p: "parse_clock ''09:05:03'' = Some 32703" by (simp add: parse_two_def parse_digit_def)
  show ?thesis by (rule conjunct1 [OF clock_parse_print [OF p]])
qed

text \<open>
  C38: an engine with the \<open>h24\<close> cycle shows the same text as an \<open>h23\<close> one except in
  the first hour after midnight, which it shows as hour 24 (\<open>24:05:00\<close>, not
  \<open>00:05:00\<close>).
\<close>

lemma two_digits_24: "two_digits 24 = ''24''"
  by code_simp

theorem clock_h24_midnight:
  "time_string H24 ms =
     (if day_secs ms < 3600 then ''24'' @ drop 2 (time_string H23 ms) else time_string H23 ms)"
proof (cases "day_secs ms < 3600")
  case True
  then have "day_secs ms div 3600 = 0" by simp
  then show ?thesis using True by (simp add: time_string_def clock_string_def two_digits_24)
next
  case False
  then have "day_secs ms div 3600 \<noteq> 0" by simp
  then show ?thesis using False by (simp add: time_string_def clock_string_def)
qed

text \<open>
  C39: after start-up at \<open>ms\<close> and \<open>k\<close> interval ticks the bar shows the time of the
  last tick, unless the page already had an element \<open>#systemTime\<close>: then that
  element gets the time and the bar shows \<open>00:00:00\<close> for ever.
\<close>

theorem clock_display:
  "clk_status (clock_ticks hc ms k (init_system_status hc d pre ms)) =
     (if ''systemTime'' \<in> set (doc_ids d) then ''00:00:00'' else time_string hc (ms + 1000 * k))
   \<and> clk_pre (clock_ticks hc ms k (init_system_status hc d pre ms)) =
     (if ''systemTime'' \<in> set (doc_ids d) then Some (time_string hc (ms + 1000 * k)) else None)
   \<and> clk_doc (clock_ticks hc ms k (init_system_status hc d pre ms)) =
     d\<lparr>doc_ids := doc_ids d @ status_ids\<rparr>"
  by (rule clock_ticks_fields)

text \<open>
  C16: every text the status bar shows is a well-formed 24-hour clock text
  \<open>HH:MM:SS\<close>.  This holds for the placeholder \<open>00:00:00\<close> and for every tick,
  under both hour cycles: hour 24 still has two digits.
\<close>

theorem clock_text_type:
  "clock_text_ok (time_string hc ms)
   \<and> clock_text_ok (clk_status (clock_ticks hc ms k (init_system_status hc d pre ms)))"
proof -
  have t: "clock_text_ok (time_string hc m)" for m
    unfolding time_string_def by (rule clock_text_ok_clock_string) simp
  have z: "clock_text_ok ''00:00:00''" by (simp add: is_digit_def)
  show ?thesis using t z clock_ticks_fields [of hc ms k d pre] by simp
qed

end
