(* ===== verification/Page.thy ===== *)
theory Page
  imports Navigation Search Clock
begin

text \<open>
  The page as a whole: the state every listener of src/script.js reads or writes, the
  global keydown listener (lines 205-218), the start-up sequence of the
  \<open>DOMContentLoaded\<close> listener (lines 2-9) and the exported \<open>getExperience\<close>
  (lines 232-235), and one step function that dispatches an event to the listener the
  script attached for it.  The log collects the effects in order; \<open>pg_errors\<close> the
  exceptions that escaped a listener (the browser reports them and goes on).
\<close>

record page =
  pg_doc :: document
  pg_links :: "nav_link list"
  pg_badges :: "badge list"
  pg_search :: "search_ui option"
  pg_experience :: "js_string list"
  pg_log :: "effect list"
  pg_errors :: "dom_error list"

datatype event =
    NavClick nat
  | Scroll int
  | BadgeClick nat
  | SearchInput js_string
  | ResultClick nat
  | KeyDown js_string bool
  | CallGetSelected
  | CallClearSelected

section \<open>Keyboard shortcuts\<close>

text \<open>
  Alt+S: prevent the default, focus \<open>#skillSearch\<close> if it exists.  Alt+H: prevent
  the default, then \<open>document.querySelector('header').scrollIntoView(...)\<close>, which
  throws a \<open>TypeError\<close> when there is no header.  The two tests are independent
  \<open>if\<close>s, the first runs before the second.
\<close>

definition key_focus_search :: "document \<Rightarrow> js_string \<Rightarrow> bool \<Rightarrow> effect list" where
  "key_focus_search d k alt =
     (if k = ''s'' \<and> alt then
        PreventDefault # (case get_element_by_id d ''skillSearch'' of
                            None \<Rightarrow> [] | Some _ \<Rightarrow> [Focus ''skillSearch''])
      else [])"

definition keydown :: "document \<Rightarrow> js_string \<Rightarrow> bool \<Rightarrow> effect list outcome" where
  "keydown d k alt =
     (let eff = key_focus_search d k alt in
      if k = ''h'' \<and> alt then
        (case query_selector d ''header'' of
           Inl e \<Rightarrow> Thrown e (eff @ [PreventDefault])
         | Inr None \<Rightarrow> Thrown TypeError (eff @ [PreventDefault])
         | Inr (Some r) \<Rightarrow> Done (eff @ [PreventDefault, ScrollIntoView r]))
      else Done eff)"

section \<open>Start-up\<close>

text \<open>
  \<open>initializeSystemStatus\<close> (lines 159-167) appends the status bar with the element
  \<open>#systemTime\<close> (its ids are \<open>status_ids\<close> of theory Clock, which models the
  clock text).  The other initialisers attach listeners only, which the step function
  below stands for.
\<close>

definition page_init :: "document \<Rightarrow> nav_link list \<Rightarrow> badge list \<Rightarrow> js_string list \<Rightarrow> page" where
  "page_init d ls bs xs =
     (let (d1, ui) = init_search d;
          d2 = d1\<lparr>doc_ids := doc_ids d1 @ status_ids\<rparr>
      in \<lparr>pg_doc = d2, pg_links = ls, pg_badges = bs, pg_search = ui,
          pg_experience = xs, pg_log = [], pg_errors = []\<rparr>)"

text \<open>\<open>window.getExperience\<close>: the headings' \<open>textContent\<close>, untrimmed, in order.\<close>

definition get_experience :: "page \<Rightarrow> js_string list" where
  "get_experience p = pg_experience p"

section \<open>Dispatch\<close>

definition report :: "page \<Rightarrow> (page \<times> effect list) outcome \<Rightarrow> page" where
  "report p r =
     (case r of
        Done (p', eff) \<Rightarrow> p'\<lparr>pg_log := pg_log p @ eff\<rparr>
      | Thrown e (p', eff) \<Rightarrow> p'\<lparr>pg_log := pg_log p @ eff, pg_errors := pg_errors p @ [e]\<rparr>)"

fun page_step :: "page \<Rightarrow> event \<Rightarrow> page" where
  "page_step p (NavClick i) =
     (if i < length (pg_links p) then
        report p (outcome_map (\<lambda>(ls, eff). (p\<lparr>pg_links := ls\<rparr>, eff))
                    (nav_click (pg_doc p) (pg_links p) i))
      else p)"
| "page_step p (Scroll y) = p\<lparr>pg_links := nav_scroll y (doc_sections (pg_doc p)) (pg_links p)\<rparr>"
| "page_step p (BadgeClick i) =
     (if i < length (pg_badges p) then
        p\<lparr>pg_badges := fst (badge_click i (pg_badges p)),
          pg_log := pg_log p @ snd (badge_click i (pg_badges p))\<rparr>
      else p)"
| "page_step p (SearchInput v) =
     (case pg_search p of
        None \<Rightarrow> p
      | Some ui \<Rightarrow> p\<lparr>pg_search := Some (search_input (pg_badges p) v ui)\<rparr>)"
| "page_step p (ResultClick i) =
     (case pg_search p of
        None \<Rightarrow> p
      | Some ui \<Rightarrow> if i < length (search_results ui) then p\<lparr>pg_search := Some (result_click i ui)\<rparr> else p)"
| "page_step p (KeyDown k alt) = report p (outcome_map (\<lambda>eff. (p, eff)) (keydown (pg_doc p) k alt))"
| "page_step p CallGetSelected = p\<lparr>pg_log := pg_log p @ snd (get_selected_skills (pg_badges p))\<rparr>"
| "page_step p CallClearSelected =
     p\<lparr>pg_badges := fst (clear_selected_skills (pg_badges p)),
       pg_log := pg_log p @ snd (clear_selected_skills (pg_badges p))\<rparr>"

text \<open>The states reachable from a start state by any sequence of events.\<close>

inductive reachable :: "page \<Rightarrow> page \<Rightarrow> bool" for p0 :: page where
  init: "reachable p0 p0"
| step: "reachable p0 p \<Longrightarrow> reachable p0 (page_step p e)"

fun page_run :: "page \<Rightarrow> event list \<Rightarrow> page" where
  "page_run p [] = p"
| "page_run p (e # es) = page_run (page_step p e) es"

section \<open>Lemmas\<close>

named_theorems page_simps "frame equations of the page step"

lemma report_fields [simp, page_simps]:
  "pg_links (report p (outcome_map (\<lambda>(ls, eff). (p\<lparr>pg_links := ls\<rparr>, eff)) r)) = fst (outcome_val r)"
  "pg_badges (report p (outcome_map (\<lambda>(ls, eff). (p\<lparr>pg_links := ls\<rparr>, eff)) r)) = pg_badges p"
  "pg_search (report p (outcome_map (\<lambda>(ls, eff). (p\<lparr>pg_links := ls\<rparr>, eff)) r)) = pg_search p"
  "pg_doc (report p (outcome_map (\<lambda>(ls, eff). (p\<lparr>pg_links := ls\<rparr>, eff)) r)) = pg_doc p"
  by (cases r; auto simp: report_def)+

lemma report_key_fields [simp, page_simps]:
  "pg_links (report p (outcome_map (\<lambda>eff. (p, eff)) r)) = pg_links p"
  "pg_badges (report p (outcome_map (\<lambda>eff. (p, eff)) r)) = pg_badges p"
  "pg_search (report p (outcome_map (\<lambda>eff. (p, eff)) r)) = pg_search p"
  "pg_doc (report p (outcome_map (\<lambda>eff. (p, eff)) r)) = pg_doc p"
  by (cases r; simp add: report_def)+

lemma reachable_run: "reachable p0 p \<Longrightarrow> reachable p0 (page_run p es)"
  by (induction es arbitrary: p) (auto intro: reachable.step)

lemma page_step_doc [simp, page_simps]: "pg_doc (page_step p e) = pg_doc p"
  by (cases e) (auto simp: Let_def split: prod.split option.split)

lemma page_step_hrefs [simp, page_simps]:
  "map href (pg_links (page_step p e)) = map href (pg_links p)"
proof (cases e)
  case (NavClick i)
  then show ?thesis
    using nav_click_links_cases [of "pg_doc p" "pg_links p" i] by auto
qed (auto simp: Let_def split: prod.split option.split)

lemma page_step_badge_texts [simp, page_simps]:
  "map badge_text (pg_badges (page_step p e)) = map badge_text (pg_badges p)"
proof (cases e)
  case (BadgeClick i)
  then show ?thesis
    using badge_text_badge_click [of i "pg_badges p"] by (auto split: prod.split)
next
  case CallClearSelected
  then show ?thesis
    using badge_text_clear_selected [of "pg_badges p"] by (auto split: prod.split)
qed (auto simp: Let_def split: prod.split option.split)

lemma page_step_search_None [simp, page_simps]:
  "(pg_search (page_step p e) = None) = (pg_search p = None)"
  by (cases e) (auto simp: Let_def split: prod.split option.split)

lemma page_step_single_active:
  assumes "hrefs_distinct (pg_links p)" and "card (active_links (pg_links p)) \<le> 1"
  shows "card (active_links (pg_links (page_step p e))) \<le> 1"
proof (cases e)
  case (NavClick i)
  show ?thesis
  proof (cases "i < length (pg_links p)")
    case True
    with NavClick nav_click_links_cases [of "pg_doc p" "pg_links p" i] assms(2)
    show ?thesis by (auto simp: active_links_nav_activate)
  next
    case False
    with NavClick assms(2) show ?thesis by simp
  qed
next
  case (Scroll y)
  have "card (active_links (nav_scroll y (doc_sections (pg_doc p)) (pg_links p))) \<le> 1"
    by (rule active_links_le_1) (rule nav_scroll_unique_active [OF assms(1)])
  with Scroll show ?thesis by simp
qed (use assms(2) in \<open>auto simp: Let_def split: prod.split option.split\<close>)

definition results_ok :: "page \<Rightarrow> bool" where
  "results_ok p =
     (case pg_search p of None \<Rightarrow> True
      | Some ui \<Rightarrow> subseq (search_results ui) (skill_labels (pg_badges p)))"

lemma page_step_results_ok:
  assumes "results_ok p"
  shows "results_ok (page_step p e)"
proof -
  have lab: "skill_labels (pg_badges (page_step p e)) = skill_labels (pg_badges p)"
    by (rule skill_labels_texts) simp
  show ?thesis
  proof (cases e)
    case (SearchInput v)
    then show ?thesis
      by (auto simp: results_ok_def search_results_input search_filter_def split: option.split)
  next
    case (ResultClick i)
    then show ?thesis using assms
      by (auto simp: results_ok_def split: option.split)
  qed (use assms lab in \<open>auto simp: results_ok_def split: option.splits\<close>)
qed

lemma page_init_fields [simp, page_simps]:
  "pg_links (page_init d ls bs xs) = ls"
  "pg_badges (page_init d ls bs xs) = bs"
  "pg_search (page_init d ls bs xs) = snd (init_search d)"
  "pg_doc (page_init d ls bs xs) = (fst (init_search d))\<lparr>doc_ids := doc_ids (fst (init_search d)) @ status_ids\<rparr>"
  "pg_log (page_init d ls bs xs) = []"
  "pg_errors (page_init d ls bs xs) = []"
  by (simp_all add: page_init_def split: prod.split)

lemma init_search_skills:
  "''skills'' \<in> set (doc_ids d) \<Longrightarrow>
   init_search d = (d\<lparr>doc_ids := doc_ids d @ search_widget_ids\<rparr>, Some \<lparr>search_value = [], search_results = []\<rparr>)"
  by (simp add: init_search_def query_selector_def css_ident_def css_name_start_def css_name_char_def)

lemma reachable_frame:
  "reachable p0 p \<Longrightarrow> map href (pg_links p) = map href (pg_links p0) \<and> pg_doc p = pg_doc p0"
  by (induction rule: reachable.induct) simp_all

text \<open>
  Only two listeners can throw: a navigation click and Alt+H.  Every other event leaves
  the error list as it was.
\<close>

lemma errors_only_from_click_or_alt_h:
  assumes "pg_errors (page_step p e) \<noteq> pg_errors p"
  shows "(\<exists>i. e = NavClick i) \<or> e = KeyDown ''h'' True"
proof (cases e)
  case (KeyDown k alt)
  with assms show ?thesis
    by (auto simp: report_def keydown_def Let_def split: if_splits sum.splits option.splits)
qed (use assms in \<open>auto split: option.splits if_splits\<close>)

text \<open>
  C25: Alt+H on a page without a \<open>header\<close> element throws a \<open>TypeError\<close> after
  preventing the default; the specification says a missing header is skipped silently.
\<close>

theorem keydown_alt_h_no_header:
  assumes "query_selector d ''header'' = Inr None"
  shows "keydown d ''h'' True = Thrown TypeError [PreventDefault]"
  using assms by (simp add: keydown_def key_focus_search_def)

theorem keydown_alt_h_no_header_witness:
  "query_selector \<lparr>doc_ids = [], doc_sections = [], doc_select = \<lambda>_. Inr False\<rparr> ''header'' = Inr None
   \<and> keydown \<lparr>doc_ids = [], doc_sections = [], doc_select = \<lambda>_. Inr False\<rparr> ''h'' True
     = Thrown TypeError [PreventDefault]"
proof -
  have h: "query_selector \<lparr>doc_ids = [], doc_sections = [], doc_select = \<lambda>_. Inr False\<rparr> ''header'' = Inr None"
    by (simp add: query_selector_def)
  show ?thesis using h keydown_alt_h_no_header [OF h] by blast
qed

end
