(* ===== verification/SearchRefinement.thy ===== *)
theory SearchRefinement
  imports Page
begin

text \<open>
  The skill filter of the specification (section 4.2) as an abstract machine, and the
  proof that the page refines it.  The abstract state is the query field and the list
  of rendered results.  The abstract machine filters a snapshot of the skill labels
  taken once at start-up.  The script instead re-reads the badges on every input
  event (src/script.js, line 113).  The refinement holds because no event changes a
  badge's text.  The abstraction function \<open>search_abs\<close> maps the widget state of
  \<open>Search\<close> to the abstract state.  Every page event maps to one step of the
  abstract machine, which is the identity on the events outside the search.
\<close>

record filter_spec =
  fs_query :: js_string
  fs_results :: "js_string list"

section \<open>The abstract machine\<close>

text \<open>
  An input event: the query is the lower-cased value; an empty query renders nothing,
  any other renders the snapshot labels whose lower-cased form contains it, in order.
\<close>

definition spec_input :: "js_string list \<Rightarrow> js_string \<Rightarrow> filter_spec \<Rightarrow> filter_spec" where
  "spec_input S v a =
     \<lparr>fs_query = v,
      fs_results = (if js_lower v = [] then []
                    else filter (\<lambda>s. sublist (js_lower v) (js_lower s)) S)\<rparr>"

text \<open>Selecting a rendered result: its label becomes the query, the list collapses.\<close>

definition spec_select :: "nat \<Rightarrow> filter_spec \<Rightarrow> filter_spec" where
  "spec_select i a =
     (if i < length (fs_results a) then \<lparr>fs_query = fs_results a ! i, fs_results = []\<rparr> else a)"

fun spec_filter_step :: "js_string list \<Rightarrow> filter_spec \<Rightarrow> event \<Rightarrow> filter_spec" where
  "spec_filter_step S a (SearchInput v) = spec_input S v a"
| "spec_filter_step S a (ResultClick i) = spec_select i a"
| "spec_filter_step S a _ = a"

definition search_abs :: "search_ui \<Rightarrow> filter_spec" where
  "search_abs ui = \<lparr>fs_query = search_value ui, fs_results = search_results ui\<rparr>"

section \<open>Simulation\<close>

lemma search_abs_input:
  "search_abs (search_input bs v ui) = spec_input (skill_labels bs) v (search_abs ui)"
  by (simp add: search_abs_def spec_input_def search_results_input search_filter_sublist)

lemma search_abs_result_click:
  "i < length (search_results ui) \<Longrightarrow>
   search_abs (result_click i ui) = spec_select i (search_abs ui)"
  by (simp add: search_abs_def spec_select_def)

lemma spec_select_out:
  "\<not> i < length (fs_results a) \<Longrightarrow> spec_select i a = a"
  by (simp add: spec_select_def)

lemma fs_results_search_abs [simp]: "fs_results (search_abs ui) = search_results ui"
  by (simp add: search_abs_def)

text \<open>One page event is one step of the abstract machine.\<close>

lemma page_step_simulates:
  "map_option search_abs (pg_search (page_step p e)) =
     map_option (\<lambda>a. spec_filter_step (skill_labels (pg_badges p)) a e)
       (map_option search_abs (pg_search p))"
proof (cases e)
  case (SearchInput v)
  then show ?thesis by (cases "pg_search p") (simp_all add: search_abs_input)
next
  case (ResultClick i)
  then show ?thesis
    by (cases "pg_search p")
       (simp_all add: search_abs_result_click spec_select_out)
next
  case (NavClick i)
  then show ?thesis by (simp add: option.map_ident)
next
  case (KeyDown k alt)
  then show ?thesis by (simp add: option.map_ident)
qed (simp_all add: option.map_ident)

lemma page_run_simulates:
  assumes "skill_labels (pg_badges p) = S"
  shows "map_option search_abs (pg_search (page_run p es)) =
           map_option (\<lambda>a. fold (\<lambda>e a. spec_filter_step S a e) es a)
             (map_option search_abs (pg_search p))"
  using assms
proof (induction es arbitrary: p)
  case Nil
  then show ?case by (simp add: option.map_comp comp_def)
next
  case (Cons e es)
  have "skill_labels (pg_badges (page_step p e)) = skill_labels (pg_badges p)"
    by (rule skill_labels_texts) (rule page_step_badge_texts)
  with Cons.prems have "skill_labels (pg_badges (page_step p e)) = S" by simp
  from Cons.IH [OF this] Cons.prems show ?case
    by (simp add: page_step_simulates option.map_comp comp_def)
qed

section \<open>Properties\<close>

text \<open>
  C10: the page refines the specification's skill filter.  After any sequence of
  events from start-up, the search widget is there exactly when the abstract filter
  is.  Its query and its rendered rows are those of the abstract machine, which runs
  the same events on the labels collected at start-up.
\<close>

theorem page_refines_filter_spec:
  "map_option search_abs (pg_search (page_run (page_init d ls bs xs) es)) =
     map_option (\<lambda>a. fold (\<lambda>e a. spec_filter_step (skill_labels bs) a e) es a)
       (map_option search_abs (snd (init_search d)))"
  using page_run_simulates [of "page_init d ls bs xs" "skill_labels bs" es] by simp

end
