(* ===== verification/CopyButtons.thy ===== *)
theory CopyButtons
  imports Dom
begin

text \<open>
  The copy buttons of \<open>initializeCopyButtons\<close> (src/script.js, lines 135-156).  Start-up
  inserts one button \<open>[COPY]\<close> after every link matching \<open>.contact-item a\<close>.  A click
  prevents the default and calls \<open>navigator.clipboard.writeText\<close> with the link's
  text; the call returns at once with a promise.  When the promise fulfils, the
  callback marks the button (class \<open>copied\<close>, text \<open>[COPIED!]\<close>) and starts a
  2000 ms timer that restores \<open>[COPY]\<close>.  A rejected promise has no handler.

  The state is a timed state machine.  It holds the links' texts, the buttons, the
  pending \<open>writeText\<close> promises (button and text, in call order), the running timers
  (due time and button, in start order), the clipboard and the current time in ms.
  Events are the clicks, the settling of a pending promise in either direction, the
  firing of the earliest timer, and the passing of time.  Time never passes a due
  timer, so each timer fires at its due time, in the order the timers were started.
\<close>

record copy_btn =
  cb_text :: js_string
  cb_copied :: bool

definition copy_label :: js_string where
  "copy_label = ''[COPY]''"

definition copied_label :: js_string where
  "copied_label = ''[COPIED!]''"

definition copy_delay :: nat where
  "copy_delay = 2000"

definition idle_btn :: copy_btn where
  "idle_btn = \<lparr>cb_text = copy_label, cb_copied = False\<rparr>"

definition copied_btn :: copy_btn where
  "copied_btn = \<lparr>cb_text = copied_label, cb_copied = True\<rparr>"

record copy_state =
  cs_links :: "js_string list"
  cs_btns :: "copy_btn list"
  cs_writes :: "(nat \<times> js_string) list"
  cs_timers :: "(nat \<times> nat) list"
  cs_clipboard :: js_string
  cs_now :: nat

datatype copy_event =
    CopyClick nat
  | WriteResolve nat
  | WriteReject nat
  | TimerFire
  | Advance nat

section \<open>Operations\<close>

text \<open>Lines 136-155: one idle button per contact link.\<close>

definition init_copy_buttons :: "js_string list \<Rightarrow> js_string \<Rightarrow> nat \<Rightarrow> copy_state" where
  "init_copy_buttons links clip t =
     \<lparr>cs_links = links, cs_btns = map (\<lambda>_. idle_btn) links, cs_writes = [],
      cs_timers = [], cs_clipboard = clip, cs_now = t\<rparr>"

text \<open>Lines 142-145: the click listener up to the \<open>writeText\<close> call.\<close>

definition copy_click :: "nat \<Rightarrow> copy_state \<Rightarrow> copy_state \<times> effect list" where
  "copy_click i s =
     (s\<lparr>cs_writes := cs_writes s @ [(i, cs_links s ! i)]\<rparr>, [PreventDefault])"

text \<open>
  Lines 145-151: the promise fulfils, the clipboard holds the text, and the
  \<open>then\<close> callback marks the button and starts its timer.
\<close>

definition write_resolved :: "nat \<Rightarrow> copy_state \<Rightarrow> copy_state" where
  "write_resolved k s =
     (let (i, t) = cs_writes s ! k; b = cs_btns s ! i in
      s\<lparr>cs_writes := del_nth k (cs_writes s), cs_clipboard := t,
        cs_btns := (cs_btns s)[i := b\<lparr>cb_copied := True, cb_text := copied_label\<rparr>],
        cs_timers := cs_timers s @ [(cs_now s + copy_delay, i)]\<rparr>)"

text \<open>A rejected promise: there is no \<open>catch\<close>, nothing but the promise changes.\<close>

definition write_rejected :: "nat \<Rightarrow> copy_state \<Rightarrow> copy_state" where
  "write_rejected k s = s\<lparr>cs_writes := del_nth k (cs_writes s)\<rparr>"

text \<open>Lines 148-151: the earliest timer fires and restores its button.\<close>

definition timer_fire :: "copy_state \<Rightarrow> copy_state" where
  "timer_fire s =
     (case cs_timers s of
        [] \<Rightarrow> s
      | (d, i) # r \<Rightarrow>
          s\<lparr>cs_now := max (cs_now s) d, cs_timers := r,
            cs_btns := (cs_btns s)[i := (cs_btns s ! i)\<lparr>cb_copied := False, cb_text := copy_label\<rparr>]\<rparr>)"

definition timers_allow :: "nat \<Rightarrow> copy_state \<Rightarrow> bool" where
  "timers_allow t s = (cs_now s \<le> t \<and> list_all (\<lambda>(d, _). t \<le> d) (cs_timers s))"

text \<open>
  One event, \<open>None\<close> when it cannot happen in that state: a click on a button that
  does not exist, a promise that is not pending, no running timer, or time that
  would go back or pass a due timer.
\<close>

fun copy_step :: "copy_event \<Rightarrow> copy_state \<Rightarrow> (copy_state \<times> effect list) option" where
  "copy_step (CopyClick i) s =
     (if i < length (cs_btns s) then Some (copy_click i s) else None)"
| "copy_step (WriteResolve k) s =
     (if k < length (cs_writes s) then Some (write_resolved k s, []) else None)"
| "copy_step (WriteReject k) s =
     (if k < length (cs_writes s) then Some (write_rejected k s, []) else None)"
| "copy_step TimerFire s =
     (if cs_timers s = [] then None else Some (timer_fire s, []))"
| "copy_step (Advance t) s =
     (if timers_allow t s then Some (s\<lparr>cs_now := t\<rparr>, []) else None)"

inductive copy_reachable :: "copy_state \<Rightarrow> copy_state \<Rightarrow> bool" for s0 where
  init: "copy_reachable s0 s0"
| step: "copy_reachable s0 s \<Longrightarrow> copy_step e s = Some (s', eff) \<Longrightarrow> copy_reachable s0 s'"

text \<open>A run of events; it stops at the first event that cannot happen.\<close>

fun copy_run :: "copy_event list \<Rightarrow> copy_state \<Rightarrow> copy_state option" where
  "copy_run [] s = Some s"
| "copy_run (e # es) s = (case copy_step e s of None \<Rightarrow> None | Some (s', _) \<Rightarrow> copy_run es s')"

text \<open>Fire every running timer, earliest first.\<close>

fun copy_settle :: "nat \<Rightarrow> copy_state \<Rightarrow> copy_state" where
  "copy_settle 0 s = s"
| "copy_settle (Suc n) s = (if cs_timers s = [] then s else copy_settle n (timer_fire s))"

section \<open>The invariant\<close>

text \<open>
  Every button is idle or marked; a pending promise carries its link's text; the
  timers are sorted by due time, none is overdue or more than 2000 ms ahead; a
  marked button has a running timer.
\<close>

definition copy_wf :: "copy_state \<Rightarrow> bool" where
  "copy_wf s =
     (length (cs_btns s) = length (cs_links s)
      \<and> list_all (\<lambda>b. b = idle_btn \<or> b = copied_btn) (cs_btns s)
      \<and> list_all (\<lambda>(i, t). i < length (cs_links s) \<and> t = cs_links s ! i) (cs_writes s)
      \<and> sorted (map fst (cs_timers s))
      \<and> list_all (\<lambda>(d, i). cs_now s \<le> d \<and> d \<le> cs_now s + copy_delay \<and> i < length (cs_btns s))
                 (cs_timers s)
      \<and> list_all (\<lambda>i. cb_copied (cs_btns s ! i) \<longrightarrow> i \<in> snd ` set (cs_timers s))
                 [0..<length (cs_btns s)])"

section \<open>Lemmas\<close>

named_theorems copy_simps "characteristic equations of the copy-button operations"

lemma copy_btn_updates [simp, copy_simps]:
  "b\<lparr>cb_copied := True, cb_text := copied_label\<rparr> = copied_btn"
  "b\<lparr>cb_copied := False, cb_text := copy_label\<rparr> = idle_btn"
  by (simp_all add: copied_btn_def idle_btn_def)

lemma idle_copied_distinct [simp]:
  "idle_btn \<noteq> copied_btn" "\<not> cb_copied idle_btn" "cb_copied copied_btn"
  "cb_text idle_btn = copy_label" "cb_text copied_btn = copied_label"
  by (simp_all add: idle_btn_def copied_btn_def copy_label_def copied_label_def)

lemma copy_wf_iff:
  "copy_wf s =
     (length (cs_btns s) = length (cs_links s)
      \<and> (\<forall>b\<in>set (cs_btns s). b = idle_btn \<or> b = copied_btn)
      \<and> (\<forall>(i, t)\<in>set (cs_writes s). i < length (cs_links s) \<and> t = cs_links s ! i)
      \<and> sorted (map fst (cs_timers s))
      \<and> (\<forall>(d, i)\<in>set (cs_timers s). cs_now s \<le> d \<and> d \<le> cs_now s + copy_delay \<and> i < length (cs_btns s))
      \<and> (\<forall>i<length (cs_btns s). cb_copied (cs_btns s ! i) \<longrightarrow> i \<in> snd ` set (cs_timers s)))"
  by (auto simp: copy_wf_def list_all_iff)

lemma copy_wfI:
  assumes "length (cs_btns s) = length (cs_links s)"
    and "\<forall>b\<in>set (cs_btns s). b = idle_btn \<or> b = copied_btn"
    and "\<forall>(i, t)\<in>set (cs_writes s). i < length (cs_links s) \<and> t = cs_links s ! i"
    and "sorted (map fst (cs_timers s))"
    and "\<forall>(d, i)\<in>set (cs_timers s). cs_now s \<le> d \<and> d \<le> cs_now s + copy_delay \<and> i < length (cs_btns s)"
    and "\<forall>i<length (cs_btns s). cb_copied (cs_btns s ! i) \<longrightarrow> i \<in> snd ` set (cs_timers s)"
  shows "copy_wf s"
  using assms unfolding copy_wf_iff by blast

lemma copy_wfD:
  assumes "copy_wf s"
  shows "length (cs_btns s) = length (cs_links s)"
    and "\<forall>b\<in>set (cs_btns s). b = idle_btn \<or> b = copied_btn"
    and "\<forall>(i, t)\<in>set (cs_writes s). i < length (cs_links s) \<and> t = cs_links s ! i"
    and "sorted (map fst (cs_timers s))"
    and "\<forall>(d, i)\<in>set (cs_timers s). cs_now s \<le> d \<and> d \<le> cs_now s + copy_delay \<and> i < length (cs_btns s)"
    and "\<forall>i<length (cs_btns s). cb_copied (cs_btns s ! i) \<longrightarrow> i \<in> snd ` set (cs_timers s)"
  using assms by (auto simp: copy_wf_iff)

lemma copy_wf_init [intro]: "copy_wf (init_copy_buttons links clip t)"
  by (rule copy_wfI) (simp_all add: init_copy_buttons_def)

lemma copy_wf_click:
  assumes wf: "copy_wf s" and i: "i < length (cs_btns s)"
  shows "copy_wf (fst (copy_click i s))"
proof -
  note w = copy_wfD [OF wf]
  from w(3) i w(1) have "\<forall>(j, u)\<in>set (cs_writes s @ [(i, cs_links s ! i)]).
                     j < length (cs_links s) \<and> u = cs_links s ! j" by auto
  then show ?thesis
    unfolding copy_click_def fst_conv by (intro copy_wfI) (use w in simp_all)
qed

lemma copy_wf_rejected: "copy_wf s \<Longrightarrow> copy_wf (write_rejected k s)"
  unfolding write_rejected_def
  by (intro copy_wfI) (use copy_wfD [of s] set_del_nth [of k "cs_writes s"] in \<open>simp_all, blast\<close>)

lemma write_resolved_fields:
  assumes "cs_writes s ! k = (i, t)"
  shows "cs_links (write_resolved k s) = cs_links s"
    and "cs_btns (write_resolved k s) = (cs_btns s)[i := copied_btn]"
    and "cs_writes (write_resolved k s) = del_nth k (cs_writes s)"
    and "cs_timers (write_resolved k s) = cs_timers s @ [(cs_now s + copy_delay, i)]"
    and "cs_clipboard (write_resolved k s) = t"
    and "cs_now (write_resolved k s) = cs_now s"
  using assms by (simp_all add: write_resolved_def)

lemma btns_update_ok:
  "\<forall>b\<in>set bs. b = idle_btn \<or> b = copied_btn \<Longrightarrow> b' = idle_btn \<or> b' = copied_btn \<Longrightarrow>
   \<forall>b\<in>set (bs[i := b']). b = idle_btn \<or> b = copied_btn"
  by (auto dest: set_update_subset_insert [THEN subsetD])

lemma copy_wf_resolved:
  assumes wf: "copy_wf s" and k: "k < length (cs_writes s)"
  shows "copy_wf (write_resolved k s)"
proof -
  obtain i t where w: "cs_writes s ! k = (i, t)" by (cases "cs_writes s ! k")
  from k have "(i, t) \<in> set (cs_writes s)" unfolding w [symmetric] by (rule nth_mem)
  with copy_wfD(3) [OF wf] copy_wfD(1) [OF wf] have i: "i < length (cs_btns s)" by auto
  note f = write_resolved_fields [OF w]
  note w = copy_wfD [OF wf]
  note len = w(1) and b = w(2) and ws = w(3) and srt = w(4) and tm = w(5) and mk = w(6)
  have c2: "\<forall>b\<in>set ((cs_btns s)[i := copied_btn]). b = idle_btn \<or> b = copied_btn"
    using b by (rule btns_update_ok) simp
  have c3: "\<forall>(j, u)\<in>set (del_nth k (cs_writes s)). j < length (cs_links s) \<and> u = cs_links s ! j"
    using ws set_del_nth [of k "cs_writes s"] by blast
  have c4: "sorted (map fst (cs_timers s @ [(cs_now s + copy_delay, i)]))"
    using srt tm by (auto simp: sorted_append)
  have c5: "\<forall>(d, j)\<in>set (cs_timers s @ [(cs_now s + copy_delay, i)]).
              cs_now s \<le> d \<and> d \<le> cs_now s + copy_delay \<and> j < length (cs_btns s)"
    using tm i by auto
  have c6: "j \<in> snd ` set (cs_timers s @ [(cs_now s + copy_delay, i)])"
    if "j < length (cs_btns s)" "cb_copied ((cs_btns s)[i := copied_btn] ! j)" for j
  proof (cases "j = i")
    case True
    then show ?thesis by force
  next
    case False
    with that mk have "j \<in> snd ` set (cs_timers s)" by simp
    then show ?thesis by auto
  qed
  show ?thesis
    by (rule copy_wfI) (use len c2 c3 c4 c5 c6 in \<open>simp_all add: f\<close>)
qed

lemma copy_wf_timer_fire:
  assumes wf: "copy_wf s"
  shows "copy_wf (timer_fire s)"
proof (cases "cs_timers s")
  case Nil
  with wf show ?thesis by (simp add: timer_fire_def)
next
  case (Cons x r)
  obtain d i where x: "x = (d, i)" by (cases x)
  have f: "cs_links (timer_fire s) = cs_links s" "cs_writes (timer_fire s) = cs_writes s"
    "cs_btns (timer_fire s) = (cs_btns s)[i := idle_btn]" "cs_timers (timer_fire s) = r"
    "cs_now (timer_fire s) = max (cs_now s) d"
    using Cons x by (simp_all add: timer_fire_def)
  note w = copy_wfD [OF wf]
  note len = w(1) and b = w(2) and ws = w(3) and mk = w(6)
  from w(4) Cons x have srt: "sorted (map fst r)" and ge: "\<forall>(d', j)\<in>set r. d \<le> d'"
    by auto
  from w(5) Cons x have le: "cs_now s \<le> d"
    and tm: "\<forall>(d', j)\<in>set r. d' \<le> cs_now s + copy_delay \<and> j < length (cs_btns s)"
    by auto
  have c2: "\<forall>b\<in>set ((cs_btns s)[i := idle_btn]). b = idle_btn \<or> b = copied_btn"
    using b by (rule btns_update_ok) simp
  have c5: "\<forall>(d', j)\<in>set r. max (cs_now s) d \<le> d' \<and> d' \<le> max (cs_now s) d + copy_delay
                               \<and> j < length (cs_btns s)"
    using le ge tm by fastforce
  have c6: "j \<in> snd ` set r"
    if "j < length (cs_btns s)" "cb_copied ((cs_btns s)[i := idle_btn] ! j)" for j
  proof -
    from that have "j \<noteq> i" by auto
    with that mk Cons x show ?thesis by auto
  qed
  show ?thesis
    by (rule copy_wfI) (use len c2 ws srt c5 c6 in \<open>simp_all add: f\<close>)
qed

lemma copy_wf_advance: "copy_wf s \<Longrightarrow> timers_allow t s \<Longrightarrow> copy_wf (s\<lparr>cs_now := t\<rparr>)"
  by (auto simp: copy_wf_iff timers_allow_def list_all_iff)

lemma copy_step_wf:
  "copy_wf s \<Longrightarrow> copy_step e s = Some (s', eff) \<Longrightarrow> copy_wf s'"
proof (cases e)
  case (CopyClick i)
  then show "copy_wf s \<Longrightarrow> copy_step e s = Some (s', eff) \<Longrightarrow> copy_wf s'"
    using copy_wf_click [of s i] by (auto split: if_splits)
qed (auto simp: copy_wf_resolved copy_wf_rejected copy_wf_timer_fire copy_wf_advance split: if_splits)

lemma copy_reachable_wf_aux:
  "copy_reachable s0 s \<Longrightarrow> copy_wf s0 \<Longrightarrow> copy_wf s"
  by (induction rule: copy_reachable.induct) (auto intro: copy_step_wf)

lemma timer_fire_Cons [simp]:
  "cs_timers s = (d, i) # r \<Longrightarrow>
   timer_fire s = s\<lparr>cs_now := max (cs_now s) d, cs_timers := r, cs_btns := (cs_btns s)[i := idle_btn]\<rparr>"
  by (simp add: timer_fire_def)

lemma copy_wf_no_timers_idle:
  assumes "copy_wf s" "cs_timers s = []"
  shows "\<forall>b\<in>set (cs_btns s). b = idle_btn"
proof
  fix b assume b: "b \<in> set (cs_btns s)"
  then obtain j where j: "j < length (cs_btns s)" "cs_btns s ! j = b" by (auto simp: in_set_conv_nth)
  from copy_wfD(6) [OF assms(1)] assms(2) j have "\<not> cb_copied b" by auto
  with copy_wfD(2) [OF assms(1)] b show "b = idle_btn" by auto
qed

lemma copy_settle_run:
  "length (cs_timers s) \<le> n \<Longrightarrow>
   copy_run (replicate (length (cs_timers s)) TimerFire) s = Some (copy_settle n s)
   \<and> cs_timers (copy_settle n s) = []"
proof (induction n arbitrary: s)
  case 0
  then show ?case by simp
next
  case (Suc n)
  show ?case
  proof (cases "cs_timers s")
    case Nil
    then show ?thesis by simp
  next
    case (Cons x r)
    obtain d i where x: "x = (d, i)" by (cases x)
    with Cons have t: "cs_timers (timer_fire s) = r" by simp
    with Cons Suc.prems have "length (cs_timers (timer_fire s)) \<le> n" by simp
    from Suc.IH [OF this] t Cons show ?thesis by simp
  qed
qed

lemma copy_settle_wf_time:
  "copy_wf s \<Longrightarrow> \<forall>(d, i)\<in>set (cs_timers s). d \<le> T \<Longrightarrow> cs_now s \<le> T \<Longrightarrow>
   copy_wf (copy_settle n s) \<and> cs_now (copy_settle n s) \<le> T"
proof (induction n arbitrary: s)
  case 0
  then show ?case by simp
next
  case (Suc n)
  show ?case
  proof (cases "cs_timers s")
    case Nil
    with Suc.prems show ?thesis by simp
  next
    case (Cons x r)
    obtain d i where x: "x = (d, i)" by (cases x)
    have wf': "copy_wf (timer_fire s)" using Suc.prems(1) by (rule copy_wf_timer_fire)
    from Suc.prems(2) Cons x have "\<forall>(d', j)\<in>set (cs_timers (timer_fire s)). d' \<le> T" by auto
    moreover from Suc.prems(2,3) Cons x have "cs_now (timer_fire s) \<le> T" by simp
    ultimately show ?thesis using Suc.IH [OF wf'] Cons by simp
  qed
qed

section \<open>Properties\<close>

text \<open>
  C31: in every state reachable from start-up, each button shows \<open>[COPY]\<close> or is
  marked \<open>[COPIED!]\<close> with a running timer, every pending promise carries its link's
  text, and the timers are sorted by due time, each due within 2000 ms.
\<close>

theorem copy_reachable_wf:
  assumes "copy_reachable (init_copy_buttons links clip t) s"
  shows "copy_wf s"
  using assms copy_wf_init by (rule copy_reachable_wf_aux)

theorem copy_reachable_wf_witness:
  "sorted (map fst (cs_timers (write_resolved 0 (fst (copy_click 0 (init_copy_buttons [''me@x.org''] [] 5))))))"
proof -
  let ?s0 = "init_copy_buttons [''me@x.org''] [] 5"
  have r1: "copy_reachable ?s0 (fst (copy_click 0 ?s0))"
    by (rule copy_reachable.step [OF copy_reachable.init, where e = "CopyClick 0" and eff = "[PreventDefault]"])
       (simp add: init_copy_buttons_def copy_click_def)
  have r2: "copy_reachable ?s0 (write_resolved 0 (fst (copy_click 0 ?s0)))"
    by (rule copy_reachable.step [OF r1, where e = "WriteResolve 0" and eff = "[]"])
       (simp add: init_copy_buttons_def copy_click_def)
  show ?thesis by (rule copy_wfD(4) [OF copy_reachable_wf [OF r2]])
qed

text \<open>
  C32: from every reachable state the running timers can all fire, one after the
  other; then every button shows \<open>[COPY]\<close> again, no more than 2000 ms later.
\<close>

theorem copy_buttons_settle:
  assumes "copy_reachable (init_copy_buttons links clip t) s"
  shows "copy_run (replicate (length (cs_timers s)) TimerFire) s = Some (copy_settle (length (cs_timers s)) s)
         \<and> (\<forall>b\<in>set (cs_btns (copy_settle (length (cs_timers s)) s)). b = idle_btn)
         \<and> cs_now (copy_settle (length (cs_timers s)) s) \<le> cs_now s + copy_delay"
proof -
  have wf: "copy_wf s" using assms copy_wf_init by (rule copy_reachable_wf_aux)
  have run: "copy_run (replicate (length (cs_timers s)) TimerFire) s = Some (copy_settle (length (cs_timers s)) s)"
    and none: "cs_timers (copy_settle (length (cs_timers s)) s) = []"
    using copy_settle_run [of s "length (cs_timers s)"] by simp_all
  have "\<forall>(d, i)\<in>set (cs_timers s). d \<le> cs_now s + copy_delay" using copy_wfD(5) [OF wf] by auto
  from copy_settle_wf_time [OF wf this, of "length (cs_timers s)"]
  have wf': "copy_wf (copy_settle (length (cs_timers s)) s)"
    and tm: "cs_now (copy_settle (length (cs_timers s)) s) \<le> cs_now s + copy_delay" by simp_all
  show ?thesis using run copy_wf_no_timers_idle [OF wf' none] tm by blast
qed

theorem copy_buttons_settle_witness:
  "cs_btns (copy_settle 1 (write_resolved 0 (fst (copy_click 0 (init_copy_buttons [''me@x.org''] [] 5)))))
     = [idle_btn]"
proof -
  let ?s0 = "init_copy_buttons [''me@x.org''] [] 5"
  let ?st = "write_resolved 0 (fst (copy_click 0 ?s0))"
  have r1: "copy_reachable ?s0 (fst (copy_click 0 ?s0))"
    by (rule copy_reachable.step [OF copy_reachable.init, where e = "CopyClick 0" and eff = "[PreventDefault]"])
       (simp add: init_copy_buttons_def copy_click_def)
  have r2: "copy_reachable ?s0 ?st"
    by (rule copy_reachable.step [OF r1, where e = "WriteResolve 0" and eff = "[]"])
       (simp add: init_copy_buttons_def copy_click_def)
  have l: "length (cs_timers ?st) = 1"
    by (simp add: write_resolved_def init_copy_buttons_def copy_click_def)
  have len: "length (cs_btns (copy_settle 1 ?st)) = 1"
    by (simp add: write_resolved_def init_copy_buttons_def copy_click_def timer_fire_def del_nth_def)
  from conjunct1 [OF conjunct2 [OF copy_buttons_settle [OF r2]]] l
  have "\<forall>b\<in>set (cs_btns (copy_settle 1 ?st)). b = idle_btn" by simp
  with len show ?thesis by (cases "cs_btns (copy_settle 1 ?st)") (auto simp: length_Suc_conv)
qed

text \<open>
  C33: a click on button \<open>i\<close> prevents the default and queues a write of the link's
  text; when that write fulfils, the clipboard holds the text, the button shows
  \<open>[COPIED!]\<close> and a timer for it is due 2000 ms later.
\<close>

theorem copy_click_resolve:
  assumes "i < length (cs_btns s)"
  shows "copy_run [CopyClick i, WriteResolve (length (cs_writes s))] s =
           Some (write_resolved (length (cs_writes s)) (fst (copy_click i s)))
         \<and> snd (copy_click i s) = [PreventDefault]
         \<and> cs_clipboard (write_resolved (length (cs_writes s)) (fst (copy_click i s))) = cs_links s ! i
         \<and> cs_btns (write_resolved (length (cs_writes s)) (fst (copy_click i s))) ! i = copied_btn
         \<and> cs_timers (write_resolved (length (cs_writes s)) (fst (copy_click i s))) =
             cs_timers s @ [(cs_now s + copy_delay, i)]"
proof -
  have w: "cs_writes (fst (copy_click i s)) ! length (cs_writes s) = (i, cs_links s ! i)"
    by (simp add: copy_click_def)
  note f = write_resolved_fields [OF w]
  have c: "copy_step (CopyClick i) s = Some (copy_click i s)" using assms by simp
  have "copy_step (WriteResolve (length (cs_writes s))) (fst (copy_click i s)) =
          Some (write_resolved (length (cs_writes s)) (fst (copy_click i s)), [])"
    by (simp add: copy_click_def)
  with c have "copy_run [CopyClick i, WriteResolve (length (cs_writes s))] s =
                 Some (write_resolved (length (cs_writes s)) (fst (copy_click i s)))"
    by (simp add: case_prod_beta)
  then show ?thesis using assms unfolding f by (simp add: copy_click_def)
qed

theorem copy_click_resolve_witness:
  "cs_clipboard (write_resolved 0 (fst (copy_click 0 (init_copy_buttons [''me@x.org''] [] 5)))) = ''me@x.org''
   \<and> cs_btns (write_resolved 0 (fst (copy_click 0 (init_copy_buttons [''me@x.org''] [] 5)))) ! 0 = copied_btn"
  using copy_click_resolve [of 0 "init_copy_buttons [''me@x.org''] [] 5"]
  by (simp add: init_copy_buttons_def)


text \<open>
  C35: a rejected write (permission denied, no clipboard) is silent: no effect, the
  button, the clipboard and the timers stay as they were, the promise is gone.
\<close>

theorem write_reject_silent:
  assumes "copy_step (WriteReject k) s = Some (s', eff)"
  shows "eff = [] \<and> cs_btns s' = cs_btns s \<and> cs_clipboard s' = cs_clipboard s
         \<and> cs_timers s' = cs_timers s \<and> length (cs_writes s') = length (cs_writes s) - 1"
proof -
  from assms have k: "k < length (cs_writes s)" and s': "s' = write_rejected k s" and e: "eff = []"
    by (simp_all split: if_splits)
  then show ?thesis by (simp add: write_rejected_def)
qed

theorem write_reject_silent_witness:
  "cs_btns (write_rejected 0 (fst (copy_click 0 (init_copy_buttons [''me@x.org''] [] 5)))) = [idle_btn]"
proof -
  let ?st = "fst (copy_click 0 (init_copy_buttons [''me@x.org''] [] 5))"
  have "copy_step (WriteReject 0) ?st = Some (write_rejected 0 ?st, [])"
    by (simp add: copy_click_def init_copy_buttons_def)
  from conjunct1 [OF conjunct2 [OF write_reject_silent [OF this]]] show ?thesis
    by (simp add: copy_click_def init_copy_buttons_def)
qed

end
