(* ===== verification/CopyQueue.thy ===== *)
theory CopyQueue
  imports CopyButtons
begin

text \<open>
  The copy buttons when the user stops clicking (src/script.js, lines 145-151).  The
  event loop then has two kinds of pending work.  The first is the pending
  \<open>writeText\<close> promises, whose \<open>then\<close> callbacks each start a timer.  The second is
  the running timers, whose callbacks each restore a button.  \<open>copy_drain\<close> runs that
  work to the end, in one legal order: every pending write fulfils, in call order, at
  the current time, and then every timer fires, earliest first.  It is a
  \<open>function\<close> whose termination is proved.  Each step removes a pending write (which
  adds one timer) or a timer, so twice the number of writes plus the number of timers
  decreases.
\<close>

function copy_drain :: "copy_state \<Rightarrow> copy_state" where
  "copy_drain s =
     (if cs_writes s \<noteq> [] then copy_drain (write_resolved 0 s)
      else if cs_timers s \<noteq> [] then copy_drain (timer_fire s)
      else s)"
  by pat_completeness auto

termination
proof (relation "measure (\<lambda>s. 2 * length (cs_writes s) + length (cs_timers s))")
  fix s :: copy_state
  assume "cs_writes s \<noteq> []"
  then show "(write_resolved 0 s, s) \<in> measure (\<lambda>s. 2 * length (cs_writes s) + length (cs_timers s))"
    by (cases "cs_writes s") (auto simp: write_resolved_def)
next
  fix s :: copy_state
  assume "cs_timers s \<noteq> []"
  then show "(timer_fire s, s) \<in> measure (\<lambda>s. 2 * length (cs_writes s) + length (cs_timers s))"
    by (cases "cs_timers s") (auto simp: timer_fire_def)
qed simp

declare copy_drain.simps [simp del]

section \<open>Lemmas\<close>

lemma timer_fire_frame [simp]:
  "cs_writes (timer_fire s) = cs_writes s" "cs_clipboard (timer_fire s) = cs_clipboard s"
  "cs_links (timer_fire s) = cs_links s"
  by (simp_all add: timer_fire_def split: list.split prod.split)

lemma write_resolved_0:
  assumes "cs_writes s = (i, t) # ws"
  shows "cs_writes (write_resolved 0 s) = ws" "cs_clipboard (write_resolved 0 s) = t"
    and "length (cs_timers (write_resolved 0 s)) = Suc (length (cs_timers s))"
  using assms by (simp_all add: write_resolved_def)

lemma copy_drain_run:
  "copy_run (replicate (length (cs_writes s)) (WriteResolve 0)
             @ replicate (length (cs_writes s) + length (cs_timers s)) TimerFire) s
   = Some (copy_drain s)"
proof (induction s rule: copy_drain.induct)
  case (1 s)
  show ?case
  proof (cases "cs_writes s")
    case (Cons w ws)
    obtain i t where w: "w = (i, t)" by (cases w)
    note f = write_resolved_0 [OF Cons [unfolded w]]
    have "length (cs_writes s) + length (cs_timers s) =
          length (cs_writes (write_resolved 0 s)) + length (cs_timers (write_resolved 0 s))"
      using Cons f by simp
    with "1.IH"(1) Cons f show ?thesis
      by (simp add: copy_drain.simps [of s])
  next
    case Nil
    show ?thesis
    proof (cases "cs_timers s")
      case Nil': Nil
      with Nil show ?thesis by (simp add: copy_drain.simps [of s])
    next
      case (Cons x r)
      obtain d i where x: "x = (d, i)" by (cases x)
      with Cons have "length (cs_timers (timer_fire s)) = length r" by simp
      with "1.IH"(2) Nil Cons show ?thesis
        by (simp add: copy_drain.simps [of s])
    qed
  qed
qed

lemma copy_drain_empty:
  "cs_writes (copy_drain s) = [] \<and> cs_timers (copy_drain s) = []"
proof (induction s rule: copy_drain.induct)
  case (1 s)
  show ?case
  proof (cases "cs_writes s = []")
    case False
    with "1.IH"(1) show ?thesis by (simp add: copy_drain.simps [of s])
  next
    case True
    with "1.IH"(2) show ?thesis by (cases "cs_timers s = []") (simp_all add: copy_drain.simps [of s])
  qed
qed

lemma copy_drain_wf: "copy_wf s \<Longrightarrow> copy_wf (copy_drain s)"
proof (induction s rule: copy_drain.induct)
  case (1 s)
  show ?case
  proof (cases "cs_writes s = []")
    case False
    then have "copy_wf (write_resolved 0 s)" using "1.prems" by (intro copy_wf_resolved) simp_all
    with "1.IH"(1) False show ?thesis by (simp add: copy_drain.simps [of s])
  next
    case True
    show ?thesis
    proof (cases "cs_timers s = []")
      case False
      have "copy_wf (timer_fire s)" using "1.prems" by (rule copy_wf_timer_fire)
      with "1.IH"(2) True False show ?thesis by (simp add: copy_drain.simps [of s])
    next
      case True': True
      with True "1.prems" show ?thesis by (simp add: copy_drain.simps [of s])
    qed
  qed
qed

lemma copy_drain_clipboard:
  "cs_clipboard (copy_drain s) =
     (if cs_writes s = [] then cs_clipboard s else snd (last (cs_writes s)))"
proof (induction s rule: copy_drain.induct)
  case (1 s)
  show ?case
  proof (cases "cs_writes s")
    case (Cons w ws)
    obtain i t where w: "w = (i, t)" by (cases w)
    note f = write_resolved_0 [OF Cons [unfolded w]]
    from "1.IH"(1) Cons f w show ?thesis
      by (simp add: copy_drain.simps [of s])
  next
    case Nil
    then show ?thesis
      using "1.IH"(2) by (simp add: copy_drain.simps [of s])
  qed
qed

section \<open>Properties\<close>

text \<open>
  C15: the copy buttons always quiesce.  From every reachable state, the pending
  writes fulfilling in call order and then the timers firing form a legal run of
  events.  \<open>copy_drain\<close> computes it and terminates.  It ends with no pending write,
  no running timer and every button showing \<open>[COPY]\<close>.  The clipboard holds the
  text of the last write that was pending.
\<close>

theorem copy_drain_quiesces:
  assumes "copy_reachable (init_copy_buttons links clip t) s"
  shows "copy_run (replicate (length (cs_writes s)) (WriteResolve 0)
                   @ replicate (length (cs_writes s) + length (cs_timers s)) TimerFire) s
           = Some (copy_drain s)
         \<and> cs_writes (copy_drain s) = [] \<and> cs_timers (copy_drain s) = []
         \<and> (\<forall>b\<in>set (cs_btns (copy_drain s)). b = idle_btn)
         \<and> cs_clipboard (copy_drain s) =
             (if cs_writes s = [] then cs_clipboard s else snd (last (cs_writes s)))"
proof -
  have wf: "copy_wf s" using assms copy_wf_init by (rule copy_reachable_wf_aux)
  have e: "cs_writes (copy_drain s) = [] \<and> cs_timers (copy_drain s) = []"
    by (rule copy_drain_empty)
  have "\<forall>b\<in>set (cs_btns (copy_drain s)). b = idle_btn"
    using copy_drain_wf [OF wf] e by (intro copy_wf_no_timers_idle) simp_all
  with e show ?thesis by (simp add: copy_drain_run copy_drain_clipboard)
qed

theorem copy_drain_quiesces_witness:
  "cs_clipboard (copy_drain (fst (copy_click 1 (fst (copy_click 0
     (init_copy_buttons [''ann@x.org'', ''bob@y.org''] [] 0)))))) = ''bob@y.org''"
proof -
  let ?s0 = "init_copy_buttons [''ann@x.org'', ''bob@y.org''] [] 0"
  let ?s1 = "fst (copy_click 0 ?s0)"
  let ?s2 = "fst (copy_click 1 ?s1)"
  have r1: "copy_reachable ?s0 ?s1"
    by (rule copy_reachable.step [OF copy_reachable.init, where e = "CopyClick 0" and eff = "[PreventDefault]"])
       (simp add: init_copy_buttons_def copy_click_def)
  have r2: "copy_reachable ?s0 ?s2"
    by (rule copy_reachable.step [OF r1, where e = "CopyClick 1" and eff = "[PreventDefault]"])
       (simp add: init_copy_buttons_def copy_click_def)
  from conjunct2 [OF conjunct2 [OF conjunct2 [OF conjunct2 [OF copy_drain_quiesces [OF r2]]]]]
  show ?thesis by (simp add: init_copy_buttons_def copy_click_def)
qed

end
