(* ===== verification/Reveal.thy ===== *)
theory Reveal
  imports Prelude
begin

text \<open>
  The section reveal of \<open>animateSections\<close> (src/script.js, lines 185-202).  Every
  \<open><section>\<close> is observed by one \<open>IntersectionObserver\<close>.  Its options are
  \<open>threshold: 0.1\<close> and \<open>rootMargin: '0px 0px -100px 0px'\<close>, and its callback sets
  \<open>animationPlayState = 'running'\<close> on the target of every entry with
  \<open>isIntersecting\<close>.  Nothing sets it back.

  The observer is modelled as the W3C Intersection Observer specification describes
  it, in the vertical dimension.  A rendering frame is a scroll offset and a viewport
  height.  The root is the viewport with its bottom edge moved up 100 px.  For every
  target the frame computes \<open>isIntersecting\<close>, an edge-inclusive test, and the
  threshold index: 1 when the visible fraction is at least 1/10, and 0 otherwise.
  An entry is queued when either value differs from the target's previous one.
  Before the first frame the previous values are index -1 and not intersecting.
  The callback runs on the entries in order.  It only ever sets a flag, so delivering
  the entries later, before the next frame, gives the same state.
\<close>

record rv_section =
  rv_top :: int
  rv_height :: int

record rv_obs =
  rv_prev_idx :: int
  rv_prev_inter :: bool
  rv_running :: bool

type_synonym rv_frame = "int \<times> int"

section \<open>Geometry\<close>

definition rv_root_bottom :: "rv_frame \<Rightarrow> int" where
  "rv_root_bottom f = fst f + snd f - 100"

definition rv_intersects :: "rv_section \<Rightarrow> rv_frame \<Rightarrow> bool" where
  "rv_intersects s f =
     (max (rv_top s) (fst f) \<le> min (rv_top s + rv_height s) (rv_root_bottom f))"

text \<open>
  The visible fraction is the overlap over the height; a target of height 0 that
  intersects counts as fully visible.
\<close>

definition rv_threshold_index :: "rv_section \<Rightarrow> rv_frame \<Rightarrow> int" where
  "rv_threshold_index s f =
     (if \<not> rv_intersects s f then 0
      else if rv_height s = 0 then 1
      else if rv_height s \<le> 10 * (min (rv_top s + rv_height s) (rv_root_bottom f) - max (rv_top s) (fst f))
      then 1 else 0)"

section \<open>The observer and the callback\<close>

text \<open>Lines 199-201: observing a section starts it with no previous notification.\<close>

definition rv_init :: "rv_section list \<Rightarrow> rv_obs list" where
  "rv_init secs = map (\<lambda>_. \<lparr>rv_prev_idx = -1, rv_prev_inter = False, rv_running = False\<rparr>) secs"

definition rv_changed :: "rv_section \<Rightarrow> rv_frame \<Rightarrow> rv_obs \<Rightarrow> bool" where
  "rv_changed s f ob =
     (rv_threshold_index s f \<noteq> rv_prev_idx ob \<or> rv_intersects s f \<noteq> rv_prev_inter ob)"

text \<open>The entries of one frame: target index and \<open>isIntersecting\<close>, in observation order.\<close>

definition rv_entries :: "rv_section list \<Rightarrow> rv_frame \<Rightarrow> rv_obs list \<Rightarrow> (nat \<times> bool) list" where
  "rv_entries secs f os =
     map (\<lambda>i. (i, rv_intersects (secs ! i) f))
       (filter (\<lambda>i. rv_changed (secs ! i) f (os ! i)) [0..<length secs])"

definition rv_record :: "rv_section list \<Rightarrow> rv_frame \<Rightarrow> rv_obs list \<Rightarrow> rv_obs list" where
  "rv_record secs f os =
     map (\<lambda>(s, ob). ob\<lparr>rv_prev_idx := rv_threshold_index s f, rv_prev_inter := rv_intersects s f\<rparr>)
       (zip secs os)"

text \<open>Lines 191-197: the callback, over the entries in order.\<close>

definition observer_callback :: "(nat \<times> bool) list \<Rightarrow> rv_obs list \<Rightarrow> rv_obs list" where
  "observer_callback es os =
     fold (\<lambda>(i, inter) os. if inter then os[i := (os ! i)\<lparr>rv_running := True\<rparr>] else os) es os"

definition rv_step :: "rv_section list \<Rightarrow> rv_obs list \<Rightarrow> rv_frame \<Rightarrow> rv_obs list" where
  "rv_step secs os f = observer_callback (rv_entries secs f os) (rv_record secs f os)"

definition rv_run :: "rv_section list \<Rightarrow> rv_frame list \<Rightarrow> rv_obs list" where
  "rv_run secs fs = fold (\<lambda>f os. rv_step secs os f) fs (rv_init secs)"

section \<open>Lemmas\<close>

lemma length_observer_callback [simp]: "length (observer_callback es os) = length os"
proof -
  have "length (fold (\<lambda>(i, inter) os. if inter then os[i := (os ! i)\<lparr>rv_running := True\<rparr>] else os) es os)
        = length os" for os
    by (induction es arbitrary: os) auto
  then show ?thesis by (simp add: observer_callback_def)
qed

lemma observer_callback_nth:
  "i < length os \<Longrightarrow>
   observer_callback es os ! i = (if (i, True) \<in> set es then (os ! i)\<lparr>rv_running := True\<rparr> else os ! i)"
proof (induction es arbitrary: os)
  case Nil
  then show ?case by (simp add: observer_callback_def)
next
  case (Cons e es)
  obtain j b where e: "e = (j, b)" by (cases e)
  let ?os = "if b then os[j := (os ! j)\<lparr>rv_running := True\<rparr>] else os"
  have eq: "observer_callback (e # es) os = observer_callback es ?os"
    by (simp add: observer_callback_def e)
  have "i < length ?os" using Cons.prems by simp
  from Cons.IH [OF this] Cons.prems show ?case
    unfolding eq by (cases b; cases "i = j") (auto simp: e nth_list_update)
qed

lemma length_rv_record [simp]:
  "length os = length secs \<Longrightarrow> length (rv_record secs f os) = length secs"
  by (simp add: rv_record_def)

lemma rv_record_nth:
  "i < length secs \<Longrightarrow> length os = length secs \<Longrightarrow>
   rv_record secs f os ! i =
     (os ! i)\<lparr>rv_prev_idx := rv_threshold_index (secs ! i) f, rv_prev_inter := rv_intersects (secs ! i) f\<rparr>"
  by (simp add: rv_record_def)

lemma rv_entries_true:
  "i < length secs \<Longrightarrow> length os = length secs \<Longrightarrow>
   ((i, True) \<in> set (rv_entries secs f os)) = (rv_changed (secs ! i) f (os ! i) \<and> rv_intersects (secs ! i) f)"
  by (auto simp: rv_entries_def)

lemma length_rv_step [simp]: "length os = length secs \<Longrightarrow> length (rv_step secs os f) = length secs"
  by (simp add: rv_step_def)

lemma rv_step_nth:
  assumes "i < length secs" "length os = length secs"
  shows "rv_prev_idx (rv_step secs os f ! i) = rv_threshold_index (secs ! i) f"
    and "rv_prev_inter (rv_step secs os f ! i) = rv_intersects (secs ! i) f"
    and "rv_running (rv_step secs os f ! i) =
           (rv_running (os ! i) \<or> (rv_changed (secs ! i) f (os ! i) \<and> rv_intersects (secs ! i) f))"
  using assms
  by (auto simp: rv_step_def observer_callback_nth rv_record_nth rv_entries_true)

lemma rv_threshold_index_range: "rv_threshold_index s f = 0 \<or> rv_threshold_index s f = 1"
  by (simp add: rv_threshold_index_def)

lemma length_rv_run [simp]: "length (rv_run secs fs) = length secs"
proof -
  have "length os = length secs \<Longrightarrow> length (fold (\<lambda>f os. rv_step secs os f) fs os) = length secs" for os
    by (induction fs arbitrary: os) simp_all
  then show ?thesis by (simp add: rv_run_def rv_init_def)
qed

lemma rv_run_snoc: "rv_run secs (fs @ [f]) = rv_step secs (rv_run secs fs) f"
  by (simp add: rv_run_def)

lemma rv_run_nth:
  assumes i: "i < length secs"
  shows "rv_running (rv_run secs fs ! i) = (\<exists>f\<in>set fs. rv_intersects (secs ! i) f)
         \<and> rv_prev_inter (rv_run secs fs ! i) = (fs \<noteq> [] \<and> rv_intersects (secs ! i) (last fs))
         \<and> rv_prev_idx (rv_run secs fs ! i) = (if fs = [] then -1 else rv_threshold_index (secs ! i) (last fs))"
proof (induction fs rule: rev_induct)
  case Nil
  with i show ?case by (simp add: rv_run_def rv_init_def)
next
  case (snoc f fs)
  note n = rv_step_nth [OF i length_rv_run [of secs fs]]
  have keep: "rv_running (rv_run secs fs ! i)"
    if "rv_intersects (secs ! i) f" "\<not> rv_changed (secs ! i) f (rv_run secs fs ! i)"
  proof -
    from that have "rv_prev_inter (rv_run secs fs ! i)" by (simp add: rv_changed_def)
    with snoc.IH have "fs \<noteq> [] \<and> rv_intersects (secs ! i) (last fs)" by simp
    then have "\<exists>g\<in>set fs. rv_intersects (secs ! i) g" using last_in_set by blast
    with snoc.IH show ?thesis by simp
  qed
  have "rv_running (rv_step secs (rv_run secs fs) f ! i) =
          (\<exists>g\<in>set (fs @ [f]). rv_intersects (secs ! i) g)"
    unfolding n(3) using snoc.IH keep by auto
  then show ?case by (simp add: rv_run_snoc n)
qed

section \<open>Properties\<close>

text \<open>
  C40: after any sequence of frames a section's animation runs exactly when the section
  touched the root in one of the frames.  Once started it never stops (no un-reveal),
  and the threshold of 0.1 plays no part in it.
\<close>

theorem reveal_iff_intersected:
  assumes "i < length secs"
  shows "rv_running (rv_run secs fs ! i) = (\<exists>f\<in>set fs. rv_intersects (secs ! i) f)"
  using rv_run_nth [OF assms, of fs] by simp

theorem reveal_iff_intersected_witness:
  "rv_running (rv_run [\<lparr>rv_top = 750, rv_height = 1000\<rparr>] [(0, 900)] ! 0)
   \<and> rv_threshold_index \<lparr>rv_top = 750, rv_height = 1000\<rparr> (0, 900) = 0"
proof -
  have "rv_running (rv_run [\<lparr>rv_top = 750, rv_height = 1000\<rparr>] [(0, 900)] ! 0)"
    using reveal_iff_intersected [of 0 "[\<lparr>rv_top = 750, rv_height = 1000\<rparr>]" "[(0, 900)]"]
    by (simp add: rv_intersects_def rv_root_bottom_def)
  moreover have "rv_threshold_index \<lparr>rv_top = 750, rv_height = 1000\<rparr> (0, 900) = 0"
    by (simp add: rv_threshold_index_def rv_intersects_def rv_root_bottom_def)
  ultimately show ?thesis ..
qed

end
