(* ===== verification/Browser.thy ===== *)
theory Browser
  imports Page CopyQueue Reveal
begin

text \<open>
  The whole script as the browser runs it.  The \<open>DOMContentLoaded\<close> listener
  (src/script.js, lines 2-9) calls the six initialisers in order.  The browser state
  holds the page of theory \<open>Page\<close> (navigation, badges, search, log, errors), the
  copy buttons, the status bar and the observer of the reveal, with the geometry of
  the observed sections.  An event is a page event, a copy-button event, a tick of
  the clock interval at a time, or a rendering frame.  The copy buttons' effects join
  the page's log.  A rejected clipboard write has no handler, so the browser reports
  it as an unhandled rejection; the model records it in the page's error list.
\<close>

record browser =
  br_page :: page
  br_copy :: copy_state
  br_clock :: clock_state
  br_reveal :: "rv_obs list"
  br_sections :: "rv_section list"

datatype browser_event =
    PageEv event
  | CopyEv copy_event
  | ClockTick nat
  | Frame rv_frame

section \<open>Start-up and dispatch\<close>

text \<open>
  Lines 2-9 at time \<open>ms\<close>: the page (navigation, skills, search and the status bar's
  ids), then the copy buttons on the contact links, then the status bar on the
  document the search left, then the observer on the sections.
\<close>

definition browser_init ::
  "hour_cycle \<Rightarrow> document \<Rightarrow> nav_link list \<Rightarrow> badge list \<Rightarrow> js_string list \<Rightarrow>
   js_string list \<Rightarrow> js_string \<Rightarrow> js_string \<Rightarrow> rv_section list \<Rightarrow> nat \<Rightarrow> browser" where
  "browser_init hc d ls bs xs links clip pre secs ms =
     \<lparr>br_page = page_init d ls bs xs,
      br_copy = init_copy_buttons links clip ms,
      br_clock = init_system_status hc (fst (init_search d)) pre ms,
      br_reveal = rv_init secs,
      br_sections = secs\<rparr>"

text \<open>The error a copy-button event reports: only a rejected write has one.\<close>

fun copy_report :: "copy_event \<Rightarrow> dom_error list" where
  "copy_report (WriteReject k) = [NotAllowedError]"
| "copy_report _ = []"

fun browser_step :: "hour_cycle \<Rightarrow> browser \<Rightarrow> browser_event \<Rightarrow> browser option" where
  "browser_step hc b (PageEv e) = Some (b\<lparr>br_page := page_step (br_page b) e\<rparr>)"
| "browser_step hc b (CopyEv e) =
     (case copy_step e (br_copy b) of
        None \<Rightarrow> None
      | Some (c, eff) \<Rightarrow>
          Some (b\<lparr>br_copy := c,
                  br_page := (br_page b)\<lparr>pg_log := pg_log (br_page b) @ eff,
                                        pg_errors := pg_errors (br_page b) @ copy_report e\<rparr>\<rparr>))"
| "browser_step hc b (ClockTick t) = Some (b\<lparr>br_clock := update_time hc t (br_clock b)\<rparr>)"
| "browser_step hc b (Frame f) = Some (b\<lparr>br_reveal := rv_step (br_sections b) (br_reveal b) f\<rparr>)"

inductive browser_reachable :: "hour_cycle \<Rightarrow> browser \<Rightarrow> browser \<Rightarrow> bool" for hc b0 where
  init: "browser_reachable hc b0 b0"
| step: "browser_reachable hc b0 b \<Longrightarrow> browser_step hc b e = Some b' \<Longrightarrow> browser_reachable hc b0 b'"

section \<open>The invariant of the whole page\<close>

text \<open>
  At most one active link, search rows consistent with the badges, well-formed copy
  buttons, the status bar on the page's document, one observer record per section.
\<close>

definition browser_wf :: "browser \<Rightarrow> bool" where
  "browser_wf b =
     (hrefs_distinct (pg_links (br_page b))
      \<and> card (active_links (pg_links (br_page b))) \<le> 1
      \<and> results_ok (br_page b)
      \<and> copy_wf (br_copy b)
      \<and> clk_doc (br_clock b) = pg_doc (br_page b)
      \<and> length (br_reveal b) = length (br_sections b))"

section \<open>Lemmas\<close>

lemma clk_doc_update_time [simp]: "clk_doc (update_time hc t st) = clk_doc st"
  by (simp add: update_time_def split: option.split)

lemma clk_doc_init_system_status:
  "clk_doc (init_system_status hc d pre ms) = d\<lparr>doc_ids := doc_ids d @ status_ids\<rparr>"
  by (simp add: init_system_status_def status_ids_def)

lemma results_ok_report_log [simp]:
  "results_ok (p\<lparr>pg_log := l, pg_errors := es\<rparr>) = results_ok p"
  by (simp add: results_ok_def split: option.split)

lemma results_ok_init: "results_ok (page_init d ls bs xs)"
  by (simp add: results_ok_def init_search_def split: sum.split option.split)

lemma browser_wf_init:
  assumes "hrefs_distinct ls" "card (active_links ls) \<le> 1"
  shows "browser_wf (browser_init hc d ls bs xs links clip pre secs ms)"
  using assms
  by (simp add: browser_wf_def browser_init_def results_ok_init clk_doc_init_system_status rv_init_def
                copy_wf_init)

lemma browser_step_wf:
  assumes wf: "browser_wf b" and st: "browser_step hc b e = Some b'"
  shows "browser_wf b'"
proof (cases e)
  case (PageEv pe)
  from wf have d: "hrefs_distinct (pg_links (br_page b))" and c: "card (active_links (pg_links (br_page b))) \<le> 1"
    by (simp_all add: browser_wf_def)
  have "hrefs_distinct (pg_links (page_step (br_page b) pe))"
    using d page_step_hrefs [of "br_page b" pe] by (simp add: hrefs_distinct_def)
  moreover have "card (active_links (pg_links (page_step (br_page b) pe))) \<le> 1"
    using d c by (rule page_step_single_active)
  moreover have "results_ok (page_step (br_page b) pe)"
    using wf by (intro page_step_results_ok) (simp add: browser_wf_def)
  ultimately show ?thesis using wf st PageEv by (auto simp: browser_wf_def)
next
  case (CopyEv ce)
  then obtain c eff where cs: "copy_step ce (br_copy b) = Some (c, eff)"
    and b': "b' = b\<lparr>br_copy := c, br_page := (br_page b)\<lparr>pg_log := pg_log (br_page b) @ eff,
                       pg_errors := pg_errors (br_page b) @ copy_report ce\<rparr>\<rparr>"
    using st by (auto split: option.splits)
  have "copy_wf c" using wf cs by (intro copy_step_wf [of "br_copy b" ce c eff]) (simp_all add: browser_wf_def)
  with wf show ?thesis by (simp add: b' browser_wf_def)
next
  case (ClockTick t)
  with wf st show ?thesis by (auto simp: browser_wf_def)
next
  case (Frame f)
  with wf st show ?thesis by (auto simp: browser_wf_def)
qed

lemma browser_reachable_wf_aux:
  "browser_reachable hc b0 b \<Longrightarrow> browser_wf b0 \<Longrightarrow> browser_wf b"
  by (induction rule: browser_reachable.induct) (auto intro: browser_step_wf)

lemma browser_step_sections:
  "browser_step hc b e = Some b' \<Longrightarrow> br_sections b' = br_sections b"
  by (cases e) (auto split: option.splits)

lemma browser_reachable_sections:
  "browser_reachable hc b0 b \<Longrightarrow> br_sections b = br_sections b0"
  by (induction rule: browser_reachable.induct) (auto dest: browser_step_sections)

lemma copy_report_nonempty: "copy_report e \<noteq> [] \<Longrightarrow> \<exists>k. e = WriteReject k"
  by (cases e) simp_all

section \<open>Properties\<close>





end
