(* ===== verification/Selectors.thy ===== *)
theory Selectors
  imports Dom
begin

text \<open>
  The document as a tree, and the selectors the script passes to
  \<open>document.querySelector\<close> and \<open>document.querySelectorAll\<close>.  These are the
  literals \<open>'nav a'\<close>, \<open>'section'\<close>, \<open>'.skill-badge'\<close>,
  \<open>'.skill-badge.selected'\<close>, \<open>'#skills'\<close>, \<open>'.contact-item a'\<close>, \<open>'header'\<close> and
  \<open>'.experience-item h3'\<close> (src/script.js, lines 13, 37, 57, 68-69, 84, 113, 136, 199,
  216, 226, 233), and the hrefs of the navigation links (line 19).

  A node is an element (tag name, attributes other than \<open>class\<close>, class list,
  children) or a text node; the \<open>class\<close> attribute is kept as its token list, the
  \<open>classList\<close>.  The selectors modelled are the fragment of CSS the literals use: compound
  selectors of a type, classes and ids, joined by the descendant combinator.  The
  parser \<open>parse_css\<close> answers \<open>CssSel\<close> for a selector of that fragment.  It answers
  \<open>CssInvalid\<close> for a string that throws \<open>SyntaxError\<close>: only name characters,
  \<open>.\<close>, \<open>#\<close> and white space, but not a selector.  It answers \<open>CssOther\<close> for a
  string with any other character (\<open>>\<close>, \<open>[\<close>, \<open>:\<close>, \<open>*\<close>, \<open>,\<close>, escapes, ...),
  which this model does not decide.  \<open>querySelectorAll\<close> is the preorder list of
  the matching elements (\<open>query_all\<close>).  \<open>querySelector\<close> is a depth-first search
  that stops at the first match (\<open>qs_node\<close>, \<open>qs_list\<close>).
  \<open>tree_document\<close> builds the abstract \<open>document\<close> of theory \<open>Dom\<close> from a tree.
\<close>

section \<open>Selectors\<close>

datatype simple_sel = SType js_string | SClass js_string | SId js_string

type_synonym compound = "simple_sel list"

datatype css_parse = CssInvalid | CssOther | CssSel "compound list"

definition css_ws :: "char \<Rightarrow> bool" where
  "css_ws c = ((of_char c :: nat) \<in> {9, 10, 12, 13, 32})"

definition sel_char :: "char \<Rightarrow> bool" where
  "sel_char c = (css_name_char c \<or> c = CHR ''.'' \<or> c = CHR ''#'' \<or> css_ws c)"

text \<open>The words of a selector: the runs between white space.\<close>

function css_words :: "js_string \<Rightarrow> js_string list" where
  "css_words s =
     (let s' = dropWhile css_ws s in
      if s' = [] then []
      else takeWhile (\<lambda>c. \<not> css_ws c) s' # css_words (dropWhile (\<lambda>c. \<not> css_ws c) s'))"
  by pat_completeness auto

termination
proof (relation "measure length")
  fix s s' :: js_string
  assume s': "s' = dropWhile css_ws s" and ne: "s' \<noteq> []"
  from ne obtain c r where cr: "s' = c # r" by (meson neq_Nil_conv)
  have "\<not> css_ws (hd s')" using ne unfolding s' by (rule hd_dropWhile)
  with cr have "\<not> css_ws c" by simp
  with cr have "length (dropWhile (\<lambda>c. \<not> css_ws c) s') \<le> length r" by (simp add: length_dropWhile_le)
  moreover have "length s' \<le> length s" unfolding s' by (rule length_dropWhile_le)
  ultimately show "(dropWhile (\<lambda>c. \<not> css_ws c) s', s) \<in> measure length" using cr by simp
qed simp

declare css_words.simps [simp del]

text \<open>Class and id parts of a compound selector, each \<open>.\<close> or \<open>#\<close> followed by an identifier.\<close>

function parse_subs :: "js_string \<Rightarrow> simple_sel list option" where
  "parse_subs [] = Some []"
| "parse_subs (c # r) =
     (if c = CHR ''.'' \<or> c = CHR ''#'' then
        (let n = takeWhile css_name_char r in
         if css_ident n
         then map_option (Cons (if c = CHR ''.'' then SClass n else SId n))
                (parse_subs (dropWhile css_name_char r))
         else None)
      else None)"
  by pat_completeness auto

termination
  by (relation "measure length") (simp_all add: le_imp_less_Suc length_dropWhile_le)

definition parse_compound :: "js_string \<Rightarrow> compound option" where
  "parse_compound w =
     (let t = takeWhile css_name_char w; r = dropWhile css_name_char w in
      if t = [] then (if r = [] then None else parse_subs r)
      else if css_ident t then map_option (Cons (SType t)) (parse_subs r)
      else None)"

definition parse_css :: "js_string \<Rightarrow> css_parse" where
  "parse_css s =
     (if \<not> list_all sel_char s then CssOther
      else (let ws = css_words s in
            if ws = [] then CssInvalid
            else (case those (map parse_compound ws) of
                    None \<Rightarrow> CssInvalid
                  | Some cs \<Rightarrow> CssSel cs)))"

section \<open>The tree\<close>

type_synonym attrs = "(js_string \<times> js_string) list"

datatype node = Elem js_string attrs "js_string list" "node list" | Text js_string

fun tag_of :: "node \<Rightarrow> js_string" where
  "tag_of (Elem t i cs ns) = t"
| "tag_of (Text s) = []"

text \<open>\<open>getAttribute\<close>: the value of an attribute, \<open>null\<close> when it is absent.\<close>

fun get_attribute :: "node \<Rightarrow> js_string \<Rightarrow> js_string option" where
  "get_attribute (Elem t a cs ns) k = map_of a k"
| "get_attribute (Text s) k = None"

fun id_of :: "node \<Rightarrow> js_string option" where
  "id_of (Elem t a cs ns) = map_of a ''id''"
| "id_of (Text s) = None"

fun classes_of :: "node \<Rightarrow> js_string list" where
  "classes_of (Elem t i cs ns) = cs"
| "classes_of (Text s) = []"

text \<open>\<open>textContent\<close>: the text of the descendant text nodes, in order.\<close>

fun text_content :: "node \<Rightarrow> js_string" where
  "text_content (Text s) = s"
| "text_content (Elem t i cs ns) = concat (map text_content ns)"

text \<open>Every element below a node with its ancestors (innermost first), in preorder.\<close>

fun descendants :: "node list \<Rightarrow> node \<Rightarrow> (node \<times> node list) list" where
  "descendants anc (Text s) = []"
| "descendants anc (Elem t i cs ns) =
     (Elem t i cs ns, anc) # concat (map (descendants (Elem t i cs ns # anc)) ns)"

text \<open>The elements below a node in preorder, without their ancestors.\<close>

fun pre_node :: "node \<Rightarrow> node list" where
  "pre_node (Text s) = []"
| "pre_node (Elem t i cs ns) = Elem t i cs ns # concat (map pre_node ns)"

definition doc_elems :: "node list \<Rightarrow> (node \<times> node list) list" where
  "doc_elems ns = concat (map (descendants []) ns)"

section \<open>Matching\<close>

text \<open>Type selectors match HTML elements ASCII case-insensitively; tag names are lower case.\<close>

definition ascii_lower :: "js_string \<Rightarrow> js_string" where
  "ascii_lower s =
     map (\<lambda>c. if 65 \<le> (of_char c :: nat) \<and> (of_char c :: nat) \<le> 90 then char_of (of_char c + (32 :: nat)) else c) s"

fun simple_match :: "simple_sel \<Rightarrow> node \<Rightarrow> bool" where
  "simple_match (SType t) n = (ascii_lower t = tag_of n)"
| "simple_match (SClass c) n = (c \<in> set (classes_of n))"
| "simple_match (SId i) n = (id_of n = Some i)"

definition compound_match :: "compound \<Rightarrow> node \<Rightarrow> bool" where
  "compound_match c n = list_all (\<lambda>s. simple_match s n) c"

text \<open>The outer compounds, innermost first, against the ancestors, innermost first.\<close>

fun anc_match :: "compound list \<Rightarrow> node list \<Rightarrow> bool" where
  "anc_match [] as = True"
| "anc_match (c # cs) [] = False"
| "anc_match (c # cs) (a # as) =
     (if compound_match c a then anc_match cs as else anc_match (c # cs) as)"

definition sel_match :: "compound list \<Rightarrow> node \<Rightarrow> node list \<Rightarrow> bool" where
  "sel_match sel n anc =
     (sel \<noteq> [] \<and> compound_match (last sel) n \<and> anc_match (rev (butlast sel)) anc)"

text \<open>\<open>querySelectorAll\<close>: the matching elements in document order.\<close>

definition query_all :: "node list \<Rightarrow> compound list \<Rightarrow> node list" where
  "query_all ns sel = map fst (filter (\<lambda>(n, anc). sel_match sel n anc) (doc_elems ns))"

text \<open>\<open>querySelector\<close>: depth-first, stopping at the first match.\<close>

fun qs_node :: "compound list \<Rightarrow> node list \<Rightarrow> node \<Rightarrow> node option"
  and qs_list :: "compound list \<Rightarrow> node list \<Rightarrow> node list \<Rightarrow> node option" where
  "qs_node sel anc (Text s) = None"
| "qs_node sel anc (Elem t i cs ns) =
     (if sel_match sel (Elem t i cs ns) anc then Some (Elem t i cs ns)
      else qs_list sel (Elem t i cs ns # anc) ns)"
| "qs_list sel anc [] = None"
| "qs_list sel anc (n # ns) =
     (case qs_node sel anc n of Some x \<Rightarrow> Some x | None \<Rightarrow> qs_list sel anc ns)"

section \<open>The abstract document of a tree\<close>

text \<open>
  The ids in document order, the sections with their layout, and \<open>querySelector\<close>
  on the tree for every selector of the fragment; \<open>other\<close> answers the rest.
\<close>

definition tree_ids :: "node list \<Rightarrow> js_string list" where
  "tree_ids ns = List.map_filter (\<lambda>(n, anc). id_of n) (doc_elems ns)"

definition tree_document ::
  "node list \<Rightarrow> page_section list \<Rightarrow> (js_string \<Rightarrow> dom_error + bool) \<Rightarrow> document" where
  "tree_document ns secs other =
     \<lparr>doc_ids = tree_ids ns, doc_sections = secs,
      doc_select = (\<lambda>s. case parse_css s of
                          CssInvalid \<Rightarrow> Inl SyntaxError
                        | CssOther \<Rightarrow> other s
                        | CssSel sel \<Rightarrow> Inr (qs_list sel [] ns \<noteq> None))\<rparr>"

section \<open>\<open>window.getExperience\<close> on the tree\<close>

text \<open>
  Lines 232-235: the \<open>textContent\<close> of every \<open>h3\<close> inside an element of class
  \<open>experience-item\<close>, in document order.
\<close>

definition tree_get_experience :: "node list \<Rightarrow> js_string list" where
  "tree_get_experience ns =
     map text_content (query_all ns [[SClass ''experience-item''], [SType ''h3'']])"

section \<open>Lemmas\<close>

lemma descendants_fst [simp]: "map fst (descendants anc n) = pre_node n"
  by (induction anc n rule: descendants.induct) (simp_all add: map_concat cong: map_cong)

lemma qs_find:
  "qs_node sel anc n = map_option fst (find (\<lambda>(n, a). sel_match sel n a) (descendants anc n))"
  "qs_list sel anc ns =
     map_option fst (find (\<lambda>(n, a). sel_match sel n a) (concat (map (descendants anc) ns)))"
  by (induction sel anc n and sel anc ns rule: qs_node_qs_list.induct)
     (auto simp: find_append split: option.split)

lemma sel_match_single [simp]: "sel_match [c] n anc = compound_match c n"
  by (simp add: sel_match_def)

text \<open>A selector of one compound does not look at the ancestors.\<close>

lemma query_all_single:
  "query_all ns [c] = filter (compound_match c) (concat (map pre_node ns))"
proof -
  have "map fst (filter (\<lambda>(n, anc). compound_match c n) xs) = filter (compound_match c) (map fst xs)"
    for xs :: "(node \<times> node list) list"
    by (induction xs) auto
  then show ?thesis by (simp add: query_all_def doc_elems_def map_concat comp_def)
qed

lemma compound_match_children:
  "compound_match c (Elem t i cs ns) = compound_match c (Elem t i cs ns')"
proof -
  have "simple_match s (Elem t i cs ns) = simple_match s (Elem t i cs ns')" for s
    by (cases s) simp_all
  then show ?thesis by (simp add: compound_match_def)
qed

lemma css_ident_start_takeWhile:
  assumes h: "css_ident_start (takeWhile css_name_char r)"
  shows "css_ident_start r"
proof (cases r)
  case r: (Cons c r')
  show ?thesis
  proof (cases "css_name_char c")
    case True
    show ?thesis
    proof (cases "c = CHR ''-''")
      case dash: True
      show ?thesis
      proof (cases r')
        case (Cons d r'')
        with h r dash True show ?thesis
          by (auto simp: css_escape_start_def css_name_char_def split: if_splits)
      qed (use h r True in simp)
    next
      case False
      with h r True show ?thesis by (auto simp: css_escape_start_def css_name_char_def css_name_start_def)
    qed
  qed (use h r in simp)
qed (use h in simp)

lemma css_words_Nil [simp]: "css_words [] = []"
  by (simp add: css_words.simps [of "[]"])

lemma css_name_char_not_ws: "css_name_char c \<Longrightarrow> \<not> css_ws c"
  by (auto simp: css_name_char_def css_name_start_def css_ws_def Let_def)

lemma css_ws_hash [simp]: "\<not> css_ws CHR ''#''" and css_name_char_hash [simp]: "\<not> css_name_char CHR ''#''"
  by (simp_all add: css_ws_def css_name_char_def css_name_start_def)

lemma takeWhile_name_ws:
  "takeWhile css_name_char (takeWhile (\<lambda>c. \<not> css_ws c) r) = takeWhile css_name_char r"
  by (induction r) (auto dest: css_name_char_not_ws)

lemma css_words_hash_word:
  "\<exists>ws. css_words (CHR ''#'' # r) = (CHR ''#'' # takeWhile (\<lambda>c. \<not> css_ws c) r) # ws"
  by (simp add: css_words.simps [of "CHR ''#'' # r"])

lemma parse_css_hash_ident:
  assumes "css_ident r"
  shows "parse_css (CHR ''#'' # r) = CssSel [[SId r]]"
proof -
  have n: "list_all css_name_char r" using assms by (simp add: css_ident_def)
  then have t: "takeWhile (\<lambda>c. \<not> css_ws c) r = r" and d: "dropWhile (\<lambda>c. \<not> css_ws c) r = []"
    by (induction r) (auto dest: css_name_char_not_ws)
  have w: "css_words (CHR ''#'' # r) = [CHR ''#'' # r]"
    by (simp add: css_words.simps [of "CHR ''#'' # r"] t d)
  have t': "takeWhile css_name_char r = r" and d': "dropWhile css_name_char r = []"
    using n by (induction r) auto
  have "parse_compound (CHR ''#'' # r) = Some [SId r]"
    using assms by (simp add: parse_compound_def t' d' Let_def)
  moreover have "list_all sel_char (CHR ''#'' # r)"
    using n by (auto simp: sel_char_def list_all_iff)
  ultimately show ?thesis by (simp add: parse_css_def w)
qed

lemma parse_css_hash_invalid:
  assumes "\<not> css_ident_start r"
  shows "parse_css (CHR ''#'' # r) \<in> {CssInvalid, CssOther}"
proof -
  obtain ws where w: "css_words (CHR ''#'' # r) = (CHR ''#'' # takeWhile (\<lambda>c. \<not> css_ws c) r) # ws"
    using css_words_hash_word by blast
  have "\<not> css_ident (takeWhile css_name_char r)"
    using assms css_ident_start_takeWhile by (auto simp: css_ident_def)
  then have "parse_compound (CHR ''#'' # takeWhile (\<lambda>c. \<not> css_ws c) r) = None"
    by (simp add: parse_compound_def takeWhile_name_ws)
  then show ?thesis by (simp add: parse_css_def w)
qed

lemma parse_css_Nil: "parse_css [] = CssInvalid"
  by (simp add: parse_css_def)

lemma mem_map_filter: "y \<in> set (List.map_filter f xs) \<longleftrightarrow> (\<exists>x\<in>set xs. f x = Some y)"
  by (induction xs) (auto simp: List.map_filter_simps split: option.split)

lemma qs_list_found:
  "qs_list sel [] ns \<noteq> None \<longleftrightarrow> (\<exists>(n, a)\<in>set (doc_elems ns). sel_match sel n a)"
  by (auto simp: qs_find(2) doc_elems_def find_None_iff)

lemma tree_ids_qs:
  "i \<in> set (tree_ids ns) \<longleftrightarrow> qs_list [[SId i]] [] ns \<noteq> None"
proof -
  have "(\<exists>(n, a)\<in>set (doc_elems ns). sel_match [[SId i]] n a) \<longleftrightarrow>
          (\<exists>x\<in>set (doc_elems ns). (case x of (n, a) \<Rightarrow> id_of n) = Some i)"
    by (simp add: compound_match_def split_def)
  then show ?thesis unfolding qs_list_found tree_ids_def mem_map_filter by (rule sym)
qed

lemma parse_selector_cases:
  "parse_selector s = SelId r \<Longrightarrow> s = CHR ''#'' # r \<and> css_ident r"
  "parse_selector s = SelInvalid \<Longrightarrow> s = [] \<or> (\<exists>r. s = CHR ''#'' # r \<and> \<not> css_ident_start r)"
  "parse_selector s = SelOther t \<Longrightarrow> t = s"
  by (cases s; auto split: if_splits)+

lemma anc_match_single: "anc_match [c] as \<longleftrightarrow> (\<exists>a\<in>set as. compound_match c a)"
  by (induction as) auto

text \<open>
  A descendant selector of two compounds: the element matches the second, some
  ancestor the first.  An element below two matching ancestors is listed once.
\<close>

lemma query_all_descendant:
  "query_all ns [c1, c2] =
     map fst (filter (\<lambda>(n, anc). compound_match c2 n \<and> (\<exists>a\<in>set anc. compound_match c1 a))
       (doc_elems ns))"
  by (simp add: query_all_def sel_match_def anc_match_single)

lemma parse_experience_selector:
  "parse_css ''.experience-item h3'' = CssSel [[SClass ''experience-item''], [SType ''h3'']]"
  by code_simp

lemma tree_get_experience_example:
  "tree_get_experience
     [Elem ''div'' [] [''experience-item'']
        [Elem ''div'' [] [''experience-item''] [Elem ''h3'' [] [] [Text ''SRE'']],
         Elem ''h3'' [] [] [Text ''Ops'']],
      Elem ''h3'' [] [] [Text ''Other'']] = [''SRE'', ''Ops'']"
  by code_simp

section \<open>Properties\<close>




end
