(* ===== verification/BadgeTree.thy ===== *)
theory BadgeTree
  imports Selectors Search
begin

text \<open>
  The skill badges read off the document tree.  The script never keeps a list of
  badges: every call queries \<open>'.skill-badge'\<close> and \<open>'.skill-badge.selected'\<close> again
  (src/script.js, lines 57, 68-69, 113 and 226).  \<open>badges_of\<close> is that query, with
  each element's \<open>textContent\<close> and whether it carries the class \<open>selected\<close>.  This
  theory runs the click listener (lines 59-63), \<open>updateSkillMetrics\<close> (lines 66-80)
  and \<open>clearSelectedSkills\<close> (lines 225-230) on the tree itself.  It proves that
  \<open>badges_of\<close> maps each of them to the operation of theory \<open>Skills\<close> on the badge
  list.  That is the justification of the list model used by \<open>Page\<close> and \<open>Browser\<close>.
\<close>

section \<open>The tree operations\<close>

definition badge_sel :: compound where
  "badge_sel = [SClass ''skill-badge'']"

definition selected_sel :: compound where
  "selected_sel = [SClass ''skill-badge'', SClass ''selected'']"

definition badge_of :: "node \<Rightarrow> badge" where
  "badge_of n = \<lparr>badge_text = text_content n, selected = (''selected'' \<in> set (classes_of n))\<rparr>"

text \<open>\<open>document.querySelectorAll('.skill-badge')\<close>, each element read as a badge.\<close>

definition badges_of :: "node list \<Rightarrow> badge list" where
  "badges_of ns = map badge_of (query_all ns [badge_sel])"

text \<open>\<open>updateSkillMetrics\<close>: the two queries of lines 68-69 and the log line.\<close>

definition tree_metrics :: "node list \<Rightarrow> metrics" where
  "tree_metrics ns =
     (let s = length (query_all ns [selected_sel]); t = length (query_all ns [badge_sel])
      in \<lparr>m_selected = s, m_total = t, m_percentage = skill_percentage s t\<rparr>)"

definition tree_update_skill_metrics :: "node list \<Rightarrow> metrics \<times> effect list" where
  "tree_update_skill_metrics ns = (let m = tree_metrics ns in (m, [ConsoleLog (metrics_log m)]))"

text \<open>\<open>classList.toggle(c)\<close>: a class list holds no duplicates; a present class is
  removed, an absent one appended.\<close>

definition toggle_class :: "js_string \<Rightarrow> js_string list \<Rightarrow> js_string list" where
  "toggle_class c cs = (if c \<in> set cs then removeAll c cs else cs @ [c])"

text \<open>
  The \<open>k\<close>-th element in document order (from 0) matching compound \<open>c\<close> gets its class
  list changed by \<open>f\<close>; the counter returned is \<open>k\<close> less the matches passed.
\<close>

fun upd_node :: "compound \<Rightarrow> (js_string list \<Rightarrow> js_string list) \<Rightarrow> int \<Rightarrow> node \<Rightarrow> node \<times> int"
  and upd_list :: "compound \<Rightarrow> (js_string list \<Rightarrow> js_string list) \<Rightarrow> int \<Rightarrow> node list \<Rightarrow> node list \<times> int" where
  "upd_node c f k (Text s) = (Text s, k)"
| "upd_node c f k (Elem t i cs ns) =
     (let m = compound_match c (Elem t i cs ns);
          r = upd_list c f (if m then k - 1 else k) ns
      in (Elem t i (if m \<and> k = 0 then f cs else cs) (fst r), snd r))"
| "upd_list c f k [] = ([], k)"
| "upd_list c f k (n # ns) =
     (let r = upd_node c f k n; r' = upd_list c f (snd r) ns in (fst r # fst r', snd r'))"

text \<open>
  The listener of badge \<open>i\<close> (lines 59-63).  The listener closes over the \<open>i\<close>-th
  element of the query at start-up; toggling \<open>selected\<close> keeps it the \<open>i\<close>-th match.
\<close>

definition tree_badge_click :: "nat \<Rightarrow> node list \<Rightarrow> node list \<times> effect list" where
  "tree_badge_click i ns =
     (let ns' = fst (upd_list badge_sel (toggle_class ''selected'') (int i) ns)
      in (ns', snd (tree_update_skill_metrics ns')))"

text \<open>\<open>badge.classList.remove('selected')\<close> on every match of \<open>'.skill-badge.selected'\<close>.\<close>

fun clear_node :: "node \<Rightarrow> node" where
  "clear_node (Text s) = Text s"
| "clear_node (Elem t i cs ns) =
     Elem t i (if compound_match selected_sel (Elem t i cs ns) then removeAll ''selected'' cs else cs)
       (map clear_node ns)"

definition tree_clear_selected :: "node list \<Rightarrow> node list \<times> effect list" where
  "tree_clear_selected ns =
     (let ns' = map clear_node ns in (ns', snd (tree_update_skill_metrics ns')))"

text \<open>List update at an integer position; out of range it changes nothing.\<close>

definition upd_at :: "int \<Rightarrow> ('a \<Rightarrow> 'a) \<Rightarrow> 'a list \<Rightarrow> 'a list" where
  "upd_at k g xs = (if 0 \<le> k \<and> nat k < length xs then xs[nat k := g (xs ! nat k)] else xs)"

section \<open>Lemmas\<close>

text \<open>The selector literals of the script parse to the compounds used above.\<close>

lemma parse_badge_selectors:
  "parse_css ''.skill-badge'' = CssSel [badge_sel]"
  "parse_css ''.skill-badge.selected'' = CssSel [selected_sel]"
  unfolding badge_sel_def selected_sel_def by code_simp+

lemma upd_at_Nil [simp]: "upd_at k g [] = []"
  by (simp add: upd_at_def)

lemma upd_at_neg [simp]: "k < 0 \<Longrightarrow> upd_at k g xs = xs"
  by (simp add: upd_at_def)

lemma upd_at_Cons:
  "upd_at k g (x # xs) = (if k = 0 then g x # xs else x # upd_at (k - 1) g xs)"
  by (auto simp: upd_at_def nat_diff_distrib' split: nat.split)

lemma upd_at_append:
  "upd_at k g (xs @ ys) = upd_at k g xs @ upd_at (k - int (length xs)) g ys"
  by (induction xs arbitrary: k) (simp_all add: upd_at_Cons algebra_simps)

lemma upd_at_nat: "upd_at (int i) g xs = (if i < length xs then xs[i := g (xs ! i)] else xs)"
  by (simp add: upd_at_def)

lemma upd_text:
  "text_content (fst (upd_node c f k n)) = text_content n"
  "map text_content (fst (upd_list c f k ns)) = map text_content ns"
  by (induction c f k n and c f k ns rule: upd_node_upd_list.induct) (simp_all add: Let_def)

text \<open>
  Updating the \<open>k\<close>-th match, seen through \<open>badge_of\<close>: when \<open>f\<close> keeps the match and
  acts on the badge as \<open>gb\<close>, the badges of the matches are updated at position \<open>k\<close>.
\<close>

lemma upd_badges:
  assumes hf: "\<And>t i cs ns. compound_match c (Elem t i (f cs) ns) = compound_match c (Elem t i cs ns)"
    and hg: "\<And>t i cs ns. badge_of (Elem t i (f cs) ns) = gb (badge_of (Elem t i cs ns))"
  shows "map badge_of (filter (compound_match c) (pre_node (fst (upd_node c f k n)))) =
           upd_at k gb (map badge_of (filter (compound_match c) (pre_node n)))
         \<and> snd (upd_node c f k n) = k - int (length (filter (compound_match c) (pre_node n)))"
    and "map badge_of (filter (compound_match c) (concat (map pre_node (fst (upd_list c f k ns))))) =
           upd_at k gb (map badge_of (filter (compound_match c) (concat (map pre_node ns))))
         \<and> snd (upd_list c f k ns) =
             k - int (length (filter (compound_match c) (concat (map pre_node ns))))"
  using hf hg
proof (induction c f k n and c f k ns rule: upd_node_upd_list.induct)
  case (2 c f k t i cs ns)
  define m where "m = compound_match c (Elem t i cs ns)"
  define r where "r = upd_list c f (if m then k - 1 else k) ns"
  define cs' where "cs' = (if m \<and> k = 0 then f cs else cs)"
  have tc: "concat (map text_content (fst r)) = concat (map text_content ns)"
    unfolding r_def by (simp only: upd_text(2))
  have cm: "compound_match c (Elem t i cs' (fst r)) = m"
    using "2.prems"(1) [of t i cs "fst r"] compound_match_children [of c t i cs "fst r" ns]
    unfolding cs'_def m_def by simp
  have bo: "badge_of (Elem t i cs' (fst r)) =
              (if m \<and> k = 0 then gb (badge_of (Elem t i cs ns)) else badge_of (Elem t i cs ns))"
    using "2.prems"(2) tc unfolding cs'_def by (auto simp: badge_of_def)
  have ih: "map badge_of (filter (compound_match c) (concat (map pre_node (fst r)))) =
              upd_at (if m then k - 1 else k) gb
                (map badge_of (filter (compound_match c) (concat (map pre_node ns))))
            \<and> snd r = (if m then k - 1 else k) -
                        int (length (filter (compound_match c) (concat (map pre_node ns))))"
    unfolding r_def m_def using "2.IH" "2.prems" by simp
  have "upd_node c f k (Elem t i cs ns) = (Elem t i cs' (fst r), snd r)"
    by (simp add: m_def r_def cs'_def Let_def)
  then show ?case using ih cm bo m_def by (simp add: upd_at_Cons diff_diff_eq)
next
  case (4 c f k n ns)
  then show ?case by (simp add: Let_def upd_at_append diff_diff_eq)
qed simp_all

lemma toggle_class_mem:
  "a \<in> set (toggle_class c cs) \<longleftrightarrow> (if a = c then c \<notin> set cs else a \<in> set cs)"
  by (auto simp: toggle_class_def)

lemma tree_metrics_badges: "tree_metrics ns = skill_metrics (badges_of ns)"
proof -
  have "query_all ns [selected_sel] = filter (\<lambda>n. ''selected'' \<in> set (classes_of n)) (query_all ns [badge_sel])"
    by (simp add: query_all_single selected_sel_def badge_sel_def)
       (rule filter_cong, auto simp: compound_match_def)
  then show ?thesis
    by (simp add: tree_metrics_def skill_metrics_def badges_of_def Let_def filter_map comp_def badge_of_def)
qed

lemma clear_node_text [simp]: "text_content (clear_node n) = text_content n"
  by (induction n) (simp_all cong: map_cong)

lemma pre_node_clear [simp]: "pre_node (clear_node n) = map clear_node (pre_node n)"
  by (induction n) (simp_all add: map_concat cong: map_cong)

lemma clear_node_match: "compound_match badge_sel (clear_node n) = compound_match badge_sel n"
  by (cases n) (auto simp: compound_match_def badge_sel_def)

lemma clear_node_badge:
  "compound_match badge_sel n \<Longrightarrow>
   badge_of (clear_node n) =
     (if selected (badge_of n) then (badge_of n)\<lparr>selected := False\<rparr> else badge_of n)"
  by (cases n) (auto simp: compound_match_def badge_sel_def selected_sel_def badge_of_def comp_def)

lemma badges_of_click:
  "badges_of (fst (upd_list badge_sel (toggle_class ''selected'') (int i) ns)) =
     (badges_of ns)[i := toggle_selected (badges_of ns ! i)]"
proof -
  have hf: "compound_match badge_sel (Elem t j (toggle_class ''selected'' cs) ms) =
              compound_match badge_sel (Elem t j cs ms)" for t j cs ms
    by (simp add: compound_match_def badge_sel_def toggle_class_mem)
  have hg: "badge_of (Elem t j (toggle_class ''selected'' cs) ms) =
              toggle_selected (badge_of (Elem t j cs ms))" for t j cs ms
    by (simp add: badge_of_def toggle_selected_def toggle_class_mem)
  show ?thesis
    using conjunct1 [OF upd_badges(2) [OF hf hg, of "int i" ns]]
    by (simp add: badges_of_def query_all_single upd_at_nat list_update_beyond)
qed

lemma badges_of_clear:
  "badges_of (map clear_node ns) =
     map (\<lambda>b. if selected b then b\<lparr>selected := False\<rparr> else b) (badges_of ns)"
proof -
  have "filter (compound_match badge_sel) (concat (map pre_node (map clear_node ns))) =
          map clear_node (filter (compound_match badge_sel) (concat (map pre_node ns)))"
  proof -
    have "concat (map pre_node (map clear_node ns)) = map clear_node (concat (map pre_node ns))"
      by (simp add: map_concat comp_def)
    then show ?thesis by (simp add: filter_map comp_def clear_node_match)
  qed
  then show ?thesis
    by (simp add: badges_of_def query_all_single clear_node_badge)
qed

section \<open>Properties\<close>

text \<open>
  C22: the badge list of theory \<open>Skills\<close> is an abstraction of the document tree.
  On the tree, \<open>updateSkillMetrics\<close>, the click listener of badge \<open>i\<close> and
  \<open>clearSelectedSkills\<close> act as the list operations \<open>update_skill_metrics\<close>,
  \<open>badge_click\<close> and \<open>clear_selected_skills\<close> on the badges read off the tree.
  This holds for every tree, however the badges are nested, and gives the same
  logged line.
\<close>

theorem badge_tree_refines:
  "tree_update_skill_metrics ns = update_skill_metrics (badges_of ns) \<and>
   map_prod badges_of id (tree_badge_click i ns) = badge_click i (badges_of ns) \<and>
   map_prod badges_of id (tree_clear_selected ns) = clear_selected_skills (badges_of ns)"
  by (simp add: tree_update_skill_metrics_def update_skill_metrics_def tree_metrics_badges
        tree_badge_click_def badge_click_def badges_of_click tree_clear_selected_def
        clear_selected_skills_def badges_of_clear Let_def)

end
