(* ===== verification/NavTree.thy ===== *)
theory NavTree
  imports Selectors Navigation
begin

text \<open>
  The navigation highlighter run on the document tree (src/script.js, lines 12-53).
  At start-up the script captures \<open>document.querySelectorAll('nav a')\<close> once
  (line 13).  Both listeners then change the class lists of exactly those elements.
  The click listener removes \<open>active\<close> from every link and adds it to the clicked one
  (lines 22-25).  The scroll listener reads \<open>getAttribute('id')\<close> of every
  \<open>section\<close> and \<open>getAttribute('href')\<close> of every link (lines 36-51).  The
  \<open>offsetTop\<close> of a section is layout, which the tree does not hold: it is the
  parameter \<open>lay\<close>.

  \<open>map_match_node\<close> and \<open>map_match_list\<close> give every element the captured query
  matched a new class list, computed from its index among the matches.  Matching
  uses the tree before the update, as the captured node list does.  \<open>nav_links_of\<close>
  reads the links of the list model of theory \<open>Navigation\<close> off a tree.  The
  lemmas prove that it maps the tree listeners to \<open>nav_click\<close> and
  \<open>nav_scroll\<close>.
\<close>

section \<open>Reading the links and sections\<close>

definition nav_sel :: "compound list" where
  "nav_sel = [[SType ''nav''], [SType ''a'']]"

definition section_sel :: "compound list" where
  "section_sel = [[SType ''section'']]"

definition link_of :: "node \<Rightarrow> nav_link" where
  "link_of n = \<lparr>href = get_attribute n ''href'', active = (''active'' \<in> set (classes_of n))\<rparr>"

definition nav_links_of :: "node list \<Rightarrow> nav_link list" where
  "nav_links_of ns = map link_of (query_all ns nav_sel)"

text \<open>The sections in document order, with their id attribute and layout top.\<close>

definition tree_sections :: "(node \<Rightarrow> int) \<Rightarrow> node list \<Rightarrow> page_section list" where
  "tree_sections lay ns =
     map (\<lambda>n. \<lparr>sec_id = get_attribute n ''id'', sec_top = lay n\<rparr>) (query_all ns section_sel)"

section \<open>Class updates of the captured matches\<close>

fun set_classes :: "js_string list \<Rightarrow> node \<Rightarrow> node" where
  "set_classes cs (Elem t a cs0 ns) = Elem t a cs ns"
| "set_classes cs (Text s) = Text s"

text \<open>\<open>classList.add\<close> and \<open>classList.remove\<close>.\<close>

definition class_add :: "js_string \<Rightarrow> js_string list \<Rightarrow> js_string list" where
  "class_add c cs = (if c \<in> set cs then cs else cs @ [c])"

definition class_remove :: "js_string \<Rightarrow> js_string list \<Rightarrow> js_string list" where
  "class_remove c cs = removeAll c cs"

fun map_match_node ::
  "compound list \<Rightarrow> (nat \<Rightarrow> node \<Rightarrow> js_string list) \<Rightarrow> node list \<Rightarrow> nat \<Rightarrow> node \<Rightarrow> node \<times> nat"
  and map_match_list ::
  "compound list \<Rightarrow> (nat \<Rightarrow> node \<Rightarrow> js_string list) \<Rightarrow> node list \<Rightarrow> nat \<Rightarrow> node list \<Rightarrow> node list \<times> nat"
where
  "map_match_node sel f anc k (Text s) = (Text s, k)"
| "map_match_node sel f anc k (Elem t a cs ns) =
     (let m = sel_match sel (Elem t a cs ns) anc;
          r = map_match_list sel f (Elem t a cs ns # anc) (if m then Suc k else k) ns
      in (Elem t a (if m then f k (Elem t a cs ns) else cs) (fst r), snd r))"
| "map_match_list sel f anc k [] = ([], k)"
| "map_match_list sel f anc k (n # ns) =
     (let r = map_match_node sel f anc k n; r' = map_match_list sel f anc (snd r) ns
      in (fst r # fst r', snd r'))"

section \<open>The listeners on the tree\<close>

text \<open>
  The click listener of link \<open>i\<close> (lines 16-31).  \<open>querySelector\<close> runs on the
  document of the tree first; when it throws, no class has changed.
\<close>

definition click_classes :: "nat \<Rightarrow> nat \<Rightarrow> node \<Rightarrow> js_string list" where
  "click_classes i j n =
     (let cs = class_remove ''active'' (classes_of n) in if j = i then class_add ''active'' cs else cs)"

definition tree_nav_click ::
  "(js_string \<Rightarrow> dom_error + bool) \<Rightarrow> (node \<Rightarrow> int) \<Rightarrow> node list \<Rightarrow> nat
   \<Rightarrow> (node list \<times> effect list) outcome" where
  "tree_nav_click other lay ns i =
     (let d = tree_document ns (tree_sections lay ns) other;
          target_id = get_attribute (query_all ns nav_sel ! i) ''href'' in
      case query_selector d (js_str_opt target_id) of
        Inl e \<Rightarrow> Thrown e (ns, [PreventDefault])
      | Inr target \<Rightarrow>
          Done (fst (map_match_list nav_sel (click_classes i) [] 0 ns),
                PreventDefault # (case target of None \<Rightarrow> [] | Some r \<Rightarrow> [ScrollIntoView r])))"

text \<open>The scroll listener (lines 35-52): remove \<open>active\<close>, add it back on a match.\<close>

definition scroll_classes :: "js_string option \<Rightarrow> nat \<Rightarrow> node \<Rightarrow> js_string list" where
  "scroll_classes cur j n =
     (let cs = class_remove ''active'' (classes_of n) in
      if get_attribute n ''href'' = Some (CHR ''#'' # js_str_opt cur) then class_add ''active'' cs else cs)"

definition tree_nav_scroll :: "int \<Rightarrow> (node \<Rightarrow> int) \<Rightarrow> node list \<Rightarrow> node list" where
  "tree_nav_scroll y lay ns =
     fst (map_match_list nav_sel (scroll_classes (scroll_current y (tree_sections lay ns))) [] 0 ns)"

section \<open>Vocabulary of the proofs\<close>

text \<open>
  The shape of an element is its tag and attributes.  A selector without class
  selectors matches by shape only, so class updates keep the set of matches.
\<close>

fun attrs_of :: "node \<Rightarrow> attrs" where
  "attrs_of (Elem t a cs ns) = a"
| "attrs_of (Text s) = []"

definition shape :: "node \<Rightarrow> js_string \<times> attrs" where
  "shape n = (tag_of n, attrs_of n)"

definition class_free :: "compound list \<Rightarrow> bool" where
  "class_free sel = list_all (list_all (\<lambda>s. case s of SClass c \<Rightarrow> False | _ \<Rightarrow> True)) sel"

fun ixmap :: "(nat \<Rightarrow> 'a \<Rightarrow> 'b) \<Rightarrow> nat \<Rightarrow> 'a list \<Rightarrow> 'b list" where
  "ixmap g k [] = []"
| "ixmap g k (x # xs) = g k x # ixmap g (Suc k) xs"

fun is_elem :: "node \<Rightarrow> bool" where
  "is_elem (Elem t a cs ns) = True"
| "is_elem (Text s) = False"

section \<open>Lemmas\<close>

lemma ixmap_append: "ixmap g k (xs @ ys) = ixmap g k xs @ ixmap g (k + length xs) ys"
  by (induction xs arbitrary: k) simp_all

lemma simple_match_shape:
  "(case s of SClass c \<Rightarrow> False | _ \<Rightarrow> True) \<Longrightarrow> shape n = shape n' \<Longrightarrow>
   simple_match s n = simple_match s n'"
  by (cases s; cases n; cases n') (auto simp: shape_def)

lemma compound_match_shape:
  "list_all (\<lambda>s. case s of SClass c \<Rightarrow> False | _ \<Rightarrow> True) c \<Longrightarrow> shape n = shape n' \<Longrightarrow>
   compound_match c n = compound_match c n'"
  unfolding compound_match_def list_all_iff using simple_match_shape by blast

lemma anc_match_shape:
  "class_free cs \<Longrightarrow> map shape as = map shape as' \<Longrightarrow> anc_match cs as = anc_match cs as'"
proof (induction cs as arbitrary: as' rule: anc_match.induct)
  case (3 c cs a as)
  then obtain a' as'' where as': "as' = a' # as''" and sh: "shape a = shape a'" "map shape as = map shape as''"
    by (cases as') auto
  have cm: "compound_match c a = compound_match c a'"
    using "3.prems"(1) sh(1) by (intro compound_match_shape) (simp_all add: class_free_def)
  show ?case
  proof (cases "compound_match c a")
    case True
    with "3.IH"(1) [OF True] "3.prems" cm as' sh show ?thesis by (simp add: class_free_def)
  next
    case False
    with "3.IH"(2) [OF False, of as''] "3.prems" cm as' sh show ?thesis by simp
  qed
qed auto

lemma class_free_rev: "class_free (rev sel) = class_free sel" "class_free sel \<Longrightarrow> class_free (butlast sel)"
  by (auto simp: class_free_def list_all_iff in_set_butlastD)

lemma sel_match_shape:
  assumes "class_free sel" "shape n = shape n'" "map shape anc = map shape anc'"
  shows "sel_match sel n anc = sel_match sel n' anc'"
proof -
  have "sel \<noteq> [] \<Longrightarrow> list_all (\<lambda>s. case s of SClass c \<Rightarrow> False | _ \<Rightarrow> True) (last sel)"
    using assms(1) last_in_set unfolding class_free_def list_all_iff by blast
  moreover have "class_free (rev (butlast sel))"
    using assms(1) by (simp add: class_free_rev)
  ultimately show ?thesis
    using assms compound_match_shape anc_match_shape unfolding sel_match_def by metis
qed

lemma shape_map_match_node [simp]: "shape (fst (map_match_node sel f anc k n)) = shape n"
  by (cases n) (simp_all add: shape_def Let_def)

lemma set_classes_elem [simp]: "set_classes c (Elem t a cs ns) = Elem t a c ns"
  by simp

lemma map_match_views:
  assumes cf: "class_free sel"
    and hv: "\<And>t a cs ns ns'. v (Elem t a cs ns) = v (Elem t a cs ns')"
  shows "map shape anc' = map shape anc \<Longrightarrow>
     map (v \<circ> fst) (filter (\<lambda>(x, b). sel_match sel x b) (descendants anc' (fst (map_match_node sel f anc k n)))) =
       ixmap (\<lambda>j x. v (set_classes (f j x) x)) k
         (map fst (filter (\<lambda>(x, b). sel_match sel x b) (descendants anc n)))
     \<and> snd (map_match_node sel f anc k n) =
         k + length (filter (\<lambda>(x, b). sel_match sel x b) (descendants anc n))"
    and "map shape anc' = map shape anc \<Longrightarrow>
     map (v \<circ> fst) (filter (\<lambda>(x, b). sel_match sel x b)
                     (concat (map (descendants anc') (fst (map_match_list sel f anc k ns))))) =
       ixmap (\<lambda>j x. v (set_classes (f j x) x)) k
         (map fst (filter (\<lambda>(x, b). sel_match sel x b) (concat (map (descendants anc) ns))))
     \<and> snd (map_match_list sel f anc k ns) =
         k + length (filter (\<lambda>(x, b). sel_match sel x b) (concat (map (descendants anc) ns)))"
  using cf
proof (induction sel f anc k n and sel f anc k ns arbitrary: anc' and anc' rule: map_match_node_map_match_list.induct)
  case (2 sel f anc k t a cs ns)
  define E where "E = Elem t a cs ns"
  define m where "m = sel_match sel E anc"
  define r where "r = map_match_list sel f (E # anc) (if m then Suc k else k) ns"
  define E' where "E' = Elem t a (if m then f k E else cs) (fst r)"
  have node: "map_match_node sel f anc k E = (E', snd r)"
    by (simp add: E_def E'_def m_def r_def Let_def)
  have se: "shape E' = shape E" by (simp add: E_def E'_def shape_def)
  then have sh: "map shape (E' # anc') = map shape (E # anc)"
    using "2.prems"(1) by simp
  from sel_match_shape [OF "2.prems"(2) se "2.prems"(1)]
  have mm: "sel_match sel E' anc' = m" by (simp add: m_def)
  have ih: "map (v \<circ> fst) (filter (\<lambda>(x, b). sel_match sel x b) (concat (map (descendants (E' # anc')) (fst r)))) =
              ixmap (\<lambda>j x. v (set_classes (f j x) x)) (if m then Suc k else k)
                (map fst (filter (\<lambda>(x, b). sel_match sel x b) (concat (map (descendants (E # anc)) ns))))
            \<and> snd r = (if m then Suc k else k) +
                length (filter (\<lambda>(x, b). sel_match sel x b) (concat (map (descendants (E # anc)) ns)))"
    unfolding r_def m_def E_def using "2.IH" [OF refl sh [unfolded E_def]] "2.prems"(2) by (simp add: comp_def)
  have vE: "v E' = v (set_classes (f k E) E)" if m
    using that hv by (simp add: E_def E'_def)
  have dE: "descendants anc E = (E, anc) # concat (map (descendants (E # anc)) ns)"
    by (simp add: E_def)
  have dE': "descendants anc' E' = (E', anc') # concat (map (descendants (E' # anc')) (fst r))"
    by (simp add: E'_def)
  show ?case
    using node ih mm vE dE dE' m_def unfolding E_def [symmetric] by (cases m) (simp_all add: comp_def)
next
  case (4 sel f anc k n ns)
  then show ?case by (simp add: Let_def ixmap_append)
qed simp_all

lemma descendants_elem: "(x, b) \<in> set (descendants anc n) \<Longrightarrow> is_elem x"
  by (induction anc n rule: descendants.induct) auto

lemma query_all_elem: "x \<in> set (query_all ns sel) \<Longrightarrow> is_elem x"
  by (auto simp: query_all_def doc_elems_def dest: descendants_elem)

lemma ixmap_length [simp]: "length (ixmap g k xs) = length xs"
  by (induction xs arbitrary: k) simp_all

lemma ixmap_nth: "j < length xs \<Longrightarrow> ixmap g k xs ! j = g (k + j) (xs ! j)"
  by (induction xs arbitrary: k j) (auto simp: nth_Cons split: nat.split)

lemma ixmap_cong:
  "(\<And>j x. x \<in> set xs \<Longrightarrow> g j x = h j x) \<Longrightarrow> ixmap g k xs = ixmap h k xs"
  by (induction xs arbitrary: k) simp_all

lemma ixmap_map: "ixmap (\<lambda>j x. g x) k xs = map g xs"
  by (induction xs arbitrary: k) simp_all

lemma class_free_nav_sel [simp]: "class_free nav_sel"
  by (simp add: class_free_def nav_sel_def)

lemma link_of_children: "link_of (Elem t a cs ns) = link_of (Elem t a cs ns')"
  by (simp add: link_of_def)

lemma nav_links_update:
  "nav_links_of (fst (map_match_list nav_sel f [] 0 ns)) =
     ixmap (\<lambda>j x. link_of (set_classes (f j x) x)) 0 (query_all ns nav_sel)"
  using conjunct1 [OF map_match_views(2) [where sel = nav_sel and v = link_of and anc' = "[]"
    and anc = "[]" and f = f and k = 0 and ns = ns, OF class_free_nav_sel link_of_children refl]]
  by (simp add: nav_links_of_def query_all_def doc_elems_def comp_def)

lemma link_of_click:
  "is_elem x \<Longrightarrow> link_of (set_classes (click_classes i j x) x) = (link_of x)\<lparr>active := (j = i)\<rparr>"
  by (cases x) (simp_all add: link_of_def click_classes_def class_add_def class_remove_def Let_def)

lemma link_of_scroll:
  "is_elem x \<Longrightarrow> link_of (set_classes (scroll_classes cur j x) x) = nav_mark cur (link_of x)"
  by (cases x) (simp_all add: link_of_def scroll_classes_def class_add_def class_remove_def nav_mark_def Let_def)

lemma nav_activate_ixmap: "ixmap (\<lambda>j l. l\<lparr>active := (j = i)\<rparr>) 0 ls = nav_activate i ls"
proof (rule nth_equalityI)
  fix j assume "j < length (ixmap (\<lambda>j l. l\<lparr>active := (j = i)\<rparr>) 0 ls)"
  then show "ixmap (\<lambda>j l. l\<lparr>active := (j = i)\<rparr>) 0 ls ! j = nav_activate i ls ! j"
    by (cases "j = i") (simp_all add: ixmap_nth nav_activate_def Let_def)
qed (simp add: nav_activate_def Let_def)

lemma nav_links_click:
  "nav_links_of (fst (map_match_list nav_sel (click_classes i) [] 0 ns)) = nav_activate i (nav_links_of ns)"
proof -
  have "ixmap (\<lambda>j x. link_of (set_classes (click_classes i j x) x)) 0 (query_all ns nav_sel) =
        ixmap (\<lambda>j x. (link_of x)\<lparr>active := (j = i)\<rparr>) 0 (query_all ns nav_sel)"
    by (rule ixmap_cong) (simp add: link_of_click query_all_elem)
  moreover have "ixmap (\<lambda>j x. (link_of x)\<lparr>active := (j = i)\<rparr>) 0 xs =
                 ixmap (\<lambda>j l. l\<lparr>active := (j = i)\<rparr>) 0 (map link_of xs)" for xs
    by (rule nth_equalityI) (simp_all add: ixmap_nth)
  ultimately show ?thesis unfolding nav_links_update by (simp add: nav_activate_ixmap nav_links_of_def)
qed

lemma nav_links_scroll:
  "nav_links_of (tree_nav_scroll y lay ns) = nav_scroll y (tree_sections lay ns) (nav_links_of ns)"
proof -
  let ?cur = "scroll_current y (tree_sections lay ns)"
  have "ixmap (\<lambda>j x. link_of (set_classes (scroll_classes ?cur j x) x)) 0 (query_all ns nav_sel) =
        ixmap (\<lambda>j x. nav_mark ?cur (link_of x)) 0 (query_all ns nav_sel)"
    by (rule ixmap_cong) (simp add: link_of_scroll query_all_elem)
  then show ?thesis
    unfolding tree_nav_scroll_def nav_links_update by (simp add: ixmap_map nav_scroll_def nav_links_of_def)
qed

section \<open>Properties\<close>

text \<open>
  C12: the list model of the navigation is the abstraction of the tree.  For every
  link \<open>i\<close> of \<open>nav a\<close>, the click listener on the tree throws exactly when
  \<open>nav_click\<close> throws on the links read off the tree, with the same effects.  The
  links it leaves are those \<open>nav_click\<close> computes.  The scroll listener on the tree
  leaves the links \<open>nav_scroll\<close> computes from the sections read off the tree.  This
  holds for every tree: links anywhere below a \<open>nav\<close>, nested \<open>nav\<close> elements,
  other elements carrying \<open>active\<close>.
\<close>

theorem nav_tree_refines:
  assumes "i < length (nav_links_of ns)"
  shows "outcome_map (map_prod nav_links_of id) (tree_nav_click other lay ns i) =
           nav_click (tree_document ns (tree_sections lay ns) other) (nav_links_of ns) i
         \<and> nav_links_of (tree_nav_scroll y lay ns) = nav_scroll y (tree_sections lay ns) (nav_links_of ns)"
proof
  have "href (nav_links_of ns ! i) = get_attribute (query_all ns nav_sel ! i) ''href''"
    using assms by (simp add: nav_links_of_def link_of_def)
  then show "outcome_map (map_prod nav_links_of id) (tree_nav_click other lay ns i) =
               nav_click (tree_document ns (tree_sections lay ns) other) (nav_links_of ns) i"
    by (simp add: tree_nav_click_def nav_click_def nav_links_click Let_def split: sum.split)
qed (rule nav_links_scroll)

theorem nav_tree_refines_witness:
  "outcome_map (map_prod nav_links_of id)
     (tree_nav_click (\<lambda>_. Inr False) (\<lambda>_. 0)
        [Elem ''nav'' [] [] [Elem ''a'' [(''href'', ''#about'')] [] [Text ''About'']],
         Elem ''section'' [(''id'', ''about'')] [] []] 0) =
   nav_click (tree_document
                [Elem ''nav'' [] [] [Elem ''a'' [(''href'', ''#about'')] [] [Text ''About'']],
                 Elem ''section'' [(''id'', ''about'')] [] []]
                (tree_sections (\<lambda>_. 0)
                   [Elem ''nav'' [] [] [Elem ''a'' [(''href'', ''#about'')] [] [Text ''About'']],
                    Elem ''section'' [(''id'', ''about'')] [] []]) (\<lambda>_. Inr False))
     (nav_links_of [Elem ''nav'' [] [] [Elem ''a'' [(''href'', ''#about'')] [] [Text ''About'']],
                    Elem ''section'' [(''id'', ''about'')] [] []]) 0"
proof -
  have "0 < length (nav_links_of [Elem ''nav'' [] [] [Elem ''a'' [(''href'', ''#about'')] [] [Text ''About'']],
                                  Elem ''section'' [(''id'', ''about'')] [] []])"
    by code_simp
  from conjunct1 [OF nav_tree_refines [OF this]] show ?thesis .
qed

end
