(* ===== verification/TreeIndependence.thy ===== *)
theory TreeIndependence
  imports BadgeTree NavTree
begin

text \<open>
  The navigation and the skill badges share the document.  The navigation
  listeners only add and remove the class \<open>active\<close> (src/script.js, lines 22-25,
  47-50).  The badge listeners only toggle and remove \<open>selected\<close> (lines 61, 227).
  The links read \<open>href\<close> and \<open>active\<close>, and the badges read
  \<open>skill-badge\<close>, \<open>selected\<close> and the text.  So neither kind of listener changes
  what the other reads, on any tree.  \<open>cls_sim K\<close> relates two trees of the same
  structure, tags, attributes and text whose elements agree on the classes in
  \<open>K\<close>.  A query whose class selectors all name classes in \<open>K\<close> finds related
  elements in related trees.
\<close>

section \<open>Trees equal up to some classes\<close>

fun cls_sim :: "js_string list \<Rightarrow> node \<Rightarrow> node \<Rightarrow> bool"
  and cls_sim_list :: "js_string list \<Rightarrow> node list \<Rightarrow> node list \<Rightarrow> bool" where
  "cls_sim K (Text s) (Text s') = (s = s')"
| "cls_sim K (Elem t a cs ns) (Elem t' a' cs' ns') =
     (t = t' \<and> a = a' \<and> (\<forall>c\<in>set K. c \<in> set cs \<longleftrightarrow> c \<in> set cs') \<and> cls_sim_list K ns ns')"
| "cls_sim K (Text s) (Elem t' a' cs' ns') = False"
| "cls_sim K (Elem t a cs ns) (Text s') = False"
| "cls_sim_list K [] [] = True"
| "cls_sim_list K (n # ns) (n' # ns') = (cls_sim K n n' \<and> cls_sim_list K ns ns')"
| "cls_sim_list K [] (n' # ns') = False"
| "cls_sim_list K (n # ns) [] = False"

definition pair_sim :: "js_string list \<Rightarrow> node \<times> node list \<Rightarrow> node \<times> node list \<Rightarrow> bool" where
  "pair_sim K p q = (cls_sim K (fst p) (fst q) \<and> list_all2 (cls_sim K) (snd p) (snd q))"

definition classes_in :: "compound list \<Rightarrow> js_string list \<Rightarrow> bool" where
  "classes_in sel K = (\<forall>c. SClass c \<in> set (concat sel) \<longrightarrow> c \<in> set K)"

section \<open>Lemmas\<close>

lemma cls_sim_list_iff: "cls_sim_list K ns ns' = list_all2 (cls_sim K) ns ns'"
  by (induction ns arbitrary: ns') (auto simp: list_all2_Cons1 elim: cls_sim_list.elims)

lemma cls_sim_text: "cls_sim K n n' \<Longrightarrow> text_content n = text_content n'"
  and "cls_sim_list K ns ns' \<Longrightarrow> concat (map text_content ns) = concat (map text_content ns')"
  by (induction K n n' and K ns ns' rule: cls_sim_cls_sim_list.induct) simp_all

lemma cls_sim_descendants:
  "cls_sim K n n' \<Longrightarrow> list_all2 (cls_sim K) anc anc' \<Longrightarrow>
     list_all2 (pair_sim K) (descendants anc n) (descendants anc' n')"
  "cls_sim_list K ns ns' \<Longrightarrow> list_all2 (cls_sim K) anc anc' \<Longrightarrow>
     list_all2 (pair_sim K) (concat (map (descendants anc) ns)) (concat (map (descendants anc') ns'))"
proof (induction K n n' and K ns ns' arbitrary: anc anc' and anc anc' rule: cls_sim_cls_sim_list.induct)
  case (2 K t a cs ns t' a' cs' ns')
  then have "list_all2 (cls_sim K) (Elem t a cs ns # anc) (Elem t' a' cs' ns' # anc')" by simp
  with 2 show ?case by (simp add: pair_sim_def)
next
  case (6 K n ns n' ns')
  then show ?case by (simp add: list_all2_appendI)
qed simp_all

lemma simple_match_sim:
  "cls_sim K n n' \<Longrightarrow> (\<And>c. s = SClass c \<Longrightarrow> c \<in> set K) \<Longrightarrow> simple_match s n = simple_match s n'"
  by (cases s; cases n; cases n') auto

lemma compound_match_sim:
  assumes "cls_sim K n n'" "\<And>c. SClass c \<in> set cc \<Longrightarrow> c \<in> set K"
  shows "compound_match cc n = compound_match cc n'"
proof -
  have "simple_match s n = simple_match s n'" if "s \<in> set cc" for s
    using assms(1) by (rule simple_match_sim) (use that assms(2) in auto)
  then show ?thesis by (auto simp: compound_match_def list_all_iff)
qed

lemma anc_match_sim:
  "list_all2 (cls_sim K) as as' \<Longrightarrow> (\<And>c. SClass c \<in> set (concat cs) \<Longrightarrow> c \<in> set K) \<Longrightarrow>
   anc_match cs as = anc_match cs as'"
proof (induction cs as arbitrary: as' rule: anc_match.induct)
  case (3 c cs a as)
  then obtain a' as'' where as': "as' = a' # as''" "cls_sim K a a'" "list_all2 (cls_sim K) as as''"
    by (auto simp: list_all2_Cons1)
  have cm: "compound_match c a = compound_match c a'"
    using as'(2) "3.prems"(2) by (intro compound_match_sim) auto
  show ?case
  proof (cases "compound_match c a")
    case True
    with "3.IH"(1) [OF True as'(3)] "3.prems"(2) cm as' show ?thesis by simp
  next
    case False
    with "3.IH"(2) [OF False, of as''] "3.prems"(2) cm as' show ?thesis by simp
  qed
qed (auto simp: list_all2_Cons1)

lemma sel_match_sim:
  assumes "classes_in sel K" "cls_sim K n n'" "list_all2 (cls_sim K) anc anc'"
  shows "sel_match sel n anc = sel_match sel n' anc'"
proof -
  have "sel \<noteq> [] \<Longrightarrow> SClass c \<in> set (last sel) \<Longrightarrow> c \<in> set K" for c
    using assms(1) last_in_set unfolding classes_in_def by fastforce
  moreover have "SClass c \<in> set (concat (rev (butlast sel))) \<Longrightarrow> c \<in> set K" for c
    using assms(1) in_set_butlastD unfolding classes_in_def by fastforce
  ultimately show ?thesis
    using assms(2,3) compound_match_sim anc_match_sim unfolding sel_match_def by metis
qed

lemma query_all_sim:
  assumes "classes_in sel K" "cls_sim_list K ns ns'"
  shows "list_all2 (cls_sim K) (query_all ns sel) (query_all ns' sel)"
proof -
  have "list_all2 (pair_sim K) (doc_elems ns) (doc_elems ns')"
    using cls_sim_descendants(2) [OF assms(2)] by (simp add: doc_elems_def)
  then have "list_all2 (pair_sim K) (filter (\<lambda>(n, anc). sel_match sel n anc) (doc_elems ns))
               (filter (\<lambda>(n, anc). sel_match sel n anc) (doc_elems ns'))"
  proof (rule list_all2_filter)
    fix p q assume "pair_sim K p q"
    then show "(\<lambda>(n, anc). sel_match sel n anc) p = (\<lambda>(n, anc). sel_match sel n anc) q"
      unfolding pair_sim_def split_def by (elim conjE) (rule sel_match_sim [OF assms(1)])
  qed
  then show ?thesis
    unfolding query_all_def list_all2_map1 list_all2_map2
    by (rule list_all2_mono) (simp add: pair_sim_def split_def)
qed

lemma map_match_sim:
  assumes "\<And>j x c. c \<in> set K \<Longrightarrow> c \<in> set (f j x) \<longleftrightarrow> c \<in> set (classes_of x)"
  shows "cls_sim K (fst (map_match_node sel f anc k n)) n"
    and "cls_sim_list K (fst (map_match_list sel f anc k ns)) ns"
  using assms by (induction sel f anc k n and sel f anc k ns rule: map_match_node_map_match_list.induct)
     (auto simp: Let_def assms)

lemma upd_sim:
  assumes "\<And>cs c. c \<in> set K \<Longrightarrow> c \<in> set (f cs) \<longleftrightarrow> c \<in> set cs"
  shows "cls_sim K (fst (upd_node cc f k n)) n"
    and "cls_sim_list K (fst (upd_list cc f k ns)) ns"
  using assms by (induction cc f k n and cc f k ns rule: upd_node_upd_list.induct)
     (auto simp: Let_def assms)

lemma clear_sim: "''selected'' \<notin> set K \<Longrightarrow> cls_sim_list K (map clear_node ns) ns"
proof -
  assume K: "''selected'' \<notin> set K"
  have "cls_sim K (clear_node n) n" for n
    by (induction n) (use K in \<open>auto simp: cls_sim_list_iff list_all2_map1 list_all2_same\<close>)
  then show ?thesis by (simp add: cls_sim_list_iff list_all2_map1 list_all2_same)
qed

lemma badges_of_sim:
  assumes "cls_sim_list K ns' ns" "''skill-badge'' \<in> set K" "''selected'' \<in> set K"
  shows "badges_of ns' = badges_of ns"
proof -
  have "classes_in [badge_sel] K" using assms(2) by (simp add: classes_in_def badge_sel_def)
  from query_all_sim [OF this assms(1)]
  show ?thesis unfolding badges_of_def
  proof (rule list_all2_map_eq)
    fix x y assume "cls_sim K x y"
    then show "badge_of x = badge_of y"
      using assms(3) cls_sim_text(1) [of K x y] by (cases x; cases y) (auto simp: badge_of_def)
  qed
qed

lemma nav_links_of_sim:
  assumes "cls_sim_list K ns' ns" "''active'' \<in> set K"
  shows "nav_links_of ns' = nav_links_of ns"
proof -
  have "classes_in nav_sel K" by (simp add: classes_in_def nav_sel_def)
  from query_all_sim [OF this assms(1)]
  show ?thesis unfolding nav_links_of_def
  proof (rule list_all2_map_eq)
    fix x y assume "cls_sim K x y"
    then show "link_of x = link_of y"
      using assms(2) by (cases x; cases y) (auto simp: link_of_def)
  qed
qed

section \<open>Properties\<close>

text \<open>
  C19: the navigation and the skill badges do not interfere on the document tree.
  A scroll or a click on a navigation link leaves the badges read by
  \<open>querySelectorAll('.skill-badge')\<close> unchanged, whether the click throws or not.  A
  badge click and \<open>clearSelectedSkills\<close> leave the navigation links unchanged.  This
  holds for every tree, also when one element is both a link and a badge.
\<close>

theorem tree_listeners_independent:
  "badges_of (tree_nav_scroll y lay ns) = badges_of ns \<and>
   badges_of (fst (outcome_val (tree_nav_click other lay ns i))) = badges_of ns \<and>
   nav_links_of (fst (tree_badge_click j ns)) = nav_links_of ns \<and>
   nav_links_of (fst (tree_clear_selected ns)) = nav_links_of ns"
proof (intro conjI)
  have scr: "\<And>j x c. c \<in> set [''skill-badge'', ''selected''] \<Longrightarrow>
               c \<in> set (scroll_classes cur j x) \<longleftrightarrow> c \<in> set (classes_of x)" for cur
    by (auto simp: scroll_classes_def class_add_def class_remove_def Let_def)
  have clk: "\<And>j x c. c \<in> set [''skill-badge'', ''selected''] \<Longrightarrow>
               c \<in> set (click_classes i j x) \<longleftrightarrow> c \<in> set (classes_of x)"
    by (auto simp: click_classes_def class_add_def class_remove_def Let_def)
  show "badges_of (tree_nav_scroll y lay ns) = badges_of ns"
    unfolding tree_nav_scroll_def
    by (rule badges_of_sim [OF map_match_sim(2) [where K = "[''skill-badge'', ''selected'']", OF scr]]) simp_all
  have "badges_of (fst (map_match_list nav_sel (click_classes i) [] 0 ns)) = badges_of ns"
    by (rule badges_of_sim [OF map_match_sim(2) [where K = "[''skill-badge'', ''selected'']", OF clk]]) simp_all
  then show "badges_of (fst (outcome_val (tree_nav_click other lay ns i))) = badges_of ns"
    by (simp add: tree_nav_click_def Let_def split: sum.split)
  show "nav_links_of (fst (tree_badge_click j ns)) = nav_links_of ns"
    unfolding tree_badge_click_def Let_def fst_conv
    by (rule nav_links_of_sim [of "[''active'']"], rule upd_sim(2)) (auto simp: toggle_class_def)
  show "nav_links_of (fst (tree_clear_selected ns)) = nav_links_of ns"
    unfolding tree_clear_selected_def Let_def fst_conv
    by (rule nav_links_of_sim [OF clear_sim [of "[''active'']"]]) simp_all
qed

end
