(* ===== verification/Spec2Isabelle.thy ===== *)
theory Spec2Isabelle
  imports SearchRefinement Browser TreeIndependence
begin

text \<open>
  \<^bold>\<open>A verification model of src/script.js (portfolio page interactivity).\<close>

  The program is one browser script.  On \<open>DOMContentLoaded\<close> it wires the
  navigation highlighter (\<open>initializeNavigation\<close>), the skill badges
  (\<open>initializeSkills\<close>, \<open>updateSkillMetrics\<close>), the skill search
  (\<open>initializeSearch\<close>), copy buttons, a clock and scroll-reveal animations; a global
  keydown listener and three functions exported on \<open>window\<close> complete it.  The parts
  share no state but the document: the search reads the badges at every keystroke, the
  navigation click looks its target up among all element ids, including those the
  search widget inserts.

  \<^bold>\<open>Library layout.\<close>
  \<^item> \<open>Prelude\<close>: the JavaScript built-ins the script calls, on strings of Latin-1
    code units (\<open>js_lower\<close> = \<open>toLowerCase\<close>, \<open>js_trim\<close> = \<open>trim\<close>,
    \<open>js_includes\<close> = \<open>includes\<close>, proved equal to \<open>sublist\<close>), \<open>Math.round\<close>
    (\<open>js_round\<close>, on exact rationals) and number-to-string conversion.
  \<^item> \<open>Dom\<close>: exceptions (\<open>dom_error\<close>), the outcome of a listener (\<open>Done\<close> or
    \<open>Thrown\<close> with the state reached before the throw), effects (\<open>effect\<close>), the
    static document (\<open>document\<close>: ids, sections, other selectors) and
    \<open>query_selector\<close> / \<open>get_element_by_id\<close> with the CSS rule for id selectors.
  \<^item> \<open>Navigation\<close> (script.js 12-53): \<open>nav_click\<close> (click listener),
    \<open>nav_scroll\<close> with \<open>scroll_current\<close> (scroll listener).
  \<^item> \<open>Skills\<close> (56-80, 221-230): \<open>badge_click\<close>, \<open>skill_metrics\<close>,
    \<open>update_skill_metrics\<close>, \<open>get_selected_skills\<close>, \<open>clear_selected_skills\<close>.
  \<^item> \<open>Search\<close> (83-132): \<open>init_search\<close>, \<open>search_input\<close>, \<open>result_click\<close>.
  \<^item> \<open>Page\<close> (1-9, 205-235 and the composition): the record \<open>page\<close> of everything
    the listeners read or write, \<open>keydown\<close> (Alt+S, Alt+H), \<open>page_init\<close>
    (\<open>DOMContentLoaded\<close>), \<open>get_experience\<close>, the dispatcher \<open>page_step\<close> over
    the datatype \<open>event\<close>, and the inductive \<open>reachable\<close> set of states.
  \<^item> \<open>Clock\<close> (159-182): \<open>status_ids\<close>, \<open>update_time\<close>,
    \<open>init_system_status\<close>, \<open>clock_ticks\<close> (the 1 s interval as a tick count), the
    formatting \<open>time_string\<close> of \<open>toLocaleTimeString\<close> under both hour cycles
    (\<open>hour_cycle\<close>), and its inverse \<open>parse_clock\<close>.  \<open>Page\<close> imports it for
    the ids the status bar brings.
  \<^item> \<open>CopyButtons\<close> (135-156): a timed state machine \<open>copy_step\<close> over
    \<open>copy_state\<close>.  Its events are clicks (\<open>copy_click\<close>), fulfilled and rejected
    \<open>writeText\<close> promises (\<open>write_resolved\<close>, \<open>write_rejected\<close>), timers
    (\<open>timer_fire\<close>) and the passing of time.  Its states are the inductive
    \<open>copy_reachable\<close> set, with the invariant \<open>copy_wf\<close>.
  \<^item> \<open>CopyQueue\<close> (145-151): \<open>copy_drain\<close>, a terminating \<open>function\<close> that
    runs the pending fulfilments and timers of the copy buttons to completion.
  \<^item> \<open>SearchRefinement\<close>: the skill filter of the specification as an abstract
    machine (\<open>spec_filter_step\<close>, over a start-up snapshot of the labels), the
    abstraction function \<open>search_abs\<close>, and the simulation lemmas showing that
    every page event is a step of that machine.
  \<^item> \<open>Reveal\<close> (185-202): the observer callback \<open>observer_callback\<close> and the
    IntersectionObserver notification rule (\<open>rv_entries\<close>, \<open>rv_step\<close>) over a
    list of frames (\<open>rv_run\<close>).
  \<^item> \<open>Browser\<close> (2-9 and the composition): the record \<open>browser\<close> of the page,
    the copy buttons, the status bar and the observer.  \<open>browser_init\<close> runs the six
    initialisers in order.  \<open>browser_step\<close> dispatches page, copy-button, clock and
    frame events.  \<open>browser_reachable\<close> is the set of states they reach, with the
    invariant \<open>browser_wf\<close>.
  \<^item> \<open>Selectors\<close> (the selector literals of lines 13, 19, 37, 57, 68-69, 84, 113,
    136, 199, 216, 226, 233): the document as a tree (\<open>node\<close>), the CSS fragment those
    literals use (\<open>parse_css\<close>: type, class and id selectors and the descendant
    combinator), \<open>querySelectorAll\<close> in document order (\<open>query_all\<close>),
    \<open>querySelector\<close> as a depth-first search that stops at the first match
    (\<open>qs_node\<close>, \<open>qs_list\<close>), and \<open>tree_document\<close>, the abstract \<open>document\<close> of
    \<open>Dom\<close> built from a tree.
  \<^item> \<open>BadgeTree\<close> (57-80, 225-230): the badge operations run on the tree
    (\<open>tree_badge_click\<close> with \<open>classList.toggle\<close> on the \<open>i\<close>-th match,
    \<open>tree_update_skill_metrics\<close>, \<open>tree_clear_selected\<close>), and the abstraction
    \<open>badges_of\<close> to the badge list of \<open>Skills\<close>.
  \<^item> \<open>NavTree\<close> (12-53): both navigation listeners run on the tree.  The links
    are the elements \<open>'nav a'\<close> matched at start-up, read by \<open>getAttribute\<close>
    and changed by \<open>classList.add\<close> and \<open>remove\<close> (\<open>map_match_list\<close>,
    \<open>tree_nav_click\<close>, \<open>tree_nav_scroll\<close>).  \<open>nav_links_of\<close> and
    \<open>tree_sections\<close> abstract the tree to the link and section lists of
    \<open>Navigation\<close>.
  \<^item> \<open>TreeIndependence\<close>: \<open>cls_sim\<close>, trees equal up to some classes, and
    the proof that the navigation and badge listeners on one tree never change what
    the other reads.
  \<^item> This theory: properties of the page that span components, proved by rule
    induction over \<open>reachable\<close> from the one-step lemmas of \<open>Page\<close>.

  \<^bold>\<open>What is proved.\<close>  The search renders exactly the trimmed labels whose
  lower-cased form contains the lower-cased query, in order, and nothing for an empty
  query; a row click selects its label (C1, C2, C9).  Every run of page events
  refines the specification's filter, which works on the labels collected at
  start-up (C10).  The scroll handler activates
  exactly the links whose href is \<open>'#' + current\<close>, where current is the last section
  within 200 units of the scroll position, so at most one link is active when hrefs are
  distinct; a click activates exactly the clicked link or throws before touching any
  link (C3-C6, C11, C13, C14).  The metrics are bounded and rounded as \<open>Math.round\<close> does,
  \<open>NaN\<close> for no badges (C17, C18, C20, C21).  Over every reachable page state: at most one active
  link, search rows consistent with the badges, Alt+H without a header, the search
  widget reached by Alt+S and by a navigation link after start-up, independence of the
  components (C23-C27, C29).  Over every
  state of the whole browser, that is every interleaving of page, copy-button, clock
  and frame events: the page invariants, the copy-button invariant, one document for
  page and clock (C8).  Errors come only from a navigation click, Alt+H or a rejected
  clipboard write (C30).  Several theorems record where the code
  departs from the specification (C11, C13, C14, C20, C25).

  \<^bold>\<open>Modelling choices.\<close>  Strings are restricted to Latin-1 code units, where
  \<open>toLowerCase\<close> and \<open>trim\<close> are exact.  \<open>scrollY\<close> is taken as its integer part,
  which decides the same comparisons with the integer \<open>offsetTop\<close>.  The percentage is
  computed in exact rational arithmetic; IEEE doubles can differ at exact halves
  (\<open>29/200\<close> gives 14 in the browser, 15 here).  Loops of the script are
  \<open>map\<close>, \<open>filter\<close> and \<open>fold\<close> over finite lists, so no fuel is needed.
  The page components use the abstract document of \<open>Dom\<close>.  It parses single id
  selectors and answers the others through \<open>doc_select\<close>.  \<open>Selectors\<close> and
  \<open>BadgeTree\<close> and \<open>NavTree\<close> justify that choice on a tree.  \<open>querySelector\<close> is the first
  element of \<open>querySelectorAll\<close> (C7).  The abstract document of a tree answers every
  selector of the fragment, and every string that throws, as the tree does (C28).
  The badge list is the abstraction of the tree under the click listener,
  \<open>updateSkillMetrics\<close> and \<open>clearSelectedSkills\<close> (C22).  The link list is the
  abstraction of the tree under the click and scroll listeners of the navigation
  (C12).  On one tree the navigation listeners leave the badges unchanged and the
  badge listeners leave the links unchanged (C19), which justifies the separate
  lists of the page state.  Elements carry their attributes; \<open>id\<close> is one of them, and the
  \<open>class\<close> attribute is kept as its token list.  \<open>offsetTop\<close> is layout and enters
  as a function of the section element.

  The copy buttons: every reachable state satisfies the invariant (C31).  All
  running timers can fire, leaving every button at \<open>[COPY]\<close> within 2000 ms
  (C32).  A click followed by a fulfilled write puts the link text on the clipboard
  and marks the button (C33).  A second copy within 2 s is reset early by the first
  timer (C34).  A rejected write is silent (C35).  The clock: its text and the parser
  are inverse to each other (C36, C37).  An \<open>h24\<close> engine shows hour 24 after
  midnight (C38).  The bar shows the time of the last tick unless the page already had
  a \<open>#systemTime\<close> (C39).  The reveal: a section runs its animation exactly when it
  has touched the observer root, whatever the threshold (C40).  The copy buttons
  always quiesce: \<open>copy_drain\<close> terminates in a state with no pending work and every
  button idle (C15).  Every text the status bar shows has the shape \<open>HH:MM:SS\<close>
  (C16).

  \<^bold>\<open>Time, bounds and fuel.\<close>  The copy buttons count time in ms as a
  \<open>nat\<close>.  Time may advance only up to the earliest due timer, so the model never
  skips a timer.  \<open>copy_drain\<close> needs no fuel.  Its termination measure is twice
  the number of pending writes plus the number of timers.  \<open>copy_settle n\<close> fires at most \<open>n\<close> timers, and C32 gives it the
  number of running timers, which is enough because each firing removes one.  The
  clock takes local time as ms from a local midnight.  Time zones, the date and
  sub-second jitter of the interval are not modelled: the interval is the tick count
  of \<open>clock_ticks\<close>.  The reveal is modelled in the vertical dimension only.  It
  computes \<open>isIntersecting\<close> and the threshold index as the W3C specification does
  and decides both with integers: the visible fraction is at least 1/10 exactly when
  ten times the overlap is at least the height.

  \<^bold>\<open>Not modelled.\<close>  The style of the page (CSS), the smooth-scroll animation
  itself, and the text of the clipboard outside the copy buttons.  The built-ins
  stay partly modelled.  An Isabelle \<open>char\<close> is one of 256 code units, so the
  Unicode case mapping of \<open>toLowerCase\<close> and the Unicode white space of \<open>trim\<close>
  outside Latin-1 cannot be written.  Selectors with characters outside the fragment
  (combinators \<open>>\<close>, \<open>+\<close>, \<open>~\<close>, attribute and pseudo-class selectors, escapes)
  are not parsed.  They can reach \<open>querySelector\<close> only through the hrefs of line
  19, and the tree document leaves them to its parameter \<open>other\<close>.  In \<open>Browser\<close>
  the copy buttons, the clock and the reveal keep their own states beside the page
  record.  They share no element with the other listeners, and the ids they add are
  modelled in \<open>status_ids\<close>.  The copy buttons' clock and the times of the clock
  ticks are not tied to one global time: an interleaving of the events fixes their
  order, and no property relates their times.
\<close>

section \<open>Properties of the whole page\<close>

text \<open>
  C23: in every state reachable by any sequence of events, at most one navigation link
  is active, provided the links have distinct hrefs and the initial markup marks at most
  one.
\<close>

theorem reachable_single_active:
  assumes "reachable p0 p" and "hrefs_distinct (pg_links p0)"
    and "card (active_links (pg_links p0)) \<le> 1"
  shows "card (active_links (pg_links p)) \<le> 1"
  using assms(1)
proof (induction rule: reachable.induct)
  case init
  show ?case by (rule assms(3))
next
  case (step p e)
  from step.hyps have "map href (pg_links p) = map href (pg_links p0)"
    by (simp add: reachable_frame)
  with assms(2) have "hrefs_distinct (pg_links p)" by (simp add: hrefs_distinct_def)
  then show ?case using step.IH by (rule page_step_single_active)
qed

theorem reachable_single_active_witness:
  "card (active_links (pg_links (page_step
     (page_init \<lparr>doc_ids = [''about''], doc_sections = [\<lparr>sec_id = Some ''about'', sec_top = 0\<rparr>],
                 doc_select = \<lambda>_. Inr False\<rparr>
        [\<lparr>href = Some ''#about'', active = True\<rparr>, \<lparr>href = Some ''#blog'', active = False\<rparr>] [] [])
     (Scroll 300)))) \<le> 1"
proof -
  let ?p0 = "page_init \<lparr>doc_ids = [''about''], doc_sections = [\<lparr>sec_id = Some ''about'', sec_top = 0\<rparr>],
                 doc_select = \<lambda>_. Inr False\<rparr>
        [\<lparr>href = Some ''#about'', active = True\<rparr>, \<lparr>href = Some ''#blog'', active = False\<rparr>] [] []"
  have r: "reachable ?p0 (page_step ?p0 (Scroll 300))" by (rule reachable.step [OF reachable.init])
  have d: "hrefs_distinct (pg_links ?p0)" by (simp add: hrefs_distinct_def)
  have c: "card (active_links (pg_links ?p0)) \<le> 1" by (simp add: active_links_eq upt_rec)
  show ?thesis by (rule reachable_single_active [OF r d c])
qed

text \<open>
  C24: in every state reachable from start-up, the rendered search rows are a
  subsequence of the trimmed labels of the current badges: badge clicks and
  \<open>clearSelectedSkills\<close> never invalidate the rows on display.
\<close>

theorem reachable_results_subseq:
  assumes "reachable (page_init d ls bs xs) p" and "pg_search p = Some ui"
  shows "subseq (search_results ui) (skill_labels (pg_badges p))"
proof -
  from assms(1) have "results_ok p"
  proof (induction rule: reachable.induct)
    case init
    show ?case by (auto simp: results_ok_def init_search_def split: sum.split option.split)
  next
    case (step p e)
    from step.IH show ?case by (rule page_step_results_ok)
  qed
  with assms(2) show ?thesis by (simp add: results_ok_def)
qed

theorem reachable_results_subseq_witness:
  "subseq (search_results \<lparr>search_value = ''o'', search_results = [''Go'']\<rparr>)
     (skill_labels (pg_badges (page_step
        (page_init \<lparr>doc_ids = [''skills''], doc_sections = [], doc_select = \<lambda>_. Inr False\<rparr> []
           [\<lparr>badge_text = ''Rust'', selected = False\<rparr>, \<lparr>badge_text = ''Go'', selected = False\<rparr>] [])
        (SearchInput ''o''))))"
proof -
  let ?p0 = "page_init \<lparr>doc_ids = [''skills''], doc_sections = [], doc_select = \<lambda>_. Inr False\<rparr> []
           [\<lparr>badge_text = ''Rust'', selected = False\<rparr>, \<lparr>badge_text = ''Go'', selected = False\<rparr>] []"
  have r: "reachable ?p0 (page_step ?p0 (SearchInput ''o''))" by (rule reachable.step [OF reachable.init])
  have s: "pg_search (page_step ?p0 (SearchInput ''o'')) = Some \<lparr>search_value = ''o'', search_results = [''Go'']\<rparr>"
    by (simp add: init_search_skills) code_simp
  show ?thesis by (rule reachable_results_subseq [OF r s])
qed

text \<open>
  C26: start-up and the keyboard listener interact through the document: when the page
  has a \<open>#skills\<close> container, Alt+S after start-up focuses the search input that
  \<open>initializeSearch\<close> inserted, and nothing is thrown.
\<close>

theorem init_alt_s_focus:
  assumes "''skills'' \<in> set (doc_ids d)"
  shows "pg_log (page_step (page_init d ls bs xs) (KeyDown ''s'' True)) = [PreventDefault, Focus ''skillSearch'']
         \<and> pg_errors (page_step (page_init d ls bs xs) (KeyDown ''s'' True)) = []"
  using assms
  by (simp add: init_search_skills report_def keydown_def key_focus_search_def get_element_by_id_def
      search_widget_ids_def)

theorem init_alt_s_focus_witness:
  "''skills'' \<in> set (doc_ids \<lparr>doc_ids = [''skills''], doc_sections = [], doc_select = \<lambda>_. Inr False\<rparr>)
   \<and> pg_log (page_step (page_init \<lparr>doc_ids = [''skills''], doc_sections = [], doc_select = \<lambda>_. Inr False\<rparr> [] [] [])
        (KeyDown ''s'' True)) = [PreventDefault, Focus ''skillSearch'']"
  using init_alt_s_focus [of "\<lparr>doc_ids = [''skills''], doc_sections = [], doc_select = \<lambda>_. Inr False\<rparr>" "[]" "[]" "[]"]
  by simp

text \<open>
  C27: a navigation link \<open>#skillSearch\<close> finds the input the search widget inserted at
  start-up: the click activates that link alone and scrolls to the input.
\<close>

theorem init_nav_click_search_widget:
  assumes "''skills'' \<in> set (doc_ids d)" and "i < length ls" and "href (ls ! i) = Some ''#skillSearch''"
  shows "pg_log (page_step (page_init d ls bs xs) (NavClick i)) =
           [PreventDefault, ScrollIntoView (ElemId ''skillSearch'')]
         \<and> active_links (pg_links (page_step (page_init d ls bs xs) (NavClick i))) = {i}"
proof -
  have q: "query_selector (pg_doc (page_init d ls bs xs)) ''#skillSearch'' = Inr (Some (ElemId ''skillSearch''))"
    using assms(1)
    by (simp add: init_search_skills query_selector_def css_ident_def css_name_start_def
        css_name_char_def search_widget_ids_def)
  with assms(2,3) show ?thesis
    by (simp add: nav_click_def report_def active_links_nav_activate)
qed

theorem init_nav_click_search_widget_witness:
  "pg_log (page_step (page_init \<lparr>doc_ids = [''skills''], doc_sections = [], doc_select = \<lambda>_. Inr False\<rparr>
       [\<lparr>href = Some ''#skillSearch'', active = False\<rparr>] [] []) (NavClick 0))
     = [PreventDefault, ScrollIntoView (ElemId ''skillSearch'')]"
  using init_nav_click_search_widget [of "\<lparr>doc_ids = [''skills''], doc_sections = [], doc_select = \<lambda>_. Inr False\<rparr>"
      0 "[\<lparr>href = Some ''#skillSearch'', active = False\<rparr>]" "[]" "[]"]
  by simp

text \<open>
  The search does not depend on which badges are selected: a badge click before an
  input event leaves the rendered rows unchanged.
\<close>

theorem search_ignores_selection:
  "pg_search (page_step (page_step p (BadgeClick i)) (SearchInput v)) =
   pg_search (page_step p (SearchInput v))"
proof -
  define q where "q = page_step p (BadgeClick i)"
  have lab: "skill_labels (pg_badges q) = skill_labels (pg_badges p)"
    unfolding q_def by (rule skill_labels_texts) simp
  have h: "search_input (pg_badges q) v ui = search_input (pg_badges p) v ui" for ui
    using lab by (rule search_input_labels)
  have s: "pg_search q = pg_search p" unfolding q_def by simp
  show ?thesis unfolding q_def [symmetric]
    by (cases "pg_search p") (simp_all add: s h)
qed


end
